theory Spec2Isabelle
  imports Complex_Main "HOL-Library.Word"
begin

section \<open>JavaScript values\<close>

text \<open>
  The facilitator is TypeScript; at run time the payment payload is whatever
  \<^verbatim>\<open>JSON.parse\<close> returned, so it is modelled as an untyped JavaScript value.
  A JavaScript string is a sequence of UTF-16 code units, here a list of naturals.
  \<open>JNative k\<close> stands for the member \<open>k\<close> that every object literal inherits
  from \<^verbatim>\<open>Object.prototype\<close> (a built-in function, or the prototype itself); it
  only arises from the two table lookups \<^verbatim>\<open>chainIds[network]\<close> and
  \<^verbatim>\<open>rpcUrls[network]\<close>. A number is a double: \<open>JNum r\<close> is the finite double of
  value \<open>r\<close> and \<open>JInf neg\<close> is \<^verbatim>\<open>Infinity\<close> or \<^verbatim>\<open>-Infinity\<close>. The two zeros are one
  value \<open>JNum 0\<close>: they are equal under \<^verbatim>\<open>===\<close>, both falsy and both printed
  \<^verbatim>\<open>0\<close>, and the services never divide by a number. \<^verbatim>\<open>NaN\<close> is no result of
  \<^verbatim>\<open>JSON.parse\<close> and is left out.
\<close>

type_synonym jstring = "nat list"

definition js :: "string \<Rightarrow> jstring" where
  "js s = map of_char s"

datatype jsval =
    JUndefined
  | JNull
  | JBool bool
  | JNum rat
  | JStr jstring
  | JArr "jsval list"
  | JObj "(jstring \<times> jsval) list"
  | JNative jstring
  | JInf bool

text \<open>\<^verbatim>\<open>!v\<close> is true exactly on the falsy values.\<close>

fun truthy :: "jsval \<Rightarrow> bool" where
  "truthy JUndefined = False"
| "truthy JNull = False"
| "truthy (JBool b) = b"
| "truthy (JNum r) = (r \<noteq> 0)"
| "truthy (JStr s) = (s \<noteq> [])"
| "truthy (JArr xs) = True"
| "truthy (JObj ms) = True"
| "truthy (JNative k) = True"
| "truthy (JInf neg) = True"

text \<open>
  Member access \<^verbatim>\<open>v.k\<close>, for the keys the services read (\<^verbatim>\<open>x402Version\<close>,
  \<^verbatim>\<open>scheme\<close>, \<^verbatim>\<open>network\<close>, \<^verbatim>\<open>payload\<close>, \<^verbatim>\<open>signature\<close>,
  \<^verbatim>\<open>authorization\<close>, \<^verbatim>\<open>txHash\<close>, \<^verbatim>\<open>from\<close>, \<^verbatim>\<open>value\<close>,
  \<^verbatim>\<open>validAfter\<close>, \<^verbatim>\<open>validBefore\<close>, \<^verbatim>\<open>domain\<close>): none of them is a member of
  a built-in prototype, so the access yields the own property or \<^verbatim>\<open>undefined\<close>.
  On \<^verbatim>\<open>undefined\<close> and \<^verbatim>\<open>null\<close> it throws a TypeError (\<open>None\<close>).
\<close>

fun getProp :: "jsval \<Rightarrow> jstring \<Rightarrow> jsval option" where
  "getProp JUndefined k = None"
| "getProp JNull k = None"
| "getProp (JObj ms) k = (case map_of ms k of None \<Rightarrow> Some JUndefined | Some v \<Rightarrow> Some v)"
| "getProp v k = Some JUndefined"

text \<open>The names every object literal inherits from \<^verbatim>\<open>Object.prototype\<close>.\<close>

definition objectPrototypeNames :: "jstring list" where
  "objectPrototypeNames = map js
     [''constructor'', ''__defineGetter__'', ''__defineSetter__'', ''hasOwnProperty'',
      ''__lookupGetter__'', ''__lookupSetter__'', ''isPrototypeOf'', ''propertyIsEnumerable'',
      ''toString'', ''valueOf'', ''__proto__'', ''toLocaleString'']"

text \<open>
  \<^verbatim>\<open>table[key]\<close> on an object literal whose own properties are \<open>table\<close>:
  the own property, else the inherited member, else \<^verbatim>\<open>undefined\<close>.
\<close>

definition literalLookup :: "(jstring \<times> jsval) list \<Rightarrow> jstring \<Rightarrow> jsval" where
  "literalLookup table key =
     (case map_of table key of
        Some v \<Rightarrow> v
      | None \<Rightarrow> if key \<in> set objectPrototypeNames then JNative key else JUndefined)"

section \<open>Buffer: UTF-8 and base64\<close>

type_synonym byte = nat

text \<open>
  \<^verbatim>\<open>Buffer.from(str)\<close> (UTF-8): a surrogate pair becomes one four-byte sequence, a
  lone surrogate becomes U+FFFD.
\<close>

fun utf8_encode :: "jstring \<Rightarrow> byte list" where
  "utf8_encode [] = []"
| "utf8_encode (c # cs) =
     (if c < 0x80 then c # utf8_encode cs
      else if c < 0x800 then (0xC0 + c div 64) # (0x80 + c mod 64) # utf8_encode cs
      else if 0xD800 \<le> c \<and> c < 0xDC00 then
        (case cs of
           [] \<Rightarrow> [0xEF, 0xBF, 0xBD]
         | d # ds \<Rightarrow>
             if 0xDC00 \<le> d \<and> d < 0xE000 then
               (let cp = 0x10000 + (c - 0xD800) * 1024 + (d - 0xDC00)
                in (0xF0 + cp div 262144) # (0x80 + (cp div 4096) mod 64)
                   # (0x80 + (cp div 64) mod 64) # (0x80 + cp mod 64) # utf8_encode ds)
             else 0xEF # 0xBF # 0xBD # utf8_encode cs)
      else if 0xDC00 \<le> c \<and> c < 0xE000 then 0xEF # 0xBF # 0xBD # utf8_encode cs
      else (0xE0 + c div 4096) # (0x80 + (c div 64) mod 64) # (0x80 + c mod 64) # utf8_encode cs)"

definition cont_byte :: "byte \<Rightarrow> bool" where
  "cont_byte b = (0x80 \<le> b \<and> b \<le> 0xBF)"

definition code_units :: "nat \<Rightarrow> jstring" where
  "code_units cp =
     (if cp < 0x10000 then [cp]
      else [0xD800 + (cp - 0x10000) div 1024, 0xDC00 + (cp - 0x10000) mod 1024])"

text \<open>
  \<^verbatim>\<open>buf.toString('utf-8')\<close>: an ill-formed sequence decodes to U+FFFD and decoding
  resumes at the byte that broke it.
\<close>

fun utf8_decode :: "byte list \<Rightarrow> jstring" where
  "utf8_decode [] = []"
| "utf8_decode (b # bs) =
     (if b < 0x80 then b # utf8_decode bs
      else if 0xC2 \<le> b \<and> b \<le> 0xDF then
        (case bs of
           [] \<Rightarrow> [0xFFFD]
         | c # bs1 \<Rightarrow>
             if cont_byte c then ((b - 0xC0) * 64 + (c - 0x80)) # utf8_decode bs1
             else 0xFFFD # utf8_decode bs)
      else if 0xE0 \<le> b \<and> b \<le> 0xEF then
        (case bs of
           [] \<Rightarrow> [0xFFFD]
         | c # bs1 \<Rightarrow>
             if (if b = 0xE0 then 0xA0 else 0x80) \<le> c \<and> c \<le> (if b = 0xED then 0x9F else 0xBF) then
               (case bs1 of
                  [] \<Rightarrow> [0xFFFD]
                | d # bs2 \<Rightarrow>
                    if cont_byte d then
                      ((b - 0xE0) * 4096 + (c - 0x80) * 64 + (d - 0x80)) # utf8_decode bs2
                    else 0xFFFD # utf8_decode bs1)
             else 0xFFFD # utf8_decode bs)
      else if 0xF0 \<le> b \<and> b \<le> 0xF4 then
        (case bs of
           [] \<Rightarrow> [0xFFFD]
         | c # bs1 \<Rightarrow>
             if (if b = 0xF0 then 0x90 else 0x80) \<le> c \<and> c \<le> (if b = 0xF4 then 0x8F else 0xBF) then
               (case bs1 of
                  [] \<Rightarrow> [0xFFFD]
                | d # bs2 \<Rightarrow>
                    if cont_byte d then
                      (case bs2 of
                         [] \<Rightarrow> [0xFFFD]
                       | e # bs3 \<Rightarrow>
                           if cont_byte e then
                             code_units ((b - 0xF0) * 262144 + (c - 0x80) * 4096
                                         + (d - 0x80) * 64 + (e - 0x80)) @ utf8_decode bs3
                           else 0xFFFD # utf8_decode bs2)
                    else 0xFFFD # utf8_decode bs1)
             else 0xFFFD # utf8_decode bs)
      else 0xFFFD # utf8_decode bs)"

text \<open>The base64 alphabet: the character of a sextet, and the sextet of a character
  (the decoder also accepts the URL-safe \<^verbatim>\<open>-\<close> and \<^verbatim>\<open>_\<close>). The decoder reads a code
  unit by its low byte, so a unit above \<^verbatim>\<open>0xFF\<close> counts as the character of that
  byte.\<close>

definition b64_char :: "nat \<Rightarrow> nat" where
  "b64_char s =
     (if s < 26 then 65 + s
      else if s < 52 then 71 + s
      else if s < 62 then s - 4
      else if s = 62 then 43 else 47)"

definition unbase64 :: "nat \<Rightarrow> nat option" where
  "unbase64 c =
     (let b = c mod 256
      in if 65 \<le> b \<and> b \<le> 90 then Some (b - 65)
         else if 97 \<le> b \<and> b \<le> 122 then Some (b - 71)
         else if 48 \<le> b \<and> b \<le> 57 then Some (b + 4)
         else if b = 43 \<or> b = 45 then Some 62
         else if b = 47 \<or> b = 95 then Some 63
         else None)"

text \<open>\<^verbatim>\<open>buf.toString('base64')\<close>: three bytes to four characters, padded with \<^verbatim>\<open>=\<close>.\<close>

fun base64_encode :: "byte list \<Rightarrow> jstring" where
  "base64_encode [] = []"
| "base64_encode [a] = [b64_char (a div 4), b64_char ((a mod 4) * 16), 61, 61]"
| "base64_encode [a, b] =
     [b64_char (a div 4), b64_char ((a mod 4) * 16 + b div 16), b64_char ((b mod 16) * 4), 61]"
| "base64_encode (a # b # c # bs) =
     b64_char (a div 4) # b64_char ((a mod 4) * 16 + b div 16)
       # b64_char ((b mod 16) * 4 + c div 64) # b64_char (c mod 64) # base64_encode bs"

fun sextets_to_bytes :: "nat list \<Rightarrow> byte list" where
  "sextets_to_bytes (p # q # r # s # rest) =
     (p * 4 + q div 16) # ((q mod 16) * 16 + r div 4) # ((r mod 4) * 64 + s) # sextets_to_bytes rest"
| "sextets_to_bytes [p, q, r] = [p * 4 + q div 16, (q mod 16) * 16 + r div 4]"
| "sextets_to_bytes [p, q] = [p * 4 + q div 16]"
| "sextets_to_bytes [p] = []"
| "sextets_to_bytes [] = []"

text \<open>
  \<^verbatim>\<open>Buffer.from(str, 'base64')\<close> never throws: it stops at the first \<^verbatim>\<open>=\<close>,
  skips every character outside the alphabet, and drops a dangling sextet.
\<close>

definition base64_decode :: "jstring \<Rightarrow> byte list" where
  "base64_decode s =
     sextets_to_bytes (List.map_filter unbase64 (takeWhile (\<lambda>c. c mod 256 \<noteq> 61) s))"

section \<open>JSON\<close>

text \<open>
  \<^verbatim>\<open>JSON.parse\<close> as a recursive-descent parser over code units. A result
  \<open>None\<close> is the SyntaxError of the original. After a nested value the parsers of
  array elements and object members check that the remaining text has not grown, which
  makes their recursion well-founded; the check never fails (lemma \<open>parse_shorter\<close>).
\<close>

definition is_ws :: "nat \<Rightarrow> bool" where
  "is_ws c = (c = 32 \<or> c = 9 \<or> c = 10 \<or> c = 13)"

definition skip_ws :: "jstring \<Rightarrow> jstring" where
  "skip_ws s = dropWhile is_ws s"

definition is_digit :: "nat \<Rightarrow> bool" where
  "is_digit c = (48 \<le> c \<and> c \<le> 57)"

definition hex_val :: "nat \<Rightarrow> nat option" where
  "hex_val c =
     (if 48 \<le> c \<and> c \<le> 57 then Some (c - 48)
      else if 97 \<le> c \<and> c \<le> 102 then Some (c - 87)
      else if 65 \<le> c \<and> c \<le> 70 then Some (c - 55)
      else None)"

definition hex4 :: "nat \<Rightarrow> nat \<Rightarrow> nat \<Rightarrow> nat \<Rightarrow> nat option" where
  "hex4 a b c d =
     (case (hex_val a, hex_val b, hex_val c, hex_val d) of
        (Some p, Some q, Some r, Some s) \<Rightarrow> Some (p * 4096 + q * 256 + r * 16 + s)
      | _ \<Rightarrow> None)"

text \<open>The character after a backslash, other than \<^verbatim>\<open>u\<close>.\<close>

definition simple_escape :: "nat \<Rightarrow> nat option" where
  "simple_escape e =
     (if e = 34 then Some 34
      else if e = 92 then Some 92
      else if e = 47 then Some 47
      else if e = 98 then Some 8
      else if e = 102 then Some 12
      else if e = 110 then Some 10
      else if e = 114 then Some 13
      else if e = 116 then Some 9
      else None)"

text \<open>The characters of a string literal, after its opening quote, up to the closing one.\<close>

fun parse_chars :: "jstring \<Rightarrow> (jstring \<times> jstring) option" where
  "parse_chars [] = None"
| "parse_chars (c # cs) =
     (if c = 34 then Some ([], cs)
      else if c = 92 then
        (case cs of
           [] \<Rightarrow> None
         | e # es \<Rightarrow>
             if e = 117 then
               (case es of
                  h1 # h2 # h3 # h4 # rest \<Rightarrow>
                    (case hex4 h1 h2 h3 h4 of
                       None \<Rightarrow> None
                     | Some u \<Rightarrow> map_option (\<lambda>(str, r). (u # str, r)) (parse_chars rest))
                | _ \<Rightarrow> None)
             else
               (case simple_escape e of
                  None \<Rightarrow> None
                | Some x \<Rightarrow> map_option (\<lambda>(str, r). (x # str, r)) (parse_chars es)))
      else if c < 32 then None
      else map_option (\<lambda>(str, r). (c # str, r)) (parse_chars cs))"

definition digits_val :: "nat list \<Rightarrow> nat" where
  "digits_val ds = foldl (\<lambda>a d. a * 10 + (d - 48)) 0 ds"

definition pow10 :: "int \<Rightarrow> rat" where
  "pow10 e = (if 0 \<le> e then 10 ^ nat e else 1 / 10 ^ nat (- e))"

text \<open>
  A number literal: \<^verbatim>\<open>-? (0 | [1-9][0-9]*) (. [0-9]+)? ([eE] [+-]? [0-9]+)?\<close>.
  A digit can never follow a complete value, so a leading zero followed by digits is
  rejected here rather than by the caller.
\<close>

definition parse_exponent :: "jstring \<Rightarrow> (int \<times> jstring) option" where
  "parse_exponent s =
     (case s of
        [] \<Rightarrow> Some (0, s)
      | c # cs \<Rightarrow>
          if c = 101 \<or> c = 69 then
            (let (neg, t) = (case cs of
                               [] \<Rightarrow> (False, cs)
                             | d # ds \<Rightarrow> if d = 45 then (True, ds)
                                         else if d = 43 then (False, ds) else (False, cs));
                 ed = takeWhile is_digit t
             in if ed = [] then None
                else Some ((if neg then - int (digits_val ed) else int (digits_val ed)),
                           dropWhile is_digit t))
          else Some (0, s))"

definition parse_fraction :: "jstring \<Rightarrow> (rat \<times> jstring) option" where
  "parse_fraction s =
     (case s of
        [] \<Rightarrow> Some (0, s)
      | c # cs \<Rightarrow>
          if c = 46 then
            (let fd = takeWhile is_digit cs
             in if fd = [] then None
                else Some (of_nat (digits_val fd) / 10 ^ length fd, dropWhile is_digit cs))
          else Some (0, s))"

text \<open>
  The Number of a decimal literal is the double nearest to its value, ties going to the
  even significand. \<open>binary_exponent r\<close> is $\lfloor\log_2 r\rfloor$ for a positive
  \<open>r\<close>: the difference of the bit lengths of numerator and denominator, or one less.
  A double has 53 significant bits above the exponent $-1022$ and the spacing $2^{-1074}$
  below it; a value that rounds to $2^{1024}$ or more is infinite.
\<close>

fun bit_length :: "nat \<Rightarrow> nat" where
  "bit_length n = (if n = 0 then 0 else Suc (bit_length (n div 2)))"

definition pow2 :: "int \<Rightarrow> rat" where
  "pow2 e = (if 0 \<le> e then 2 ^ nat e else 1 / 2 ^ nat (- e))"

definition binary_exponent :: "rat \<Rightarrow> int" where
  "binary_exponent r =
     (let (p, q) = quotient_of r;
          k = int (bit_length (nat p)) - int (bit_length (nat q))
      in if pow2 k \<le> r then k else k - 1)"

definition round_half_even :: "rat \<Rightarrow> int" where
  "round_half_even x =
     (let n = \<lfloor>x\<rfloor>; d = x - of_int n
      in if d < 1 / 2 then n else if 1 / 2 < d then n + 1 else if even n then n else n + 1)"

definition to_double :: "rat \<Rightarrow> jsval" where
  "to_double r =
     (if r = 0 then JNum 0
      else
        (let e = max (binary_exponent \<bar>r\<bar>) (- 1022);
             ulp = pow2 (e - 52);
             x = of_int (round_half_even (\<bar>r\<bar> / ulp)) * ulp
         in if pow2 1024 \<le> x then JInf (r < 0) else JNum (if r < 0 then - x else x)))"

definition parse_number :: "jstring \<Rightarrow> (jsval \<times> jstring) option" where
  "parse_number s =
     (let (neg, s1) = (case s of [] \<Rightarrow> (False, s) | c # cs \<Rightarrow> if c = 45 then (True, cs) else (False, s));
          ip = takeWhile is_digit s1
      in if ip = [] \<or> (1 < length ip \<and> hd ip = 48) then None
         else
           (case parse_fraction (dropWhile is_digit s1) of
              None \<Rightarrow> None
            | Some (f, s2) \<Rightarrow>
                (case parse_exponent s2 of
                   None \<Rightarrow> None
                 | Some (e, s3) \<Rightarrow>
                     Some (to_double ((if neg then - 1 else 1) * (of_nat (digits_val ip) + f) * pow10 e),
                           s3))))"

definition strip_prefix :: "jstring \<Rightarrow> jstring \<Rightarrow> jstring option" where
  "strip_prefix p s = (if take (length p) s = p then Some (drop (length p) s) else None)"

text \<open>A repeated key keeps its first position and takes the last value.\<close>

fun set_member :: "jstring \<Rightarrow> jsval \<Rightarrow> (jstring \<times> jsval) list \<Rightarrow> (jstring \<times> jsval) list" where
  "set_member k v [] = [(k, v)]"
| "set_member k v ((k', v') # ms) = (if k = k' then (k, v) # ms else (k', v') # set_member k v ms)"

definition make_object :: "(jstring \<times> jsval) list \<Rightarrow> jsval" where
  "make_object ms = JObj (foldl (\<lambda>acc (k, v). set_member k v acc) [] ms)"

function parse_value :: "jstring \<Rightarrow> (jsval \<times> jstring) option"
  and parse_elements :: "jstring \<Rightarrow> (jsval list \<times> jstring) option"
  and parse_members :: "jstring \<Rightarrow> ((jstring \<times> jsval) list \<times> jstring) option"
where
  "parse_value s =
     (case skip_ws s of
        [] \<Rightarrow> None
      | c # cs \<Rightarrow>
          if c = 123 then
            (case skip_ws cs of
               [] \<Rightarrow> None
             | d # ds \<Rightarrow>
                 if d = 125 then Some (JObj [], ds)
                 else map_option (\<lambda>(ms, r). (make_object ms, r)) (parse_members (d # ds)))
          else if c = 91 then
            (case skip_ws cs of
               [] \<Rightarrow> None
             | d # ds \<Rightarrow>
                 if d = 93 then Some (JArr [], ds)
                 else map_option (\<lambda>(vs, r). (JArr vs, r)) (parse_elements (d # ds)))
          else if c = 34 then map_option (\<lambda>(str, r). (JStr str, r)) (parse_chars cs)
          else if c = 116 then map_option (\<lambda>r. (JBool True, r)) (strip_prefix (js ''rue'') cs)
          else if c = 102 then map_option (\<lambda>r. (JBool False, r)) (strip_prefix (js ''alse'') cs)
          else if c = 110 then map_option (\<lambda>r. (JNull, r)) (strip_prefix (js ''ull'') cs)
          else parse_number (c # cs))"
| "parse_elements s =
     (case parse_value s of
        None \<Rightarrow> None
      | Some (v, r) \<Rightarrow>
          if length s < length r then None
          else
            (case skip_ws r of
               [] \<Rightarrow> None
             | c # cs \<Rightarrow>
                 if c = 93 then Some ([v], cs)
                 else if c = 44 then map_option (\<lambda>(vs, r'). (v # vs, r')) (parse_elements cs)
                 else None))"
| "parse_members s =
     (case skip_ws s of
        [] \<Rightarrow> None
      | q # qs \<Rightarrow>
          if q = 34 then
            (case parse_chars qs of
               None \<Rightarrow> None
             | Some (k, r) \<Rightarrow>
                 (case skip_ws r of
                    [] \<Rightarrow> None
                  | c # cs \<Rightarrow>
                      if c = 58 then
                        (case parse_value cs of
                           None \<Rightarrow> None
                         | Some (v, r2) \<Rightarrow>
                             if length cs < length r2 then None
                             else
                               (case skip_ws r2 of
                                  [] \<Rightarrow> None
                                | e # es \<Rightarrow>
                                    if e = 125 then Some ([(k, v)], es)
                                    else if e = 44 then
                                      map_option (\<lambda>(ms, r'). ((k, v) # ms, r')) (parse_members es)
                                    else None))
                      else None))
          else None)"
  by pat_completeness auto
termination
proof -
  have ws: "length cs < length s" if "skip_ws s = c # cs" for s c cs
    using that length_dropWhile_le [of is_ws s] by (simp add: skip_ws_def)
  have pc: "length r \<le> length s" if "parse_chars s = Some (k, r)" for s k r
    using that
  proof (induction s arbitrary: k r rule: parse_chars.induct)
    case 1
    then show ?case by simp
  next
    case (2 c cs)
    then show ?case
      by (fastforce split: if_splits list.splits option.splits)
  qed
  show ?thesis
    by (relation "measure (\<lambda>x. case x of Inl s \<Rightarrow> 2 * length s
                                   | Inr (Inl s) \<Rightarrow> 2 * length s + 1
                                   | Inr (Inr s) \<Rightarrow> 2 * length s + 1)")
       (auto dest!: ws pc)
qed

text \<open>\<^verbatim>\<open>JSON.parse\<close>: one value, with white space around it and nothing else.\<close>

definition JSON_parse :: "jstring \<Rightarrow> jsval option" where
  "JSON_parse s =
     (case parse_value s of
        None \<Rightarrow> None
      | Some (v, r) \<Rightarrow> if skip_ws r = [] then Some v else None)"

text \<open>
  \<^verbatim>\<open>JSON.stringify\<close>, without indentation. String quoting escapes the quote, the
  backslash, the control characters and lone surrogates. An integer below $2^{53}$ in
  magnitude is written in decimal digits; for any other finite number the text is that of
  \<^verbatim>\<open>Number.prototype.toString\<close>, a parameter; an infinite number is written
  \<^verbatim>\<open>null\<close>. The members of an object are written in the order of
  \<^verbatim>\<open>Object.keys\<close>: array indices first, in ascending order, then the other keys as
  they were added.
\<close>

definition hex_digit :: "nat \<Rightarrow> nat" where
  "hex_digit n = (if n < 10 then 48 + n else 87 + n)"

definition unicode_escape :: "nat \<Rightarrow> jstring" where
  "unicode_escape c =
     [92, 117, hex_digit (c div 4096), hex_digit ((c div 256) mod 16),
      hex_digit ((c div 16) mod 16), hex_digit (c mod 16)]"

fun quote_chars :: "jstring \<Rightarrow> jstring" where
  "quote_chars [] = []"
| "quote_chars (c # cs) =
     (if c = 34 then 92 # 34 # quote_chars cs
      else if c = 92 then 92 # 92 # quote_chars cs
      else if c = 8 then 92 # 98 # quote_chars cs
      else if c = 12 then 92 # 102 # quote_chars cs
      else if c = 10 then 92 # 110 # quote_chars cs
      else if c = 13 then 92 # 114 # quote_chars cs
      else if c = 9 then 92 # 116 # quote_chars cs
      else if c < 32 then unicode_escape c @ quote_chars cs
      else if 0xD800 \<le> c \<and> c < 0xDC00 then
        (case cs of
           [] \<Rightarrow> unicode_escape c
         | d # ds \<Rightarrow>
             if 0xDC00 \<le> d \<and> d < 0xE000 then c # d # quote_chars ds
             else unicode_escape c @ quote_chars cs)
      else if 0xDC00 \<le> c \<and> c < 0xE000 then unicode_escape c @ quote_chars cs
      else c # quote_chars cs)"

definition quoteJSON :: "jstring \<Rightarrow> jstring" where
  "quoteJSON s = 34 # quote_chars s @ [34]"

fun decimal :: "nat \<Rightarrow> jstring" where
  "decimal n = (if n < 10 then [48 + n] else decimal (n div 10) @ [48 + n mod 10])"

definition int_text :: "int \<Rightarrow> jstring" where
  "int_text i = (if i < 0 then 45 # decimal (nat (- i)) else decimal (nat i))"

fun join_with :: "nat \<Rightarrow> jstring list \<Rightarrow> jstring" where
  "join_with sep [] = []"
| "join_with sep [x] = x"
| "join_with sep (x # y # ys) = x @ sep # join_with sep (y # ys)"

text \<open>An object member whose value is \<^verbatim>\<open>undefined\<close> or a function is left out; in an
  array such a value is written \<^verbatim>\<open>null\<close>.\<close>

fun omitted :: "jsval \<Rightarrow> bool" where
  "omitted JUndefined = True"
| "omitted (JNative k) = True"
| "omitted v = False"

text \<open>An array index is the decimal text of a number below $2^{32} - 1$.\<close>

definition array_index :: "jstring \<Rightarrow> bool" where
  "array_index k =
     (k \<noteq> [] \<and> list_all is_digit k \<and> (length k = 1 \<or> hd k \<noteq> 48) \<and> digits_val k < 4294967295)"

definition own_members :: "(jstring \<times> 'a) list \<Rightarrow> (jstring \<times> 'a) list" where
  "own_members ms =
     sort_key (\<lambda>(k, v). digits_val k) (filter (\<lambda>(k, v). array_index k) ms)
       @ filter (\<lambda>(k, v). \<not> array_index k) ms"

definition safe_integer :: "rat \<Rightarrow> bool" where
  "safe_integer r = (of_int \<lfloor>r\<rfloor> = r \<and> \<bar>r\<bar> < 2 ^ 53)"

fun stringify :: "(rat \<Rightarrow> jstring) \<Rightarrow> jsval \<Rightarrow> jstring" where
  "stringify toString (JStr s) = quoteJSON s"
| "stringify toString (JNum r) = (if safe_integer r then int_text \<lfloor>r\<rfloor> else toString r)"
| "stringify toString (JBool b) = (if b then js ''true'' else js ''false'')"
| "stringify toString (JArr vs) = 91 # join_with 44 (map (stringify toString) vs) @ [93]"
| "stringify toString (JObj ms) =
     123 # join_with 44
             (map (\<lambda>(k, text). quoteJSON k @ 58 # text)
                (own_members (map (\<lambda>(k, v). (k, stringify toString v))
                                (filter (\<lambda>(k, v). \<not> omitted v) ms)))) @ [125]"
| "stringify toString v = js ''null''"

section \<open>Facilitator: types\<close>

datatype ErrorCode =
    INVALID_REQUEST | INVALID_SIGNATURE | INSUFFICIENT_AMOUNT | EXPIRED_PAYMENT | NONCE_USED
  | UNSUPPORTED_NETWORK | UNSUPPORTED_TOKEN | SETTLEMENT_FAILED | PAYMENT_NOT_FOUND
  | ALREADY_SETTLED | RATE_LIMIT_EXCEEDED | UNAUTHORIZED | INTERNAL_ERROR

text \<open>
  The \<^verbatim>\<open>invalidReason\<close> strings of \<^verbatim>\<open>verifyPayment\<close>, one constructor per message:
  \<^verbatim>\<open>'Version mismatch'\<close>, \<^verbatim>\<open>'Unsupported payment scheme'\<close>, \<^verbatim>\<open>'Invalid signature'\<close>,
  \<^verbatim>\<open>`Insufficient amount. Required: ${requiredAmount}, Provided: ${providedAmount}`\<close>,
  \<^verbatim>\<open>'Unsupported token'\<close>, \<^verbatim>\<open>'Payment not yet valid'\<close>, \<^verbatim>\<open>'Payment expired'\<close>.
\<close>

datatype invalid_reason =
    Version_mismatch
  | Unsupported_payment_scheme
  | Invalid_signature
  | Insufficient_amount int int
  | Unsupported_token
  | Payment_not_yet_valid
  | Payment_expired

text \<open>The messages of the \<^verbatim>\<open>AppError\<close>s the services throw, with their interpolated values.\<close>

datatype error_message =
    Invalid_payment_header_encoding
  | Verification_failed
  | Payment_verification_failed "invalid_reason option"
  | Transaction_hash_not_provided_by_agent
  | Unsupported_network jsval
  | Transaction_from_address_mismatch jsval jstring
  | Transaction_to_address_mismatch jsval "jstring option"
  | Transaction_amount_insufficient int int
  | Transaction_failed_on_source_chain
  | Settlement_failed

record AppError =
  code :: ErrorCode
  message :: error_message
  statusCode :: nat

text \<open>What a \<^verbatim>\<open>try\<close> block can catch: an \<^verbatim>\<open>AppError\<close>, or any other exception
  (a TypeError, a SyntaxError, a rejected RPC or contract call).\<close>

datatype thrown = App AppError | OtherError

text \<open>\<^verbatim>\<open>new AppError(code, message)\<close> has status 400 unless a status is given.\<close>

definition appError :: "ErrorCode \<Rightarrow> error_message \<Rightarrow> AppError" where
  "appError c m = \<lparr>code = c, message = m, statusCode = 400\<rparr>"

text \<open>A JavaScript number that is an integer or \<^verbatim>\<open>NaN\<close>, as \<^verbatim>\<open>parseInt\<close> returns.\<close>

datatype jsnumber = NaN | Number int

fun num_less :: "jsnumber \<Rightarrow> jsnumber \<Rightarrow> bool" where
  "num_less (Number a) (Number b) = (a < b)"
| "num_less x y = False"

record VerificationRequest =
  x402Version :: rat
  paymentHeader :: jstring
  paymentRequirements :: jsval

record VerificationResponse =
  isValid :: bool
  invalidReason :: "invalid_reason option"
  estimatedGas :: "jstring option"
  expiresAt :: "jsnumber option"

definition invalid :: "invalid_reason \<Rightarrow> VerificationResponse" where
  "invalid r = \<lparr>isValid = False, invalidReason = Some r, estimatedGas = None, expiresAt = None\<rparr>"

text \<open>
  What the verification service takes from its platform and collaborators: the built-ins
  \<^verbatim>\<open>BigInt\<close> (\<open>None\<close>: it throws), \<^verbatim>\<open>parseInt\<close>, \<^verbatim>\<open>String.prototype.toLowerCase\<close>
  and the conversion of a non-string value to a property key (\<open>None\<close>: it throws);
  \<^verbatim>\<open>ethers.verifyTypedData\<close> for the fixed \<^verbatim>\<open>Authorization\<close> type, given the domain,
  the authorization and the signature (\<open>None\<close>: it throws); the token manager's
  \<^verbatim>\<open>isSupportedToken\<close> (\<open>None\<close>: the call fails); and the clock,
  \<^verbatim>\<open>Math.floor(Date.now() / 1000)\<close>.
\<close>

record js_env =
  BigInt :: "jsval \<Rightarrow> int option"
  parseInt :: "jsval \<Rightarrow> jsnumber"
  toLowerCase :: "jstring \<Rightarrow> jstring"
  ToPropertyKey :: "jsval \<Rightarrow> jstring option"
  verifyTypedData :: "jsval \<Rightarrow> jsval \<Rightarrow> jsval \<Rightarrow> jstring option"
  isSupportedToken :: "jsval \<Rightarrow> bool option"
  now :: int

text \<open>\<^verbatim>\<open>v.toLowerCase()\<close>: a TypeError unless \<open>v\<close> is a string.\<close>

definition lowerCase :: "('a js_env_scheme) \<Rightarrow> jsval \<Rightarrow> jstring option" where
  "lowerCase env v = (case v of JStr s \<Rightarrow> Some (toLowerCase env s) | _ \<Rightarrow> None)"

text \<open>The key of \<^verbatim>\<open>table[v]\<close>.\<close>

definition propertyKey :: "('a js_env_scheme) \<Rightarrow> jsval \<Rightarrow> jstring option" where
  "propertyKey env v = (case v of JStr s \<Rightarrow> Some s | _ \<Rightarrow> ToPropertyKey env v)"

section \<open>VerificationService\<close>

text \<open>\<^verbatim>\<open>decodePaymentHeader\<close>: base64, UTF-8, \<^verbatim>\<open>JSON.parse\<close>; any exception becomes
  the \<^verbatim>\<open>INVALID_REQUEST\<close> error. The parsed value is returned as it is.\<close>

definition decodePaymentHeader :: "jstring \<Rightarrow> AppError + jsval" where
  "decodePaymentHeader header =
     (case JSON_parse (utf8_decode (base64_decode header)) of
        None \<Rightarrow> Inl (appError INVALID_REQUEST Invalid_payment_header_encoding)
      | Some v \<Rightarrow> Inr v)"

definition chainIds :: "(jstring \<times> jsval) list" where
  "chainIds =
     [(js ''push-chain'', JNum 42101),
      (js ''ethereum-sepolia'', JNum 11155111),
      (js ''ethereum'', JNum 1),
      (js ''base-sepolia'', JNum 84532),
      (js ''base'', JNum 8453),
      (js ''arbitrum'', JNum 42161),
      (js ''optimism'', JNum 10),
      (js ''polygon'', JNum 137)]"

text \<open>\<^verbatim>\<open>chainIds[network] || 42101\<close>.\<close>

definition getChainId :: "jstring \<Rightarrow> jsval" where
  "getChainId network =
     (let v = literalLookup chainIds network in if truthy v then v else JNum 42101)"

text \<open>\<^verbatim>\<open>requirements.extra?.domain\<close>.\<close>

definition extra_domain :: "jsval \<Rightarrow> jsval option" where
  "extra_domain requirements =
     (case getProp requirements (js ''extra'') of
        None \<Rightarrow> None
      | Some extra \<Rightarrow>
          if extra = JUndefined \<or> extra = JNull then Some JUndefined
          else getProp extra (js ''domain''))"

text \<open>The EIP-712 domain: the one the requirements carry, or else the default one for the
  payload's network and the requirements' asset.\<close>

definition signature_domain :: "('a js_env_scheme) \<Rightarrow> jsval \<Rightarrow> jsval \<Rightarrow> jsval option" where
  "signature_domain env payload requirements =
     (case extra_domain requirements of
        None \<Rightarrow> None
      | Some ed \<Rightarrow>
          if truthy ed then Some ed
          else
            (case (getProp payload (js ''network''), getProp requirements (js ''asset'')) of
               (Some network, Some asset) \<Rightarrow>
                 (case propertyKey env network of
                    None \<Rightarrow> None
                  | Some key \<Rightarrow>
                      Some (JObj [(js ''name'', JStr (js ''x402 Payment'')),
                                  (js ''version'', JStr (js ''1'')),
                                  (js ''chainId'', getChainId key),
                                  (js ''verifyingContract'', asset)]))
             | _ \<Rightarrow> None))"

text \<open>The body of \<^verbatim>\<open>verifySignature\<close>'s \<^verbatim>\<open>try\<close> block; \<open>None\<close> is an exception.\<close>

definition verifySignature_try :: "('a js_env_scheme) \<Rightarrow> jsval \<Rightarrow> jsval \<Rightarrow> bool option" where
  "verifySignature_try env payload requirements =
     (case getProp payload (js ''payload'') of
        None \<Rightarrow> None
      | Some pl \<Rightarrow>
     (case (getProp pl (js ''signature''), getProp pl (js ''authorization'')) of
        (Some signature, Some authorization) \<Rightarrow>
     (case signature_domain env payload requirements of
        None \<Rightarrow> None
      | Some domain \<Rightarrow>
     (case verifyTypedData env domain authorization signature of
        None \<Rightarrow> None
      | Some recoveredAddress \<Rightarrow>
     (case getProp authorization (js ''from'') of
        None \<Rightarrow> None
      | Some frm \<Rightarrow>
     (case lowerCase env frm of
        None \<Rightarrow> None
      | Some f \<Rightarrow> Some (toLowerCase env recoveredAddress = f)))))
      | _ \<Rightarrow> None))"

text \<open>\<^verbatim>\<open>verifySignature\<close>: the \<^verbatim>\<open>catch\<close> turns every exception into \<^verbatim>\<open>false\<close>.\<close>

definition verifySignature :: "('a js_env_scheme) \<Rightarrow> jsval \<Rightarrow> jsval \<Rightarrow> bool" where
  "verifySignature env payload requirements =
     (case verifySignature_try env payload requirements of None \<Rightarrow> False | Some b \<Rightarrow> b)"

definition nativeToken :: jstring where
  "nativeToken = js ''0x0000000000000000000000000000000000000000''"

text \<open>The checks of \<^verbatim>\<open>verifyPayment\<close> after the signature check.\<close>

definition verifyPayment_amount_token_timing ::
  "('a js_env_scheme) \<Rightarrow> jsval \<Rightarrow> jsval \<Rightarrow> thrown + VerificationResponse" where
  "verifyPayment_amount_token_timing env paymentPayload requirements =
     (case getProp paymentPayload (js ''payload'') of
        None \<Rightarrow> Inl OtherError
      | Some pl \<Rightarrow>
     (case getProp pl (js ''authorization'') of
        None \<Rightarrow> Inl OtherError
      | Some authorization \<Rightarrow>
     (case getProp requirements (js ''maxAmountRequired'') of
        None \<Rightarrow> Inl OtherError
      | Some maxAmountRequired \<Rightarrow>
     (case BigInt env maxAmountRequired of
        None \<Rightarrow> Inl OtherError
      | Some requiredAmount \<Rightarrow>
     (case getProp authorization (js ''value'') of
        None \<Rightarrow> Inl OtherError
      | Some val \<Rightarrow>
     (case BigInt env val of
        None \<Rightarrow> Inl OtherError
      | Some providedAmount \<Rightarrow>
          if providedAmount < requiredAmount then
            Inr (invalid (Insufficient_amount requiredAmount providedAmount))
          else
     (case getProp requirements (js ''asset'') of
        None \<Rightarrow> Inl OtherError
      | Some asset \<Rightarrow>
     (case (if asset = JStr nativeToken then Some True else isSupportedToken env asset) of
        None \<Rightarrow> Inl OtherError
      | Some isTokenSupported \<Rightarrow>
          if \<not> isTokenSupported then Inr (invalid Unsupported_token)
          else
     (case (getProp authorization (js ''validAfter''), getProp authorization (js ''validBefore'')) of
        (Some va, Some vb) \<Rightarrow>
          (let validAfter = parseInt env va; validBefore = parseInt env vb
           in if num_less (Number (now env)) validAfter then Inr (invalid Payment_not_yet_valid)
              else if num_less validBefore (Number (now env)) then Inr (invalid Payment_expired)
              else Inr \<lparr>isValid = True, invalidReason = None,
                        estimatedGas = Some (js ''300000''), expiresAt = Some validBefore\<rparr>)
      | _ \<Rightarrow> Inl OtherError)))))))))"

text \<open>The body of \<^verbatim>\<open>verifyPayment\<close>'s \<^verbatim>\<open>try\<close> block.\<close>

definition verifyPayment_try ::
  "('a js_env_scheme) \<Rightarrow> VerificationRequest \<Rightarrow> thrown + VerificationResponse" where
  "verifyPayment_try env request =
     (case decodePaymentHeader (paymentHeader request) of
        Inl e \<Rightarrow> Inl (App e)
      | Inr paymentPayload \<Rightarrow>
     (case getProp paymentPayload (js ''x402Version'') of
        None \<Rightarrow> Inl OtherError
      | Some version \<Rightarrow>
          if version \<noteq> JNum (x402Version request) then Inr (invalid Version_mismatch)
          else
     (case getProp paymentPayload (js ''scheme'') of
        None \<Rightarrow> Inl OtherError
      | Some scheme \<Rightarrow>
          if scheme \<noteq> JStr (js ''exact'') then Inr (invalid Unsupported_payment_scheme)
          else if \<not> verifySignature env paymentPayload (paymentRequirements request) then
            Inr (invalid Invalid_signature)
          else verifyPayment_amount_token_timing env paymentPayload (paymentRequirements request))))"

text \<open>\<^verbatim>\<open>verifyPayment\<close>: whatever the \<^verbatim>\<open>try\<close> block throws is replaced by the
  \<^verbatim>\<open>INTERNAL_ERROR\<close> error with status 500.\<close>

definition verifyPayment :: "('a js_env_scheme) \<Rightarrow> VerificationRequest \<Rightarrow> AppError + VerificationResponse" where
  "verifyPayment env request =
     (case verifyPayment_try env request of
        Inl e \<Rightarrow> Inl \<lparr>code = INTERNAL_ERROR, message = Verification_failed, statusCode = 500\<rparr>
      | Inr response \<Rightarrow> Inr response)"

section \<open>X402PaymentRegistry\<close>

type_synonym address = "160 word"
type_synonym uint256 = "256 word"
type_synonym bytes32 = "256 word"

text \<open>
  A Solidity \<^verbatim>\<open>string\<close> or \<^verbatim>\<open>bytes\<close> value is a list of bytes, here of characters.
  \<open>be_bytes n v\<close> is the big-endian encoding of \<open>v\<close> on \<open>n\<close> bytes, as
  \<^verbatim>\<open>abi.encodePacked\<close> lays out an \<^verbatim>\<open>address\<close> (20 bytes) and a \<^verbatim>\<open>uint256\<close> or
  \<^verbatim>\<open>bytes32\<close> (32 bytes).
\<close>

fun be_bytes :: "nat \<Rightarrow> nat \<Rightarrow> string" where
  "be_bytes 0 v = []"
| "be_bytes (Suc n) v = be_bytes n (v div 256) @ [char_of (v mod 256)]"

definition be_nat :: "string \<Rightarrow> nat" where
  "be_nat bs = foldl (\<lambda>a c. a * 256 + of_char c) 0 bs"

definition address_bytes :: "address \<Rightarrow> string" where
  "address_bytes a = be_bytes 20 (unat a)"

definition word_bytes :: "256 word \<Rightarrow> string" where
  "word_bytes w = be_bytes 32 (unat w)"

text \<open>\<^verbatim>\<open>bytes20(b)\<close> of a \<^verbatim>\<open>bytes\<close> value: its first 20 bytes, padded with zeros at the end.\<close>

definition bytes20 :: "string \<Rightarrow> string" where
  "bytes20 b = take 20 (b @ replicate 20 (char_of (0::nat)))"

definition address_of_bytes20 :: "string \<Rightarrow> address" where
  "address_of_bytes20 b = word_of_nat (be_nat b)"

datatype role = DEFAULT_ADMIN_ROLE | MERCHANT_ROLE | FACILITATOR_ROLE

record PaymentRequirement =
  scheme :: string
  network :: string
  maxAmountRequired :: uint256
  resource :: string
  description :: string
  mimeType :: string
  payTo :: address
  maxTimeoutSeconds :: uint256
  asset :: address
  isActive :: bool
  createdAt :: uint256
  updatedAt :: uint256

text \<open>
  Payment ids and requirement ids are \<^verbatim>\<open>keccak256\<close> digests. The digest type is a
  parameter \<open>'id\<close> with a zero (the value of an unwritten slot): \<^verbatim>\<open>bytes32\<close> on
  chain.
\<close>

record 'id PaymentRecord =
  requirementId :: 'id
  payer :: address
  originChain :: string
  originAddress :: address
  isUEA :: bool
  amount :: uint256
  timestamp :: uint256
  txHash :: bytes32
  settled :: bool

record UniversalAccountId =
  chainNamespace :: string
  chainId :: string
  owner :: string

datatype 'id event =
    RoleGranted role address address
  | MerchantRegistered address uint256
  | PaymentRequirementCreated address string uint256 address
  | PaymentRecorded 'id address address uint256 string address bool
  | PaymentSettled 'id bytes32

text \<open>A revert: a \<^verbatim>\<open>require\<close> message, the access-control error, or a failed call
  to the UEA factory.\<close>

datatype revert =
    Error string
  | AccessControlUnauthorizedAccount address role
  | CallReverted

text \<open>Storage: a mapping is total, an unwritten slot reads as zero.\<close>

record 'id registry =
  roles :: "role \<Rightarrow> address \<Rightarrow> bool"
  paymentRequirements :: "address \<Rightarrow> string \<Rightarrow> PaymentRequirement"
  paymentRecords :: "'id \<Rightarrow> 'id PaymentRecord"
  merchantPayments :: "address \<Rightarrow> 'id list"

text \<open>
  The transaction a call runs in: \<^verbatim>\<open>msg.sender\<close>, \<^verbatim>\<open>block.timestamp\<close>, the hash
  function, and the UEA factory predeployed at address \<^verbatim>\<open>0xeA\<close>, whose view function
  \<^verbatim>\<open>getOriginForUEA\<close> is a collaborator (\<open>None\<close>: the call reverts).
\<close>

record 'id chain =
  msg_sender :: address
  block_timestamp :: uint256
  keccak256 :: "string \<Rightarrow> 'id"
  getOriginForUEA :: "address \<Rightarrow> (UniversalAccountId \<times> bool) option"

definition zero_requirement :: PaymentRequirement where
  "zero_requirement =
     \<lparr>scheme = [], network = [], maxAmountRequired = 0, resource = [], description = [],
      mimeType = [], payTo = 0, maxTimeoutSeconds = 0, asset = 0, isActive = False,
      createdAt = 0, updatedAt = 0\<rparr>"

definition zero_record :: "('id::zero) PaymentRecord" where
  "zero_record =
     \<lparr>requirementId = 0, payer = 0, originChain = [], originAddress = 0, isUEA = False,
      amount = 0, timestamp = 0, txHash = 0, settled = False\<rparr>"

text \<open>The constructor grants the deployer the admin and the facilitator role.\<close>

definition deploy :: "address \<Rightarrow> ('id::zero) registry" where
  "deploy deployer =
     \<lparr>roles = (\<lambda>r a. (r = DEFAULT_ADMIN_ROLE \<or> r = FACILITATOR_ROLE) \<and> a = deployer),
      paymentRequirements = (\<lambda>m r. zero_requirement),
      paymentRecords = (\<lambda>i. zero_record),
      merchantPayments = (\<lambda>m. [])\<rparr>"

text \<open>OpenZeppelin's \<^verbatim>\<open>grantRole\<close>: the caller must hold the role's admin role, which
  is \<^verbatim>\<open>DEFAULT_ADMIN_ROLE\<close> for every role of this contract.\<close>

definition grantRole ::
  "'id chain \<Rightarrow> 'id registry \<Rightarrow> role \<Rightarrow> address \<Rightarrow> revert + ('id registry \<times> 'id event list)" where
  "grantRole ctx s r account =
     (if \<not> roles s DEFAULT_ADMIN_ROLE (msg_sender ctx) then
        Inl (AccessControlUnauthorizedAccount (msg_sender ctx) DEFAULT_ADMIN_ROLE)
      else if roles s r account then Inr (s, [])
      else Inr (s\<lparr>roles := (roles s)(r := (roles s r)(account := True))\<rparr>,
                [RoleGranted r account (msg_sender ctx)]))"

definition registerMerchant ::
  "'id chain \<Rightarrow> 'id registry \<Rightarrow> address \<Rightarrow> revert + ('id registry \<times> 'id event list)" where
  "registerMerchant ctx s merchant =
     (if \<not> roles s DEFAULT_ADMIN_ROLE (msg_sender ctx) then
        Inl (AccessControlUnauthorizedAccount (msg_sender ctx) DEFAULT_ADMIN_ROLE)
      else
        (case grantRole ctx s MERCHANT_ROLE merchant of
           Inl e \<Rightarrow> Inl e
         | Inr (s', evs) \<Rightarrow> Inr (s', evs @ [MerchantRegistered merchant (block_timestamp ctx)])))"

definition createPaymentRequirement ::
  "'id chain \<Rightarrow> 'id registry \<Rightarrow> string \<Rightarrow> string \<Rightarrow> string \<Rightarrow> uint256 \<Rightarrow> string \<Rightarrow> string \<Rightarrow>
   address \<Rightarrow> uint256 \<Rightarrow> address \<Rightarrow> revert + ('id registry \<times> 'id event list)" where
  "createPaymentRequirement ctx s resource' scheme' network' maxAmountRequired' description'
      mimeType' payTo' maxTimeoutSeconds' asset' =
     (if \<not> roles s MERCHANT_ROLE (msg_sender ctx) then
        Inl (AccessControlUnauthorizedAccount (msg_sender ctx) MERCHANT_ROLE)
      else if \<not> 0 < length resource' then Inl (Error ''Resource cannot be empty'')
      else if \<not> 0 < maxAmountRequired' then Inl (Error ''Amount must be greater than 0'')
      else if \<not> payTo' \<noteq> 0 then Inl (Error ''Invalid payTo address'')
      else
        Inr (s\<lparr>paymentRequirements :=
                 (paymentRequirements s)(msg_sender ctx :=
                   (paymentRequirements s (msg_sender ctx))(resource' :=
                     \<lparr>scheme = scheme', network = network',
                      maxAmountRequired = maxAmountRequired', resource = resource',
                      description = description', mimeType = mimeType', payTo = payTo',
                      maxTimeoutSeconds = maxTimeoutSeconds', asset = asset', isActive = True,
                      createdAt = block_timestamp ctx, updatedAt = block_timestamp ctx\<rparr>))\<rparr>,
             [PaymentRequirementCreated (msg_sender ctx) resource' maxAmountRequired' asset']))"

definition getPaymentRequirement :: "'id registry \<Rightarrow> address \<Rightarrow> string \<Rightarrow> PaymentRequirement" where
  "getPaymentRequirement s merchant resource' = paymentRequirements s merchant resource'"

text \<open>The origin attribution of \<^verbatim>\<open>recordPayment\<close>, from the factory's answer for the payer.\<close>

definition origin_of :: "UniversalAccountId \<times> bool \<Rightarrow> address \<Rightarrow> string \<times> address" where
  "origin_of answer payer' =
     (case answer of
        (originAccount, isUEA') \<Rightarrow>
          if isUEA' then
            (chainNamespace originAccount @ '':'' @ chainId originAccount,
             address_of_bytes20 (bytes20 (owner originAccount)))
          else (''push-chain'', payer'))"

text \<open>\<^verbatim>\<open>abi.encodePacked(merchant, resource, payer, amount, block.timestamp, txHash)\<close>.\<close>

definition paymentId_preimage ::
  "address \<Rightarrow> string \<Rightarrow> address \<Rightarrow> uint256 \<Rightarrow> uint256 \<Rightarrow> bytes32 \<Rightarrow> string" where
  "paymentId_preimage merchant resource' payer' amount' time txHash' =
     address_bytes merchant @ resource' @ address_bytes payer' @ word_bytes amount'
       @ word_bytes time @ word_bytes txHash'"

text \<open>
  \<^verbatim>\<open>recordPayment\<close>. The \<^verbatim>\<open>nonReentrant\<close> guard never fires: the only external call
  is the view call to the factory.
\<close>

definition recordPayment ::
  "'id chain \<Rightarrow> 'id registry \<Rightarrow> address \<Rightarrow> string \<Rightarrow> address \<Rightarrow> uint256 \<Rightarrow> bytes32 \<Rightarrow>
   revert + ('id registry \<times> 'id event list \<times> 'id)" where
  "recordPayment ctx s merchant resource' payer' amount' txHash' =
     (if \<not> roles s FACILITATOR_ROLE (msg_sender ctx) then
        Inl (AccessControlUnauthorizedAccount (msg_sender ctx) FACILITATOR_ROLE)
      else
        (let requirement = paymentRequirements s merchant resource'
         in if \<not> isActive requirement then Inl (Error ''Payment requirement not active'')
            else if \<not> maxAmountRequired requirement \<le> amount' then
              Inl (Error ''Insufficient payment amount'')
            else
              (case getOriginForUEA ctx payer' of
                 None \<Rightarrow> Inl CallReverted
               | Some answer \<Rightarrow>
                   (let (originChain', originAddress') = origin_of answer payer';
                        paymentId =
                          keccak256 ctx (paymentId_preimage merchant resource' payer' amount'
                                           (block_timestamp ctx) txHash')
                    in Inr (s\<lparr>paymentRecords :=
                                 (paymentRecords s)(paymentId :=
                                   \<lparr>requirementId =
                                      keccak256 ctx (address_bytes merchant @ resource'),
                                    payer = payer',
                                    originChain = originChain',
                                    originAddress = originAddress',
                                    isUEA = snd answer,
                                    amount = amount',
                                    timestamp = block_timestamp ctx,
                                    txHash = txHash',
                                    settled = False\<rparr>),
                               merchantPayments :=
                                 (merchantPayments s)(merchant :=
                                   merchantPayments s merchant @ [paymentId])\<rparr>,
                            [PaymentRecorded paymentId merchant payer' amount' originChain'
                               originAddress' (snd answer)],
                            paymentId)))))"

definition markPaymentSettled ::
  "'id chain \<Rightarrow> 'id registry \<Rightarrow> 'id \<Rightarrow> bytes32 \<Rightarrow> revert + ('id registry \<times> 'id event list)" where
  "markPaymentSettled ctx s paymentId settlementTxHash =
     (if \<not> roles s FACILITATOR_ROLE (msg_sender ctx) then
        Inl (AccessControlUnauthorizedAccount (msg_sender ctx) FACILITATOR_ROLE)
      else if \<not> 0 < timestamp (paymentRecords s paymentId) then Inl (Error ''Payment not found'')
      else if settled (paymentRecords s paymentId) then Inl (Error ''Payment already settled'')
      else
        Inr (s\<lparr>paymentRecords :=
                 (paymentRecords s)(paymentId := (paymentRecords s paymentId)\<lparr>settled := True\<rparr>)\<rparr>,
             [PaymentSettled paymentId settlementTxHash]))"

definition getMerchantPayments :: "'id registry \<Rightarrow> address \<Rightarrow> 'id list" where
  "getMerchantPayments s merchant = merchantPayments s merchant"

definition getPaymentRecord :: "'id registry \<Rightarrow> 'id \<Rightarrow> 'id PaymentRecord" where
  "getPaymentRecord s paymentId = paymentRecords s paymentId"

section \<open>ContractService and SettlementService\<close>

text \<open>What \<^verbatim>\<open>Promise.race([call, timeoutPromise])\<close> settles to: the ten-second timer
  fired first, the call rejected, or the call resolved.\<close>

datatype 'a race = TimedOut | Rejected | Resolved 'a

text \<open>The fields \<^verbatim>\<open>verifyTransaction\<close> reads of an ethers receipt and transaction
  (\<^verbatim>\<open>receipt.status\<close>, \<^verbatim>\<open>tx.from\<close>, \<^verbatim>\<open>tx.to\<close>, \<^verbatim>\<open>tx.value\<close>).\<close>

record TransactionReceipt =
  status :: "int option"

record TransactionResponse =
  tx_from :: jstring
  tx_to :: "jstring option"
  tx_value :: int

record SettlementRequest = VerificationRequest +
  paymentId :: jstring

record 'id SettlementResponse =
  success :: bool
  error :: "jstring option"
  settlementTxHash :: "jstring option"
  networkId :: jsval
  responseTimestamp :: int
  registryTxHash :: "'id option"

text \<open>
  What the settlement service takes besides: the configured Push Chain RPC URL
  (\<^verbatim>\<open>config.pushChain.rpc\<close>); the outcome of the two raced RPC reads for a URL and a
  transaction hash (\<open>Resolved None\<close> is \<^verbatim>\<open>null\<close>, no such transaction); ethers'
  encoding of a call's arguments as \<^verbatim>\<open>address\<close>, \<^verbatim>\<open>string\<close> and \<^verbatim>\<open>bytes32\<close>
  (\<open>None\<close>: it throws); the registry transaction the facilitator's wallet sends
  (its sender, its block); the hash of the receipt of the settling transaction; and
  \<^verbatim>\<open>Date.now()\<close>. The registry's node is assumed to mine what the wallet sends; a call
  that reverts is rejected.
\<close>

record 'id settle_env = js_env +
  pushChainRpc :: jstring
  getTransactionReceipt :: "jstring \<Rightarrow> jsval \<Rightarrow> TransactionReceipt option race"
  getTransaction :: "jstring \<Rightarrow> jsval \<Rightarrow> TransactionResponse option race"
  toAddress :: "jsval \<Rightarrow> address option"
  toUtf8Bytes :: "jsval \<Rightarrow> string option"
  toBytes32 :: "jsval \<Rightarrow> bytes32 option"
  registryTx :: "'id chain"
  receiptHash :: jstring
  DateNow :: int

definition rpcUrls :: "('id, 'a) settle_env_scheme \<Rightarrow> (jstring \<times> jsval) list" where
  "rpcUrls env =
     [(js ''push-chain'', JStr (pushChainRpc env)),
      (js ''ethereum-sepolia'', JStr (js ''https://ethereum-sepolia-rpc.publicnode.com'')),
      (js ''base-sepolia'', JStr (js ''https://sepolia.base.org''))]"

text \<open>The checks of \<^verbatim>\<open>verifyTransaction\<close> on a transaction that was found.\<close>

definition check_transaction ::
  "('id, 'a) settle_env_scheme \<Rightarrow> TransactionReceipt \<Rightarrow> TransactionResponse \<Rightarrow> jsval \<Rightarrow> jsval \<Rightarrow> int \<Rightarrow>
   thrown option" where
  "check_transaction env receipt tx expectedFrom expectedTo expectedAmount =
     (case lowerCase env expectedFrom of
        None \<Rightarrow> Some OtherError
      | Some ef \<Rightarrow>
          if toLowerCase env (tx_from tx) \<noteq> ef then
            Some (App (appError SETTLEMENT_FAILED
                         (Transaction_from_address_mismatch expectedFrom (tx_from tx))))
          else
            (case lowerCase env expectedTo of
               None \<Rightarrow> Some OtherError
             | Some et \<Rightarrow>
                 if map_option (toLowerCase env) (tx_to tx) \<noteq> Some et then
                   Some (App (appError SETTLEMENT_FAILED
                                (Transaction_to_address_mismatch expectedTo (tx_to tx))))
                 else if tx_value tx < expectedAmount then
                   Some (App (appError SETTLEMENT_FAILED
                                (Transaction_amount_insufficient expectedAmount (tx_value tx))))
                 else if status receipt \<noteq> Some 1 then
                   Some (App (appError SETTLEMENT_FAILED Transaction_failed_on_source_chain))
                 else None))"

text \<open>
  \<^verbatim>\<open>verifyTransaction\<close>; \<open>None\<close> is a normal return, \<open>Some e\<close> the exception thrown.
  The provider can only be built from a URL string. The \<^verbatim>\<open>catch\<close> returns normally on
  the timer's \<^verbatim>\<open>'RPC timeout'\<close> and rethrows everything else.
\<close>

definition verifyTransaction ::
  "('id, 'a) settle_env_scheme \<Rightarrow> jsval \<Rightarrow> jsval \<Rightarrow> jsval \<Rightarrow> jsval \<Rightarrow> int \<Rightarrow> thrown option" where
  "verifyTransaction env txHash' network' expectedFrom expectedTo expectedAmount =
     (case propertyKey env network' of
        None \<Rightarrow> Some OtherError
      | Some key \<Rightarrow>
          (let rpcUrl = literalLookup (rpcUrls env) key
           in if \<not> truthy rpcUrl then
                Some (App (appError SETTLEMENT_FAILED (Unsupported_network network')))
              else
                (case rpcUrl of
                   JStr url \<Rightarrow>
                     (case getTransactionReceipt env url txHash' of
                        TimedOut \<Rightarrow> None
                      | Rejected \<Rightarrow> Some OtherError
                      | Resolved None \<Rightarrow> None
                      | Resolved (Some receipt) \<Rightarrow>
                          (case getTransaction env url txHash' of
                             TimedOut \<Rightarrow> None
                           | Rejected \<Rightarrow> Some OtherError
                           | Resolved None \<Rightarrow> None
                           | Resolved (Some tx) \<Rightarrow>
                               check_transaction env receipt tx expectedFrom expectedTo
                                 expectedAmount))
                 | _ \<Rightarrow> Some OtherError)))"

text \<open>
  \<^verbatim>\<open>ContractService.recordPayment\<close>: encode the arguments, send the transaction, and
  read the payment id off the \<^verbatim>\<open>PaymentRecorded\<close> event of the receipt.
\<close>

definition is_PaymentRecorded :: "'id event \<Rightarrow> bool" where
  "is_PaymentRecorded e = (case e of PaymentRecorded i m p a c oa u \<Rightarrow> True | _ \<Rightarrow> False)"

definition uint256_of :: "int \<Rightarrow> uint256 option" where
  "uint256_of i = (if 0 \<le> i \<and> i < 2 ^ 256 then Some (word_of_int i) else None)"

definition ContractService_recordPayment ::
  "('id, 'a) settle_env_scheme \<Rightarrow> 'id registry \<Rightarrow> jsval \<Rightarrow> jsval \<Rightarrow> jsval \<Rightarrow> int \<Rightarrow> jsval \<Rightarrow>
   (thrown + 'id) \<times> 'id registry" where
  "ContractService_recordPayment env s merchant resource' payer' amount' txHash' =
     (case (toAddress env merchant, toUtf8Bytes env resource', toAddress env payer',
            uint256_of amount', toBytes32 env txHash') of
        (Some m, Some r, Some p, Some a, Some h) \<Rightarrow>
          (case recordPayment (registryTx env) s m r p a h of
             Inl reverted \<Rightarrow> (Inl OtherError, s)
           | Inr (s', logs, ret) \<Rightarrow>
               (case find is_PaymentRecorded logs of
                  Some (PaymentRecorded i m' p' a' c oa u) \<Rightarrow> (Inr i, s')
                | _ \<Rightarrow> (Inl OtherError, s')))
      | _ \<Rightarrow> (Inl OtherError, s))"

definition ContractService_markPaymentSettled ::
  "('id, 'a) settle_env_scheme \<Rightarrow> 'id registry \<Rightarrow> 'id \<Rightarrow> jsval \<Rightarrow> (thrown + jstring) \<times> 'id registry" where
  "ContractService_markPaymentSettled env s paymentId' settlementTxHash' =
     (case toBytes32 env settlementTxHash' of
        None \<Rightarrow> (Inl OtherError, s)
      | Some h \<Rightarrow>
          (case markPaymentSettled (registryTx env) s paymentId' h of
             Inl reverted \<Rightarrow> (Inl OtherError, s)
           | Inr (s', logs) \<Rightarrow> (Inr (receiptHash env), s')))"

text \<open>
  \<^verbatim>\<open>settlePayment\<close> after verification has passed, first part: decode the header again,
  read merchant, resource, payer, amount and network, require the transaction hash, and
  confirm the transaction. Nothing is written yet. The result is what the second part
  needs: merchant, resource, payer, amount, transaction hash, network.
\<close>

definition settle_reads ::
  "('id, 'a) settle_env_scheme \<Rightarrow> 'b SettlementRequest_scheme \<Rightarrow>
   thrown + (jsval \<times> jsval \<times> jsval \<times> int \<times> jsval \<times> jsval)" where
  "settle_reads env request =
     (case JSON_parse (utf8_decode (base64_decode (paymentHeader request))) of
        None \<Rightarrow> Inl OtherError
      | Some payload \<Rightarrow>
     (case getProp payload (js ''payload'') of
        None \<Rightarrow> Inl OtherError
      | Some pl \<Rightarrow>
     (case (getProp pl (js ''authorization''), getProp pl (js ''txHash''),
            getProp (VerificationRequest.paymentRequirements request) (js ''payTo''),
            getProp (VerificationRequest.paymentRequirements request) (js ''resource'')) of
        (Some authorization, Some txHash', Some merchant, Some resource') \<Rightarrow>
     (case getProp authorization (js ''from'') of
        None \<Rightarrow> Inl OtherError
      | Some payer' \<Rightarrow>
     (case getProp authorization (js ''value'') of
        None \<Rightarrow> Inl OtherError
      | Some val \<Rightarrow>
     (case BigInt env val of
        None \<Rightarrow> Inl OtherError
      | Some amount' \<Rightarrow>
     (case getProp payload (js ''network'') of
        None \<Rightarrow> Inl OtherError
      | Some network' \<Rightarrow>
          if \<not> truthy txHash' then
            Inl (App (appError SETTLEMENT_FAILED Transaction_hash_not_provided_by_agent))
          else
            (case verifyTransaction env txHash' network' payer' merchant amount' of
               Some e \<Rightarrow> Inl e
             | None \<Rightarrow> Inr (merchant, resource', payer', amount', txHash', network'))))))
      | _ \<Rightarrow> Inl OtherError)))"

text \<open>Second part: record the payment in the registry, mark it settled, and answer.\<close>

definition settle_writes ::
  "('id, 'a) settle_env_scheme \<Rightarrow> 'id registry \<Rightarrow>
   jsval \<times> jsval \<times> jsval \<times> int \<times> jsval \<times> jsval \<Rightarrow>
   (thrown + 'id SettlementResponse) \<times> 'id registry" where
  "settle_writes env s args =
     (case args of
        (merchant, resource', payer', amount', txHash', network') \<Rightarrow>
     (case ContractService_recordPayment env s merchant resource' payer' amount' txHash' of
        (Inl e, s1) \<Rightarrow> (Inl e, s1)
      | (Inr paymentId', s1) \<Rightarrow>
     (case ContractService_markPaymentSettled env s1 paymentId' txHash' of
        (Inl e, s2) \<Rightarrow> (Inl e, s2)
      | (Inr hash, s2) \<Rightarrow>
          (Inr \<lparr>success = True, error = None, settlementTxHash = Some hash,
                networkId = network', responseTimestamp = DateNow env,
                registryTxHash = Some paymentId'\<rparr>, s2))))"

definition settle_verified ::
  "('id, 'a) settle_env_scheme \<Rightarrow> 'id registry \<Rightarrow> 'b SettlementRequest_scheme \<Rightarrow>
   (thrown + 'id SettlementResponse) \<times> 'id registry" where
  "settle_verified env s request =
     (case settle_reads env request of
        Inl e \<Rightarrow> (Inl e, s)
      | Inr args \<Rightarrow> settle_writes env s args)"

text \<open>The \<^verbatim>\<open>try\<close> block of \<^verbatim>\<open>settlePayment\<close>.\<close>

definition settlePayment_try ::
  "('id, 'a) settle_env_scheme \<Rightarrow> 'id registry \<Rightarrow> 'b SettlementRequest_scheme \<Rightarrow>
   (thrown + 'id SettlementResponse) \<times> 'id registry" where
  "settlePayment_try env s request =
     (case verifyPayment env
             \<lparr>x402Version = x402Version request,
              paymentHeader = paymentHeader request,
              paymentRequirements = VerificationRequest.paymentRequirements request\<rparr> of
        Inl e \<Rightarrow> (Inl (App e), s)
      | Inr verification \<Rightarrow>
          if \<not> isValid verification then
            (Inl (App (appError INVALID_SIGNATURE
                         (Payment_verification_failed (invalidReason verification)))), s)
          else settle_verified env s request)"

text \<open>The \<^verbatim>\<open>catch\<close> block of \<^verbatim>\<open>settlePayment\<close>: an \<^verbatim>\<open>AppError\<close> is rethrown,
  anything else becomes the \<^verbatim>\<open>SETTLEMENT_FAILED\<close> error with status 500.\<close>

definition settlePayment_catch :: "(thrown + 'r) \<times> 's \<Rightarrow> (AppError + 'r) \<times> 's" where
  "settlePayment_catch outcome =
     (case outcome of
        (Inl (App e), s') \<Rightarrow> (Inl e, s')
      | (Inl OtherError, s') \<Rightarrow>
          (Inl \<lparr>code = SETTLEMENT_FAILED, message = Settlement_failed, statusCode = 500\<rparr>, s')
      | (Inr response, s') \<Rightarrow> (Inr response, s'))"

text \<open>\<^verbatim>\<open>settlePayment\<close>. The result comes with the registry's state after the call.\<close>

definition settlePayment ::
  "('id, 'a) settle_env_scheme \<Rightarrow> 'id registry \<Rightarrow> 'b SettlementRequest_scheme \<Rightarrow>
   (AppError + 'id SettlementResponse) \<times> 'id registry" where
  "settlePayment env s request = settlePayment_catch (settlePayment_try env s request)"

section \<open>X402Client: the payment header\<close>

text \<open>The payload object \<^verbatim>\<open>createPayment\<close> builds from the network of the
  requirements, the signature and the authorization.\<close>

definition paymentPayload :: "jsval \<Rightarrow> jsval \<Rightarrow> jsval \<Rightarrow> jsval" where
  "paymentPayload network' signature authorization =
     JObj [(js ''x402Version'', JNum 1),
           (js ''scheme'', JStr (js ''exact'')),
           (js ''network'', network'),
           (js ''payload'', JObj [(js ''signature'', signature),
                                 (js ''authorization'', authorization)])]"

text \<open>The authorization object \<^verbatim>\<open>generateAuthorization\<close> returns: the signer's
  address, the requirement's \<^verbatim>\<open>payTo\<close>, the amount, the two bounds of the validity
  window as decimal strings, and a random nonce.\<close>

definition generatedAuthorization ::
  "jsval \<Rightarrow> jsval \<Rightarrow> jsval \<Rightarrow> jsval \<Rightarrow> jsval \<Rightarrow> jsval \<Rightarrow> jsval" where
  "generatedAuthorization from' to' value' validAfter validBefore nonce =
     JObj [(js ''from'', from'), (js ''to'', to'), (js ''value'', value'),
           (js ''validAfter'', validAfter), (js ''validBefore'', validBefore),
           (js ''nonce'', nonce)]"

text \<open>\<^verbatim>\<open>Buffer.from(JSON.stringify(paymentPayload)).toString('base64')\<close>.\<close>

definition encodePaymentHeader :: "(rat \<Rightarrow> jstring) \<Rightarrow> jsval \<Rightarrow> jstring" where
  "encodePaymentHeader toString payload = base64_encode (utf8_encode (stringify toString payload))"

text \<open>The demo agent (\<^verbatim>\<open>demo-ai-agent/agent.ts\<close>, \<^verbatim>\<open>createPayment\<close>) puts the hash of
  the transfer it has made next to the signature and the authorization.\<close>

definition agentPaymentPayload :: "jsval \<Rightarrow> jsval \<Rightarrow> jsval \<Rightarrow> jsval \<Rightarrow> jsval" where
  "agentPaymentPayload network' signature authorization txHash' =
     JObj [(js ''x402Version'', JNum 1),
           (js ''scheme'', JStr (js ''exact'')),
           (js ''network'', network'),
           (js ''payload'', JObj [(js ''signature'', signature),
                                 (js ''authorization'', authorization),
                                 (js ''txHash'', txHash')])]"

section \<open>Notions used in the statements\<close>

text \<open>
  A JavaScript string is any sequence of 16-bit code units. The values that
  \<^verbatim>\<open>JSON.stringify\<close> and \<^verbatim>\<open>JSON.parse\<close> carry back and forth unchanged, \<open>plain\<close>
  ones: strings, integers below $2^{53}$ in magnitude, booleans, \<^verbatim>\<open>null\<close>, and arrays
  and objects of those, an object's keys being distinct and none of them an array index
  (so that the members are enumerated in the order they are listed).
\<close>

definition ascii :: "jstring \<Rightarrow> bool" where
  "ascii s = list_all (\<lambda>c. c < 128) s"

definition utf16 :: "jstring \<Rightarrow> bool" where
  "utf16 s = list_all (\<lambda>c. c < 65536) s"

fun plain :: "jsval \<Rightarrow> bool" where
  "plain (JStr s) = utf16 s"
| "plain (JNum r) = safe_integer r"
| "plain (JBool b) = True"
| "plain JNull = True"
| "plain (JArr vs) = list_all plain vs"
| "plain (JObj ms) =
     (distinct (map fst ms) \<and> list_all (\<lambda>(k, v). utf16 k \<and> \<not> array_index k \<and> plain v) ms)"
| "plain v = False"

text \<open>
  A text in well-formed UTF-16: every surrogate is half of a pair. This is what UTF-8 can
  carry.
\<close>

fun wellformed16 :: "jstring \<Rightarrow> bool" where
  "wellformed16 [] = True"
| "wellformed16 (c # cs) =
     (if 0xD800 \<le> c \<and> c < 0xDC00 then
        (case cs of [] \<Rightarrow> False | d # ds \<Rightarrow> 0xDC00 \<le> d \<and> d < 0xE000 \<and> wellformed16 ds)
      else c < 0x10000 \<and> \<not> (0xDC00 \<le> c \<and> c < 0xE000) \<and> wellformed16 cs)"

text \<open>What may follow a value inside a JSON text: nothing, a comma, or a closing bracket.\<close>

definition delimited :: "jstring \<Rightarrow> bool" where
  "delimited rest = (case rest of [] \<Rightarrow> True | c # cs \<Rightarrow> c = 44 \<or> c = 93 \<or> c = 125)"

text \<open>A text that begins with the first character of a value.\<close>

definition value_start :: "jstring \<Rightarrow> bool" where
  "value_start s = (case s of [] \<Rightarrow> False | c # cs \<Rightarrow> \<not> is_ws c \<and> c \<noteq> 93 \<and> c \<noteq> 125)"

text \<open>The parser reads back the text of \<open>v\<close>, whatever delimited text follows it.\<close>

definition roundtrips :: "(rat \<Rightarrow> jstring) \<Rightarrow> jsval \<Rightarrow> bool" where
  "roundtrips toString v =
     (\<forall>rest. delimited rest \<longrightarrow> parse_value (stringify toString v @ rest) = Some (v, rest))"

text \<open>
  The verification pipeline as the specification words it: a list of checks, each with
  the reason it fails with; the verdict is the reason of the first check that does not
  hold.
\<close>

definition first_failure :: "(bool \<times> 'r) list \<Rightarrow> 'r option" where
  "first_failure checks = map_option snd (find (\<lambda>(ok, r). \<not> ok) checks)"

text \<open>The response of \<^verbatim>\<open>verifyPayment\<close> when every check has passed.\<close>

definition accepted :: "jsnumber \<Rightarrow> VerificationResponse" where
  "accepted validBefore =
     \<lparr>isValid = True, invalidReason = None, estimatedGas = Some (js ''300000''),
      expiresAt = Some validBefore\<rparr>"






text \<open>The proof of transfer a payment header carries: the \<^verbatim>\<open>txHash\<close> member of its
  payload, \<^verbatim>\<open>undefined\<close> when there is none to read.\<close>

definition transfer_proof :: "jstring \<Rightarrow> jsval" where
  "transfer_proof header =
     (case decodePaymentHeader header of
        Inl e \<Rightarrow> JUndefined
      | Inr pp \<Rightarrow>
          (case getProp pp (js ''payload'') of
             None \<Rightarrow> JUndefined
           | Some pl \<Rightarrow> (case getProp pl (js ''txHash'') of None \<Rightarrow> JUndefined | Some h \<Rightarrow> h)))"

text \<open>The verification request \<^verbatim>\<open>settlePayment\<close> makes of a settlement request.\<close>

definition verification_of :: "'b SettlementRequest_scheme \<Rightarrow> VerificationRequest" where
  "verification_of request =
     \<lparr>x402Version = x402Version request, paymentHeader = paymentHeader request,
      paymentRequirements = VerificationRequest.paymentRequirements request\<rparr>"

text \<open>
  The four conditions under which a retrieved transfer is consistent with the payment,
  each with the message \<^verbatim>\<open>verifyTransaction\<close> rejects it with: the sender is the
  authorization's \<^verbatim>\<open>from\<close>, the recipient is the requirement's \<^verbatim>\<open>payTo\<close> (addresses
  compared in lower case), the value is at least the authorized one, and the receipt's
  status is 1.
\<close>

definition transfer_checks ::
  "(jstring \<Rightarrow> jstring) \<Rightarrow> TransactionReceipt \<Rightarrow> TransactionResponse \<Rightarrow> jstring \<Rightarrow> jstring \<Rightarrow> int \<Rightarrow>
   (bool \<times> error_message) list" where
  "transfer_checks lower receipt tx payer' merchant amount' =
     [(lower (tx_from tx) = lower payer',
       Transaction_from_address_mismatch (JStr payer') (tx_from tx)),
      (map_option lower (tx_to tx) = Some (lower merchant),
       Transaction_to_address_mismatch (JStr merchant) (tx_to tx)),
      (amount' \<le> tx_value tx, Transaction_amount_insufficient amount' (tx_value tx)),
      (status receipt = Some 1, Transaction_failed_on_source_chain)]"

text \<open>
  The transfer is left unconfirmed: the receipt, or else the transaction, is not
  retrieved, because the node knows no such transaction (\<^verbatim>\<open>null\<close>) or because the
  ten-second timer fires first.
\<close>

definition unconfirmed ::
  "TransactionReceipt option race \<Rightarrow> TransactionResponse option race \<Rightarrow> bool" where
  "unconfirmed receipt details =
     (case receipt of
        TimedOut \<Rightarrow> True
      | Resolved None \<Rightarrow> True
      | Resolved (Some rc) \<Rightarrow> details = TimedOut \<or> details = Resolved None
      | Rejected \<Rightarrow> False)"

text \<open>
  The environment in which a read that times out is answered by \<^verbatim>\<open>null\<close> instead, as
  for a transaction the node does not know; every other answer is as before.
\<close>

definition as_not_found :: "'a option race \<Rightarrow> 'a option race" where
  "as_not_found answer = (case answer of TimedOut \<Rightarrow> Resolved None | _ \<Rightarrow> answer)"

definition timeouts_as_not_found ::
  "('id, 'a) settle_env_scheme \<Rightarrow> ('id, 'a) settle_env_scheme" where
  "timeouts_as_not_found env =
     env\<lparr>getTransactionReceipt := (\<lambda>url h. as_not_found (getTransactionReceipt env url h)),
         getTransaction := (\<lambda>url h. as_not_found (getTransaction env url h))\<rparr>"

text \<open>The confirmation times out: the timer fires before the receipt arrives, or the
  receipt is retrieved and the timer fires before the transaction arrives.\<close>

definition timed_out ::
  "TransactionReceipt option race \<Rightarrow> TransactionResponse option race \<Rightarrow> bool" where
  "timed_out receipt details =
     (case receipt of
        TimedOut \<Rightarrow> True
      | Resolved (Some rc) \<Rightarrow> details = TimedOut
      | _ \<Rightarrow> False)"

section \<open>An example environment\<close>

text \<open>
  Concrete built-ins and collaborators, for evaluating the services on examples. They
  agree with the platform on the inputs of the examples: decimal digit strings for
  \<^verbatim>\<open>BigInt\<close> and \<^verbatim>\<open>parseInt\<close>, ASCII text for \<^verbatim>\<open>toLowerCase\<close> and for UTF-8,
  \<^verbatim>\<open>0x\<close>-prefixed hexadecimal text of the right length for addresses and
  \<^verbatim>\<open>bytes32\<close> values.
\<close>

definition ascii_lower :: "jstring \<Rightarrow> jstring" where
  "ascii_lower s = map (\<lambda>c. if 65 \<le> c \<and> c \<le> 90 then c + 32 else c) s"

definition decimal_BigInt :: "jsval \<Rightarrow> int option" where
  "decimal_BigInt v =
     (case v of
        JStr s \<Rightarrow> if s \<noteq> [] \<and> list_all is_digit s then Some (int (digits_val s)) else None
      | _ \<Rightarrow> None)"

definition decimal_parseInt :: "jsval \<Rightarrow> jsnumber" where
  "decimal_parseInt v =
     (case v of
        JStr s \<Rightarrow>
          if takeWhile is_digit s \<noteq> [] then Number (int (digits_val (takeWhile is_digit s)))
          else NaN
      | _ \<Rightarrow> NaN)"

definition hex_nat :: "jstring \<Rightarrow> nat option" where
  "hex_nat s =
     foldl (\<lambda>a c. case (a, hex_val c) of (Some n, Some d) \<Rightarrow> Some (n * 16 + d) | _ \<Rightarrow> None)
       (Some 0) s"

definition hex_word :: "nat \<Rightarrow> jsval \<Rightarrow> ('a::len) word option" where
  "hex_word n v =
     (case v of
        JStr (a # b # hs) \<Rightarrow>
          if a = 48 \<and> b = 120 \<and> length hs = n then map_option word_of_nat (hex_nat hs) else None
      | _ \<Rightarrow> None)"

definition ascii_bytes :: "jsval \<Rightarrow> string option" where
  "ascii_bytes v =
     (case v of JStr s \<Rightarrow> if ascii s then Some (map char_of s) else None | _ \<Rightarrow> None)"

text \<open>
  A signature check that accepts the one signature \<^verbatim>\<open>0x5167\<close>, as a signature by the
  authorization's own \<^verbatim>\<open>from\<close> address over whatever the authorization says, and
  throws on every other signature.
\<close>

definition signed_by_from :: "jsval \<Rightarrow> jsval \<Rightarrow> jsval \<Rightarrow> jstring option" where
  "signed_by_from domain authorization signature =
     (if signature = JStr (js ''0x5167'') then
        (case getProp authorization (js ''from'') of Some (JStr f) \<Rightarrow> Some f | _ \<Rightarrow> None)
      else None)"

text \<open>A collision-free stand-in for \<^verbatim>\<open>keccak256\<close>: the bytes themselves, read as a
  number behind a leading 1.\<close>

definition ideal_hash :: "string \<Rightarrow> nat" where
  "ideal_hash bs = be_nat (CHR 0x01 # bs)"

text \<open>The clock reads 1700000000; no token is registered with the token manager.\<close>

definition example_env :: js_env where
  "example_env =
     \<lparr>BigInt = decimal_BigInt, parseInt = decimal_parseInt, toLowerCase = ascii_lower,
      ToPropertyKey = (\<lambda>v. None), verifyTypedData = signed_by_from,
      isSupportedToken = (\<lambda>v. Some False), now = 1700000000\<rparr>"

text \<open>
  The requirement of the specification's scenarios: 1000000 units of the native asset,
  payable to \<^verbatim>\<open>0x...aa\<close>; and an authorization by \<^verbatim>\<open>0x...bb\<close>, with its recipient,
  its value and the end of its validity window left open.
\<close>

definition example_requirements :: jsval where
  "example_requirements =
     JObj [(js ''scheme'', JStr (js ''exact'')),
           (js ''network'', JStr (js ''push-chain'')),
           (js ''maxAmountRequired'', JStr (js ''1000000'')),
           (js ''resource'', JStr (js ''/api/premium'')),
           (js ''description'', JStr (js ''Premium API Access'')),
           (js ''mimeType'', JStr (js ''application/json'')),
           (js ''payTo'', JStr (js ''0x00000000000000000000000000000000000000aa'')),
           (js ''maxTimeoutSeconds'', JNum 3600),
           (js ''asset'', JStr nativeToken)]"

definition example_authorization :: "string \<Rightarrow> string \<Rightarrow> string \<Rightarrow> jsval" where
  "example_authorization recipient val validBefore =
     JObj [(js ''from'', JStr (js ''0x00000000000000000000000000000000000000bb'')),
           (js ''to'', JStr (js recipient)),
           (js ''value'', JStr (js val)),
           (js ''validAfter'', JStr (js ''1699999990'')),
           (js ''validBefore'', JStr (js validBefore)),
           (js ''nonce'', JStr (js ''0x01''))]"

text \<open>The examples serialise no number but the version 1, so
  \<^verbatim>\<open>Number.prototype.toString\<close> is never consulted; it is given as the decimal text of
  the integer part.\<close>

definition example_toString :: "rat \<Rightarrow> jstring" where
  "example_toString r = int_text \<lfloor>r\<rfloor>"

definition example_request :: "jsval \<Rightarrow> VerificationRequest" where
  "example_request payload =
     \<lparr>x402Version = 1, paymentHeader = encodePaymentHeader example_toString payload,
      paymentRequirements = example_requirements\<rparr>"

definition example_payload :: "string \<Rightarrow> string \<Rightarrow> string \<Rightarrow> jsval" where
  "example_payload recipient val validBefore =
     paymentPayload (JStr (js ''push-chain'')) (JStr (js ''0x5167''))
       (example_authorization recipient val validBefore)"


text \<open>
  A registry on which the administrator \<^verbatim>\<open>0x01\<close> has registered the merchant
  \<^verbatim>\<open>0x...aa\<close> and made \<^verbatim>\<open>0x03\<close> a facilitator, and the merchant has created the
  requirement above. \<open>state_after\<close> reads the state a successful call leaves.
\<close>

definition example_chain ::
  "address \<Rightarrow> uint256 \<Rightarrow> (address \<Rightarrow> (UniversalAccountId \<times> bool) option) \<Rightarrow> nat chain" where
  "example_chain sender time factory =
     \<lparr>msg_sender = sender, block_timestamp = time, keccak256 = ideal_hash,
      getOriginForUEA = factory\<rparr>"

definition native_origin :: "address \<Rightarrow> (UniversalAccountId \<times> bool) option" where
  "native_origin a = Some (\<lparr>chainNamespace = [], chainId = [], owner = []\<rparr>, False)"

definition sepolia_origin :: "address \<Rightarrow> (UniversalAccountId \<times> bool) option" where
  "sepolia_origin a =
     Some (\<lparr>chainNamespace = ''eip155'', chainId = ''11155111'', owner = address_bytes 0xDDD\<rparr>, True)"

definition state_after :: "revert + ('s \<times> 'e) \<Rightarrow> 's" where
  "state_after r = fst (projr r)"

definition example_registry :: "nat registry" where
  "example_registry =
     state_after
       (createPaymentRequirement (example_chain 0xAA 1699990000 native_origin)
          (state_after
             (grantRole (example_chain 1 1699990000 native_origin)
                (state_after (registerMerchant (example_chain 1 1699990000 native_origin) (deploy 1) 0xAA))
                FACILITATOR_ROLE 3))
          ''/api/premium'' ''exact'' ''push-chain'' 1000000 ''Premium API Access''
          ''application/json'' 0xAA 3600 0)"

text \<open>
  The settlement service's environment: the facilitator's wallet is \<^verbatim>\<open>0x03\<close>; the two
  RPC reads, the block time of the registry transaction and the UEA factory are left
  open.
\<close>

definition example_settle_env ::
  "(jstring \<Rightarrow> jsval \<Rightarrow> TransactionReceipt option race) \<Rightarrow>
   (jstring \<Rightarrow> jsval \<Rightarrow> TransactionResponse option race) \<Rightarrow> uint256 \<Rightarrow> nat settle_env" where
  "example_settle_env receipts transactions time =
     \<lparr>BigInt = decimal_BigInt, parseInt = decimal_parseInt, toLowerCase = ascii_lower,
      ToPropertyKey = (\<lambda>v. None), verifyTypedData = signed_by_from,
      isSupportedToken = (\<lambda>v. Some False), now = 1700000000,
      pushChainRpc = js ''https://evm.rpc-testnet-donut-node1.push.org/'',
      getTransactionReceipt = receipts, getTransaction = transactions,
      toAddress = hex_word 40, toUtf8Bytes = ascii_bytes, toBytes32 = hex_word 64,
      registryTx = example_chain 3 time native_origin,
      receiptHash = js ''0x99'', DateNow = 1700000000000\<rparr>"

text \<open>The payload of the demo agent for the example authorization, with the hash of
  its transfer, and the settlement request that carries a payload.\<close>

definition example_txHash :: jsval where
  "example_txHash = JStr (js ''0x000000000000000000000000000000000000000000000000000000000000abcd'')"

definition example_agent_payload :: "jsval \<Rightarrow> jsval" where
  "example_agent_payload txHash' =
     agentPaymentPayload (JStr (js ''push-chain'')) (JStr (js ''0x5167''))
       (example_authorization ''0x00000000000000000000000000000000000000aa'' ''1000000'' ''1700003600'')
       txHash'"

definition example_settle_request :: "jsval \<Rightarrow> SettlementRequest" where
  "example_settle_request payload =
     \<lparr>x402Version = 1, paymentHeader = encodePaymentHeader example_toString payload,
      paymentRequirements = example_requirements, paymentId = []\<rparr>"


text \<open>
  Three RPC nodes: one that holds a single object, under the example hash, and answers
  \<^verbatim>\<open>null\<close> for every other hash, one that does not answer within the ten seconds, and
  one that knows no transaction at all. The receipt of a successful transaction, the
  receipt of a reverted one, and a transfer of 1000000 units by the example payer
  \<^verbatim>\<open>0x...bb\<close>.
\<close>

definition example_node :: "'a \<Rightarrow> jstring \<Rightarrow> jsval \<Rightarrow> 'a option race" where
  "example_node x url h = (if h = example_txHash then Resolved (Some x) else Resolved None)"

definition silent_node :: "jstring \<Rightarrow> jsval \<Rightarrow> 'a option race" where
  "silent_node url h = TimedOut"

definition null_node :: "jstring \<Rightarrow> jsval \<Rightarrow> 'a option race" where
  "null_node url h = Resolved None"

definition example_receipt :: TransactionReceipt where
  "example_receipt = \<lparr>status = Some 1\<rparr>"

definition failed_receipt :: TransactionReceipt where
  "failed_receipt = \<lparr>status = Some 0\<rparr>"

definition example_transfer :: "string \<Rightarrow> TransactionResponse" where
  "example_transfer recipient =
     \<lparr>tx_from = js ''0x00000000000000000000000000000000000000bb'',
      tx_to = Some (js recipient), tx_value = 1000000\<rparr>"

text \<open>
  A factory that answers with an account on Solana, where an owner is a public key of 32
  bytes. The first 20 bytes are those of the address \<^verbatim>\<open>0xDDD\<close>.
\<close>

definition solana_owner :: string where
  "solana_owner = address_bytes 0xDDD @ replicate 12 (CHR 0xFF)"

definition solana_origin :: "address \<Rightarrow> (UniversalAccountId \<times> bool) option" where
  "solana_origin a =
     Some (\<lparr>chainNamespace = ''solana'', chainId = ''devnet'', owner = solana_owner\<rparr>, True)"

text \<open>The id the registry gives the example payment when it is recorded at block time
  \<open>t\<close> with transaction hash \<open>h\<close>, and the record it stores for a native payer.\<close>

definition example_paymentId :: "uint256 \<Rightarrow> bytes32 \<Rightarrow> nat" where
  "example_paymentId t h = ideal_hash (paymentId_preimage 0xAA ''/api/premium'' 0xBB 1000000 t h)"

definition example_record :: "uint256 \<Rightarrow> bytes32 \<Rightarrow> bool \<Rightarrow> nat PaymentRecord" where
  "example_record t h done =
     \<lparr>requirementId = ideal_hash (address_bytes 0xAA @ ''/api/premium''),
      payer = 0xBB, originChain = ''push-chain'', originAddress = 0xBB, isUEA = False,
      amount = 1000000, timestamp = t, txHash = h, settled = done\<rparr>"

text \<open>The response of a successful settlement of the example payment.\<close>

definition example_response :: "uint256 \<Rightarrow> nat SettlementResponse" where
  "example_response t =
     \<lparr>success = True, error = None, settlementTxHash = Some (js ''0x99''),
      networkId = JStr (js ''push-chain''), responseTimestamp = 1700000000000,
      registryTxHash = Some (example_paymentId t 0xABCD)\<rparr>"

text \<open>The registry after the example payment has been recorded at block time \<open>t\<close> and
  marked settled.\<close>

definition example_settled :: "nat registry \<Rightarrow> uint256 \<Rightarrow> nat registry" where
  "example_settled s t =
     s\<lparr>paymentRecords :=
         (paymentRecords s)(example_paymentId t 0xABCD := example_record t 0xABCD True),
       merchantPayments :=
         (merchantPayments s)(0xAA := merchantPayments s 0xAA @ [example_paymentId t 0xABCD])\<rparr>"

text \<open>
  Two settlement requests for the example authorization: the one the SDK client's header
  makes, which carries no transaction hash, and the one the demo agent's header makes,
  which carries the example hash.
\<close>

definition client_request :: SettlementRequest where
  "client_request =
     example_settle_request
       (example_payload ''0x00000000000000000000000000000000000000aa'' ''1000000'' ''1700003600'')"

definition agent_request :: SettlementRequest where
  "agent_request = example_settle_request (example_agent_payload example_txHash)"

text \<open>
  The example registry after each of four transactions of the facilitator, all mined in
  blocks of time 1700000000: the example payment is recorded, marked settled, recorded
  once more with the same arguments, and marked settled once more.
\<close>

definition recorded_once :: "nat registry" where
  "recorded_once =
     state_after
       (recordPayment (example_chain 3 1700000000 native_origin) example_registry
          0xAA ''/api/premium'' 0xBB 1000000 0xABCD)"

definition settled_once :: "nat registry" where
  "settled_once =
     state_after
       (markPaymentSettled (example_chain 3 1700000000 native_origin) recorded_once
          (example_paymentId 1700000000 0xABCD) 0x99)"

definition recorded_again :: "nat registry" where
  "recorded_again =
     state_after
       (recordPayment (example_chain 3 1700000000 native_origin) settled_once
          0xAA ''/api/premium'' 0xBB 1000000 0xABCD)"

definition settled_again :: "nat registry" where
  "settled_again =
     state_after
       (markPaymentSettled (example_chain 3 1700000000 native_origin) recorded_again
          (example_paymentId 1700000000 0xABCD) 0x99)"

section \<open>Lemmas\<close>

lemma b64_char_not_pad: "s < 64 \<Longrightarrow> b64_char s mod 256 \<noteq> 61"
  by (auto simp: b64_char_def)

lemma unbase64_b64_char: "s < 64 \<Longrightarrow> unbase64 (b64_char s) = Some s"
  by (auto simp: b64_char_def unbase64_def Let_def)

lemma sextet_join1:
  fixes a b :: nat
  assumes "b < 256"
  shows "a div 4 * 4 + ((a mod 4) * 16 + b div 16) div 16 = a"
proof -
  have "b div 16 < 16" using assms by simp
  then have "((a mod 4) * 16 + b div 16) div 16 = a mod 4" by simp
  then show ?thesis by simp
qed

lemma sextet_join2:
  fixes a b c :: nat
  assumes "b < 256" "c < 256"
  shows "(((a mod 4) * 16 + b div 16) mod 16) * 16 + ((b mod 16) * 4 + c div 64) div 4 = b"
proof -
  have "b div 16 < 16" using assms by simp
  then have 1: "((a mod 4) * 16 + b div 16) mod 16 = b div 16" by simp
  have "c div 64 < 4" using assms by simp
  then have 2: "((b mod 16) * 4 + c div 64) div 4 = b mod 16" by simp
  show ?thesis unfolding 1 2 by simp
qed

lemma sextet_join3:
  fixes b c :: nat
  assumes "c < 256"
  shows "(((b mod 16) * 4 + c div 64) mod 4) * 64 + c mod 64 = c"
proof -
  have "c div 64 < 4" using assms by simp
  then have 1: "((b mod 16) * 4 + c div 64) mod 4 = c div 64" by simp
  show ?thesis unfolding 1 by simp
qed

lemma sextet_lt:
  fixes a b c :: nat
  assumes "a < 256" "b < 256" "c < 256"
  shows "a div 4 < 64" "(a mod 4) * 16 + b div 16 < 64" "(b mod 16) * 4 + c div 64 < 64" "c mod 64 < 64"
proof -
  show "a div 4 < 64" using assms by simp
  have "a mod 4 < 4" "b div 16 < 16" using assms by simp_all
  then show "(a mod 4) * 16 + b div 16 < 64" by linarith
  have "b mod 16 < 16" "c div 64 < 4" using assms by simp_all
  then show "(b mod 16) * 4 + c div 64 < 64" by linarith
  show "c mod 64 < 64" by simp
qed

lemma decode_group:
  assumes "p < 64" "q < 64" "r < 64" "s < 64"
  shows "base64_decode (b64_char p # b64_char q # b64_char r # b64_char s # t) =
         (p * 4 + q div 16) # ((q mod 16) * 16 + r div 4) # ((r mod 4) * 64 + s) # base64_decode t"
  using assms
  by (simp add: base64_decode_def List.map_filter_simps b64_char_not_pad unbase64_b64_char)

lemma base64_roundtrip:
  "\<forall>b \<in> set bs. b < 256 \<Longrightarrow> base64_decode (base64_encode bs) = bs"
proof (induction bs rule: base64_encode.induct)
  case 1
  then show ?case by (simp add: base64_decode_def List.map_filter_simps)
next
  case (2 a)
  then have a: "a < 256" by simp
  have "base64_decode [b64_char (a div 4), b64_char ((a mod 4) * 16), 61, 61] = [a div 4 * 4 + ((a mod 4) * 16) div 16]"
    using sextet_lt(1,2) [of a 0 0] a
    by (simp add: base64_decode_def List.map_filter_simps b64_char_not_pad unbase64_b64_char)
  then show ?case using sextet_join1 [of 0 a] by simp
next
  case (3 a b)
  then have ab: "a < 256" "b < 256" by simp_all
  have "base64_decode [b64_char (a div 4), b64_char ((a mod 4) * 16 + b div 16), b64_char ((b mod 16) * 4), 61]
        = [a div 4 * 4 + ((a mod 4) * 16 + b div 16) div 16,
           (((a mod 4) * 16 + b div 16) mod 16) * 16 + ((b mod 16) * 4) div 4]"
    using sextet_lt(1,2,3) [of a b 0] ab
    by (simp add: base64_decode_def List.map_filter_simps b64_char_not_pad unbase64_b64_char)
  then show ?case using sextet_join1 [of b a] sextet_join2 [of b 0 a] ab by simp
next
  case (4 a b c bs)
  then have abc: "a < 256" "b < 256" "c < 256" and IH: "base64_decode (base64_encode bs) = bs" by simp_all
  show ?case
    using decode_group [OF sextet_lt [OF abc], of "base64_encode bs"] IH
      sextet_join1 [of b a] sextet_join2 [of b c a] sextet_join3 [of c b] abc
    by simp
qed

lemma wellformed16_append: "wellformed16 s \<Longrightarrow> wellformed16 t \<Longrightarrow> wellformed16 (s @ t)"
  by (induction s rule: wellformed16.induct) (auto split: list.splits if_splits)

lemma ascii_wellformed16: "ascii s \<Longrightarrow> wellformed16 s"
  by (induction s) (auto simp: ascii_def)

lemma split2:
  fixes x :: nat
  shows "x div 64 * 4096 + x mod 64 * 64 = x * 64"
proof -
  define q r where "q = x div 64" and "r = x mod 64"
  have "x = q * 64 + r" unfolding q_def r_def by simp
  then have "q * 4096 + r * 64 = x * 64" by linarith
  then show ?thesis unfolding q_def r_def .
qed

lemma split3:
  fixes c :: nat
  shows "c div 4096 * 4096 + (c div 64) mod 64 * 64 + c mod 64 = c"
proof -
  have "c div 4096 = (c div 64) div 64" by (simp add: div_mult2_eq)
  then have "c div 4096 * 4096 + (c div 64) mod 64 * 64 = (c div 64) * 64"
    using split2 [of "c div 64"] by simp
  then show ?thesis by simp
qed

lemma split4:
  fixes c :: nat
  shows "c div 262144 * 262144 + (c div 4096) mod 64 * 4096 + (c div 64) mod 64 * 64 + c mod 64 = c"
proof -
  define x q r where "x = c div 4096" and "q = x div 64" and "r = x mod 64"
  have "x = q * 64 + r" unfolding q_def r_def by simp
  then have "q * 262144 + r * 4096 = x * 4096" by linarith
  moreover have "c div 262144 = q" unfolding q_def x_def by (simp add: div_mult2_eq)
  ultimately have "c div 262144 * 262144 + (c div 4096) mod 64 * 4096 = (c div 4096) * 4096"
    unfolding r_def x_def by simp
  then show ?thesis using split3 [of c] by simp
qed

lemma utf8_decode_two:
  assumes "2 \<le> x" "x < 32" "y < 64"
  shows "utf8_decode ((0xC0 + x) # (0x80 + y) # bs) = (x * 64 + y) # utf8_decode bs"
  using assms by (simp add: cont_byte_def)

lemma utf8_decode_three:
  assumes "x < 16" "y < 64" "z < 64" "x = 0 \<Longrightarrow> 32 \<le> y" "x = 13 \<Longrightarrow> y < 32"
  shows "utf8_decode ((0xE0 + x) # (0x80 + y) # (0x80 + z) # bs)
         = (x * 4096 + y * 64 + z) # utf8_decode bs"
  using assms by (auto simp: cont_byte_def)

lemma utf8_decode_four:
  assumes "w \<le> 4" "x < 64" "y < 64" "z < 64" "w = 0 \<Longrightarrow> 16 \<le> x" "w = 4 \<Longrightarrow> x < 16"
  shows "utf8_decode ((0xF0 + w) # (0x80 + x) # (0x80 + y) # (0x80 + z) # bs)
         = code_units (w * 262144 + x * 4096 + y * 64 + z) @ utf8_decode bs"
  using assms by (auto simp: cont_byte_def)

lemma utf8_two:
  assumes "0x80 \<le> c" "c < 0x800"
  shows "utf8_decode ((0xC0 + c div 64) # (0x80 + c mod 64) # bs) = c # utf8_decode bs"
proof -
  have d: "2 \<le> c div 64" "c div 64 < 32" "c mod 64 < 64" using assms by simp_all
  show ?thesis unfolding utf8_decode_two [OF d] by simp
qed

lemma utf8_three:
  assumes "0x800 \<le> c" "c < 0x10000" "\<not> (0xD800 \<le> c \<and> c < 0xE000)"
  shows "utf8_decode ((0xE0 + c div 4096) # (0x80 + (c div 64) mod 64) # (0x80 + c mod 64) # bs)
         = c # utf8_decode bs"
proof -
  define x y z where "x = c div 4096" and "y = (c div 64) mod 64" and "z = c mod 64"
  have c: "c = x * 4096 + y * 64 + z" using split3 [of c] unfolding x_def y_def z_def by simp
  have b: "x < 16" "y < 64" "z < 64" using assms unfolding x_def y_def z_def by simp_all
  have lo: "x = 0 \<Longrightarrow> 32 \<le> y" using c assms(1) b by linarith
  have hi: "x = 13 \<Longrightarrow> y < 32" using c assms(3) b by linarith
  show ?thesis
    using utf8_decode_three [OF b lo hi, of bs] c unfolding x_def y_def z_def by simp
qed

lemma utf8_four:
  assumes "0xD800 \<le> c" "c < 0xDC00" "0xDC00 \<le> d" "d < 0xE000"
    and cp: "cp = 0x10000 + (c - 0xD800) * 1024 + (d - 0xDC00)"
  shows "utf8_decode ((0xF0 + cp div 262144) # (0x80 + (cp div 4096) mod 64)
            # (0x80 + (cp div 64) mod 64) # (0x80 + cp mod 64) # bs)
         = c # d # utf8_decode bs"
proof -
  have lo: "0x10000 \<le> cp" and hi: "cp < 0x110000" using assms by simp_all
  define w x y z where "w = cp div 262144" and "x = (cp div 4096) mod 64"
    and "y = (cp div 64) mod 64" and "z = cp mod 64"
  have e: "cp = w * 262144 + x * 4096 + y * 64 + z"
    using split4 [of cp] unfolding w_def x_def y_def z_def by simp
  have b: "w \<le> 4" "x < 64" "y < 64" "z < 64" using hi unfolding w_def x_def y_def z_def by simp_all
  have b0: "w = 0 \<Longrightarrow> 16 \<le> x" using e lo b by linarith
  have b4: "w = 4 \<Longrightarrow> x < 16" using e hi b by linarith
  have units: "code_units cp = [c, d]"
  proof -
    have "cp - 0x10000 = (c - 0xD800) * 1024 + (d - 0xDC00)" using cp by simp
    moreover have "d - 0xDC00 < 1024" using assms by simp
    ultimately have "(cp - 0x10000) div 1024 = c - 0xD800" "(cp - 0x10000) mod 1024 = d - 0xDC00"
      by simp_all
    then show ?thesis using assms lo by (simp add: code_units_def)
  qed
  show ?thesis
    using utf8_decode_four [OF b b0 b4, of bs] e units unfolding w_def x_def y_def z_def by simp
qed

lemma utf8_roundtrip: "wellformed16 s \<Longrightarrow> utf8_decode (utf8_encode s) = s"
proof (induction s rule: wellformed16.induct)
  case 1
  then show ?case by simp
next
  case (2 c cs)
  consider (one) "c < 0x80" | (two) "0x80 \<le> c" "c < 0x800"
    | (three) "0x800 \<le> c" "c < 0x10000" "\<not> (0xD800 \<le> c \<and> c < 0xE000)"
    | (four) "0xD800 \<le> c" "c < 0xDC00"
    using "2.prems" by (auto split: if_splits) linarith
  then show ?case
  proof cases
    case one
    then show ?thesis using 2 by simp
  next
    case two
    have ns: "\<not> (0xD800 \<le> c \<and> c < 0xDC00)" using two by simp
    have w: "wellformed16 cs" using "2.prems" ns by simp
    have IH: "utf8_decode (utf8_encode cs) = cs" using "2.IH"(2) ns w by simp
    have enc: "utf8_encode (c # cs) = (0xC0 + c div 64) # (0x80 + c mod 64) # utf8_encode cs"
      using two by simp
    show ?thesis unfolding enc utf8_two [OF two] IH ..
  next
    case three
    have ns: "\<not> (0xD800 \<le> c \<and> c < 0xDC00)" "\<not> (0xDC00 \<le> c \<and> c < 0xE000)"
      using three by linarith+
    have lt: "\<not> c < 0x80" "\<not> c < 0x800" using three by simp_all
    have w: "wellformed16 cs" using "2.prems" ns by simp
    have IH: "utf8_decode (utf8_encode cs) = cs" using "2.IH"(2) ns(1) w by simp
    have enc: "utf8_encode (c # cs) =
        (0xE0 + c div 4096) # (0x80 + (c div 64) mod 64) # (0x80 + c mod 64) # utf8_encode cs"
      by (subst utf8_encode.simps) (simp only: ns lt if_False)
    show ?thesis unfolding enc utf8_three [OF three] IH ..
  next
    case four
    then obtain d ds where cs: "cs = d # ds" and d: "0xDC00 \<le> d" "d < 0xE000"
      and ds: "wellformed16 ds"
      using "2.prems" by (auto split: list.splits)
    have IH: "utf8_decode (utf8_encode ds) = ds" using "2.IH"(1) four cs d ds by simp
    define cp where "cp = 0x10000 + (c - 0xD800) * 1024 + (d - 0xDC00)"
    have enc: "utf8_encode (c # d # ds) =
        (0xF0 + cp div 262144) # (0x80 + (cp div 4096) mod 64)
            # (0x80 + (cp div 64) mod 64) # (0x80 + cp mod 64) # utf8_encode ds"
      using four d by (simp add: Let_def cp_def)
    show ?thesis unfolding cs enc utf8_four [OF four d cp_def] IH ..
  qed
qed

lemma utf8_bytes: "wellformed16 s \<Longrightarrow> \<forall>b \<in> set (utf8_encode s). b < 256"
proof (induction s rule: wellformed16.induct)
  case 1
  then show ?case by simp
next
  case (2 c cs)
  have m: "x mod 64 < 128" for x :: nat using mod_less_divisor [of 64 x] by linarith
  show ?case
  proof (cases "0xD800 \<le> c \<and> c < 0xDC00")
    case True
    then obtain d ds where cs: "cs = d # ds" and d: "0xDC00 \<le> d" "d < 0xE000"
      and ds: "wellformed16 ds"
      using "2.prems" by (auto split: list.splits)
    define cp where "cp = 0x10000 + (c - 0xD800) * 1024 + (d - 0xDC00)"
    have "c - 0xD800 \<le> 1023" "d - 0xDC00 \<le> 1023" using True d by auto
    then have "cp < 0x110000" unfolding cp_def by linarith
    then have "cp div 262144 \<le> 4" by simp
    moreover have "\<forall>b \<in> set (utf8_encode ds). b < 256" using "2.IH"(1) True cs d ds by simp
    ultimately show ?thesis using True d m [of "cp div 4096"] m [of "cp div 64"] m [of cp]
      unfolding cs by (simp add: Let_def cp_def [symmetric])
  next
    case False
    then have c: "c < 0x10000" "\<not> (0xDC00 \<le> c \<and> c < 0xE000)" and w: "wellformed16 cs"
      using "2.prems" by simp_all
    have IH: "\<forall>b \<in> set (utf8_encode cs). b < 256" using "2.IH"(2) False w c by simp
    have "c div 4096 < 16" using c by simp
    moreover have "c < 0x800 \<Longrightarrow> c div 64 < 32" by simp
    ultimately show ?thesis using False c IH m [of "c div 64"] m [of c]
      by auto
  qed
qed

lemma hex_val_hex_digit: "d < 16 \<Longrightarrow> hex_val (hex_digit d) = Some d"
  by (auto simp: hex_val_def hex_digit_def)

lemma hex_recombine:
  fixes c :: nat
  shows "c div 4096 * 4096 + (c div 256) mod 16 * 256 + (c div 16) mod 16 * 16 + c mod 16 = c"
proof -
  have a: "c div 256 = c div 16 div 16" and b: "c div 4096 = c div 16 div 16 div 16"
    by (simp_all add: div_mult2_eq [symmetric])
  define x where "x = c div 16"
  define y where "y = x div 16"
  have 1: "c = x * 16 + c mod 16" unfolding x_def by simp
  have 2: "x = y * 16 + x mod 16" unfolding y_def by simp
  have 3: "y = (y div 16) * 16 + y mod 16" by simp
  have "y div 16 * 4096 + y mod 16 * 256 + x mod 16 * 16 + c mod 16 = c"
    using 1 2 3 by linarith
  then show ?thesis unfolding a b x_def y_def by simp
qed

lemma parse_chars_literal:
  "32 \<le> c \<Longrightarrow> c \<noteq> 34 \<Longrightarrow> c \<noteq> 92 \<Longrightarrow>
   parse_chars (c # t) = map_option (\<lambda>(str, r). (c # str, r)) (parse_chars t)"
  by simp

lemma parse_chars_escape:
  "simple_escape e = Some x \<Longrightarrow> e \<noteq> 117 \<Longrightarrow>
   parse_chars (92 # e # t) = map_option (\<lambda>(str, r). (x # str, r)) (parse_chars t)"
  by simp

lemma parse_chars_quote: "parse_chars (34 # t) = Some ([], t)"
  by simp

lemma parse_unicode_escape:
  assumes "c < 65536"
  shows "parse_chars (unicode_escape c @ t) = map_option (\<lambda>(str, r). (c # str, r)) (parse_chars t)"
proof -
  have "c div 4096 < 16" using assms by simp
  then have "hex4 (hex_digit (c div 4096)) (hex_digit ((c div 256) mod 16))
                  (hex_digit ((c div 16) mod 16)) (hex_digit (c mod 16)) = Some c"
    using hex_recombine [of c] by (simp add: hex4_def hex_val_hex_digit)
  then show ?thesis by (simp add: unicode_escape_def)
qed

lemma quote_chars_ctl:
  "c < 32 \<Longrightarrow> c \<notin> {8, 12, 10, 13, 9} \<Longrightarrow> quote_chars (c # cs) = unicode_escape c @ quote_chars cs"
  by auto

lemma quote_chars_lit:
  "32 \<le> c \<Longrightarrow> c \<noteq> 34 \<Longrightarrow> c \<noteq> 92 \<Longrightarrow> \<not> (0xD800 \<le> c \<and> c < 0xE000) \<Longrightarrow>
   quote_chars (c # cs) = c # quote_chars cs"
  by auto

lemma quote_chars_lo:
  "0xDC00 \<le> c \<Longrightarrow> c < 0xE000 \<Longrightarrow> quote_chars (c # cs) = unicode_escape c @ quote_chars cs"
  by auto

lemma quote_chars_hi_end:
  "0xD800 \<le> c \<Longrightarrow> c < 0xDC00 \<Longrightarrow> quote_chars [c] = unicode_escape c"
  by auto

lemma quote_chars_hi_pair:
  "0xD800 \<le> c \<Longrightarrow> c < 0xDC00 \<Longrightarrow> 0xDC00 \<le> d \<Longrightarrow> d < 0xE000 \<Longrightarrow>
   quote_chars (c # d # ds) = c # d # quote_chars ds"
  by auto

lemma quote_chars_hi_lone:
  "0xD800 \<le> c \<Longrightarrow> c < 0xDC00 \<Longrightarrow> \<not> (0xDC00 \<le> d \<and> d < 0xE000) \<Longrightarrow>
   quote_chars (c # d # ds) = unicode_escape c @ quote_chars (d # ds)"
  by auto

lemma quote_chars_esc:
  "quote_chars (34 # cs) = 92 # 34 # quote_chars cs"
  "quote_chars (92 # cs) = 92 # 92 # quote_chars cs"
  "quote_chars (8 # cs) = 92 # 98 # quote_chars cs"
  "quote_chars (12 # cs) = 92 # 102 # quote_chars cs"
  "quote_chars (10 # cs) = 92 # 110 # quote_chars cs"
  "quote_chars (13 # cs) = 92 # 114 # quote_chars cs"
  "quote_chars (9 # cs) = 92 # 116 # quote_chars cs"
  by simp_all

lemma parse_quote_chars:
  "\<forall>c \<in> set s. c < 65536 \<Longrightarrow> parse_chars (quote_chars s @ 34 # rest) = Some (s, rest)"
proof (induction s rule: length_induct)
  case (1 s)
  note IH = 1(1) and bound = 1(2)
  show ?case
  proof (cases s)
    case Nil
    then show ?thesis by (simp add: parse_chars_quote del: parse_chars.simps)
  next
    case (Cons c cs)
    have c: "c < 65536" and cs: "\<forall>x \<in> set cs. x < 65536" using bound Cons by simp_all
    have tl: "parse_chars (quote_chars cs @ 34 # rest) = Some (cs, rest)"
      using IH cs Cons by simp
    consider (esc) "c \<in> {34, 92, 8, 12, 10, 13, 9}"
      | (ctl) "c < 32" "c \<notin> {8, 12, 10, 13, 9}"
      | (hi) "0xD800 \<le> c" "c < 0xDC00"
      | (lo) "0xDC00 \<le> c" "c < 0xE000"
      | (lit) "32 \<le> c" "c \<noteq> 34" "c \<noteq> 92" "\<not> (0xD800 \<le> c \<and> c < 0xE000)"
      by fastforce
    then show ?thesis
    proof cases
      case esc
      then show ?thesis
        using tl unfolding Cons
        by (auto simp add: quote_chars_esc parse_chars_escape simple_escape_def
                 simp del: parse_chars.simps quote_chars.simps)
    next
      case ctl
      then show ?thesis
        using tl c unfolding Cons
        by (simp add: quote_chars_ctl parse_unicode_escape del: parse_chars.simps quote_chars.simps)
    next
      case hi
      show ?thesis
      proof (cases cs)
        case Nil
        then show ?thesis
          using hi c unfolding Cons
          by (simp add: quote_chars_hi_end parse_unicode_escape parse_chars_quote
                   del: parse_chars.simps quote_chars.simps)
      next
        case (Cons d ds)
        note cs_eq = Cons
        show ?thesis
        proof (cases "0xDC00 \<le> d \<and> d < 0xE000")
          case True
          have "parse_chars (quote_chars ds @ 34 # rest) = Some (ds, rest)"
            using IH cs \<open>s = c # cs\<close> cs_eq by simp
          then show ?thesis
            using hi True unfolding \<open>s = c # cs\<close> cs_eq
            by (simp add: quote_chars_hi_pair parse_chars_literal
                     del: parse_chars.simps quote_chars.simps)
        next
          case False
          then show ?thesis
            using hi tl c unfolding \<open>s = c # cs\<close> cs_eq
            by (simp add: quote_chars_hi_lone parse_unicode_escape
                     del: parse_chars.simps quote_chars.simps)
        qed
      qed
    next
      case lo
      then show ?thesis
        using tl c unfolding Cons
        by (simp add: quote_chars_lo parse_unicode_escape del: parse_chars.simps quote_chars.simps)
    next
      case lit
      then show ?thesis
        using tl unfolding Cons
        by (simp add: quote_chars_lit parse_chars_literal del: parse_chars.simps quote_chars.simps)
    qed
  qed
qed

declare decimal.simps [simp del]

lemma decimal_small: "n < 10 \<Longrightarrow> decimal n = [48 + n]"
  by (subst decimal.simps) simp

lemma decimal_large: "\<not> n < 10 \<Longrightarrow> decimal n = decimal (n div 10) @ [48 + n mod 10]"
  by (subst decimal.simps) simp

lemma digits_val_snoc: "digits_val (xs @ [d]) = digits_val xs * 10 + (d - 48)"
  by (simp add: digits_val_def)

lemma decimal_digits: "list_all is_digit (decimal n)"
proof (induction n rule: decimal.induct)
  case (1 n)
  show ?case
  proof (cases "n < 10")
    case True
    then show ?thesis by (simp add: is_digit_def decimal_small)
  next
    case False
    have "n mod 10 < 10" by simp
    then have "is_digit (48 + n mod 10)" unfolding is_digit_def by linarith
    then show ?thesis using 1 False by (simp add: decimal_large)
  qed
qed

lemma decimal_nonempty: "decimal n \<noteq> []"
  by (cases "n < 10") (simp_all add: decimal_small decimal_large)

lemma digits_val_decimal: "digits_val (decimal n) = n"
proof (induction n rule: decimal.induct)
  case (1 n)
  show ?case
  proof (cases "n < 10")
    case True
    then show ?thesis by (simp add: digits_val_def decimal_small)
  next
    case False
    then have "digits_val (decimal n) = digits_val (decimal (n div 10)) * 10 + n mod 10"
      by (simp add: digits_val_snoc decimal_large)
    then show ?thesis using 1 False by simp
  qed
qed

lemma decimal_hd: "hd (decimal n) = 48 \<Longrightarrow> n = 0"
proof (induction n rule: decimal.induct)
  case (1 n)
  show ?case
  proof (cases "n < 10")
    case True
    then show ?thesis using 1(2) by (simp add: decimal_small)
  next
    case False
    then have "hd (decimal n) = hd (decimal (n div 10))"
      by (simp add: decimal_nonempty decimal_large)
    then have "n div 10 = 0" using 1 False by simp
    then show ?thesis using False by simp
  qed
qed

lemma decimal_no_leading_zero: "\<not> (1 < length (decimal n) \<and> hd (decimal n) = 48)"
proof
  assume a: "1 < length (decimal n) \<and> hd (decimal n) = 48"
  then have "n = 0" using decimal_hd by blast
  then show False using a by (simp add: decimal_small)
qed

lemma takeWhile_digits: 
  assumes "list_all is_digit ds" "delimited rest"
  shows "takeWhile is_digit (ds @ rest) = ds" "dropWhile is_digit (ds @ rest) = rest"
proof -
  have r: "takeWhile is_digit rest = []" "dropWhile is_digit rest = rest"
    using assms(2) by (auto simp: delimited_def is_digit_def split: list.splits)
  have all: "\<forall>x \<in> set ds. is_digit x" using assms(1) by (simp add: list_all_iff)
  show "takeWhile is_digit (ds @ rest) = ds" using all r by (simp add: takeWhile_append2)
  show "dropWhile is_digit (ds @ rest) = rest" using all r by (simp add: dropWhile_append2)
qed

lemma parse_fraction_delimited: "delimited rest \<Longrightarrow> parse_fraction rest = Some (0, rest)"
  by (auto simp: parse_fraction_def delimited_def split: list.splits)

lemma parse_exponent_delimited: "delimited rest \<Longrightarrow> parse_exponent rest = Some (0, rest)"
  by (auto simp: parse_exponent_def delimited_def split: list.splits)

declare bit_length.simps [simp del]

lemma bit_length_le: "n < 2 ^ k \<Longrightarrow> bit_length n \<le> k"
proof (induction k arbitrary: n)
  case 0
  then show ?case by (simp add: bit_length.simps)
next
  case (Suc k)
  show ?case
  proof (cases "n = 0")
    case True
    then show ?thesis by (simp add: bit_length.simps)
  next
    case False
    have "n div 2 < 2 ^ k" using Suc.prems by simp
    then have "bit_length (n div 2) \<le> k" by (rule Suc.IH)
    then show ?thesis using False by (subst bit_length.simps) simp
  qed
qed

lemma bit_length_one: "bit_length (Suc 0) = 1"
  by (simp add: bit_length.simps)

lemma round_half_even_int: "round_half_even (of_int n) = n"
  by (simp add: round_half_even_def Let_def)

lemma pow2_nonpos: "e \<le> 0 \<Longrightarrow> pow2 e = 1 / 2 ^ nat (- e)"
  by (cases "e = 0") (simp_all add: pow2_def)

lemma binary_exponent_nat:
  assumes "0 < n" "n < 2 ^ 53"
  shows "binary_exponent (of_nat n) \<le> 52"
proof -
  have q: "quotient_of (of_nat n :: rat) = (int n, 1)"
    using quotient_of_int [of "int n"] by simp
  have "bit_length n \<le> 53" using assms(2) by (rule bit_length_le)
  then show ?thesis
    by (simp add: binary_exponent_def q bit_length_one Let_def)
qed

lemma to_double_pos:
  assumes "0 < n" "n < 2 ^ 53"
  shows "to_double (of_nat n) = JNum (of_nat n)" "to_double (- of_nat n) = JNum (- of_nat n)"
proof -
  define e where "e = max (binary_exponent (of_nat n)) (- 1022)"
  define m where "m = nat (52 - e)"
  have e: "e \<le> 52" using binary_exponent_nat [of n] assms by (simp add: e_def)
  then have ulp: "pow2 (e - 52) = 1 / 2 ^ m" by (simp add: pow2_nonpos m_def)
  have "(of_nat n :: rat) / (1 / 2 ^ m) = of_int (int (n * 2 ^ m))" by simp
  then have r: "round_half_even (of_nat n / (1 / 2 ^ m)) = int (n * 2 ^ m)"
    by (simp only: round_half_even_int)
  have x: "(of_int (int (n * 2 ^ m)) :: rat) * (1 / 2 ^ m) = of_nat n" by simp
  have big: "\<not> pow2 1024 \<le> (of_nat n :: rat)"
  proof -
    have "(of_nat n :: rat) < of_nat (2 ^ 53)" using assms by (simp only: of_nat_less_iff)
    also have "\<dots> \<le> 2 ^ 1024" by simp
    finally show ?thesis by (simp add: pow2_def)
  qed
  have pos: "(of_nat n :: rat) \<noteq> 0" "\<not> (of_nat n :: rat) < 0" "- (of_nat n :: rat) < 0"
    "\<bar>of_nat n :: rat\<bar> = of_nat n"
    using assms by simp_all
  show "to_double (of_nat n) = JNum (of_nat n)"
    unfolding to_double_def Let_def pos(4) e_def [symmetric] ulp r x using pos big by simp
  show "to_double (- of_nat n) = JNum (- of_nat n)"
    unfolding to_double_def Let_def abs_minus_cancel pos(4) e_def [symmetric] ulp r x
    using pos big by simp
qed

lemma to_double_nat:
  assumes "n < 2 ^ 53"
  shows "to_double (of_nat n) = JNum (of_nat n)" "to_double (- of_nat n) = JNum (- of_nat n)"
proof -
  have z: "to_double 0 = JNum 0" by (simp add: to_double_def)
  show "to_double (of_nat n) = JNum (of_nat n)"
  proof (cases "n = 0")
    case True
    then show ?thesis using z by simp
  next
    case False
    then show ?thesis using to_double_pos(1) [of n] assms by blast
  qed
  show "to_double (- of_nat n) = JNum (- of_nat n)"
  proof (cases "n = 0")
    case True
    then show ?thesis using z by simp
  next
    case False
    then show ?thesis using to_double_pos(2) [of n] assms by blast
  qed
qed

lemma to_double_int: "\<bar>i\<bar> < 2 ^ 53 \<Longrightarrow> to_double (of_int i) = JNum (of_int i)"
proof -
  assume a: "\<bar>i\<bar> < 2 ^ 53"
  show ?thesis
  proof (cases "i < 0")
    case True
    have "nat (- i) < 2 ^ 53" using a True by (simp add: nat_less_iff)
    then have "to_double (- of_nat (nat (- i))) = JNum (- of_nat (nat (- i)))"
      by (rule to_double_nat(2))
    moreover have "(of_int i :: rat) = - of_nat (nat (- i))" using True by simp
    ultimately show ?thesis by (simp only:)
  next
    case False
    have "nat i < 2 ^ 53" using a False by (simp add: nat_less_iff)
    then have "to_double (of_nat (nat i)) = JNum (of_nat (nat i))"
      by (rule to_double_nat(1))
    moreover have "(of_int i :: rat) = of_nat (nat i)" using False by simp
    ultimately show ?thesis by (simp only:)
  qed
qed

lemma parse_number_digits:
  assumes ip: "list_all is_digit ip" "ip \<noteq> []" "\<not> (1 < length ip \<and> hd ip = 48)"
    and rest: "delimited rest"
  shows "parse_number (ip @ rest) = Some (to_double (of_nat (digits_val ip)), rest)"
    and "parse_number (45 # ip @ rest) = Some (to_double (- of_nat (digits_val ip)), rest)"
proof -
  obtain d ds where dd: "ip = d # ds" using ip(2) by (cases ip) auto
  have "is_digit d" using ip(1) dd by simp
  then have d45: "d \<noteq> 45" by (simp add: is_digit_def)
  have tw: "takeWhile is_digit (ip @ rest) = ip" "dropWhile is_digit (ip @ rest) = rest"
    using takeWhile_digits [OF ip(1) rest] by simp_all
  have pf: "parse_fraction rest = Some (0, rest)" and pe: "parse_exponent rest = Some (0, rest)"
    using parse_fraction_delimited [OF rest] parse_exponent_delimited [OF rest] by simp_all
  have s1: "(case ip @ rest of [] \<Rightarrow> (False, ip @ rest)
             | c # cs \<Rightarrow> if c = 45 then (True, cs) else (False, ip @ rest)) = (False, ip @ rest)"
    using d45 by (simp add: dd)
  show "parse_number (ip @ rest) = Some (to_double (of_nat (digits_val ip)), rest)"
    unfolding parse_number_def s1 using tw ip(2,3) pf pe
    by (simp add: pow10_def)
  show "parse_number (45 # ip @ rest) = Some (to_double (- of_nat (digits_val ip)), rest)"
    unfolding parse_number_def using tw ip(2,3) pf pe
    by (simp add: pow10_def)
qed

lemma parse_number_nat:
  assumes "delimited rest"
  shows "parse_number (decimal n @ rest) = Some (to_double (of_nat n), rest)"
  using parse_number_digits(1) [OF decimal_digits decimal_nonempty decimal_no_leading_zero assms, of n]
  by (simp only: digits_val_decimal)

lemma parse_number_neg:
  assumes "delimited rest"
  shows "parse_number (45 # decimal n @ rest) = Some (to_double (- of_nat n), rest)"
  using parse_number_digits(2) [OF decimal_digits decimal_nonempty decimal_no_leading_zero assms, of n]
  by (simp only: digits_val_decimal)

lemma parse_number_int:
  assumes "delimited rest"
  shows "parse_number (int_text i @ rest) = Some (to_double (of_int i), rest)"
proof (cases "i < 0")
  case True
  then have "(of_int i :: rat) = - of_nat (nat (- i))" by simp
  then show ?thesis using True parse_number_neg [OF assms, of "nat (- i)"]
    by (simp add: int_text_def)
next
  case False
  then have "(of_int i :: rat) = of_nat (nat i)" by simp
  then show ?thesis using False parse_number_nat [OF assms, of "nat i"]
    by (simp add: int_text_def)
qed

declare parse_value.simps [simp del] parse_elements.simps [simp del] parse_members.simps [simp del]

lemma skip_ws_start: "\<not> is_ws c \<Longrightarrow> skip_ws (c # t) = c # t"
  by (simp add: skip_ws_def)

lemma strip_prefix_append: "strip_prefix p (p @ t) = Some t"
  by (simp add: strip_prefix_def)

lemma js_lits:
  "js ''true'' = 116 # js ''rue''" "js ''false'' = 102 # js ''alse''" "js ''null'' = 110 # js ''ull''"
  by (simp_all add: js_def)

lemma parse_value_true: "parse_value (js ''true'' @ rest) = Some (JBool True, rest)"
  unfolding js_lits
  by (subst parse_value.simps) (simp add: skip_ws_start is_ws_def strip_prefix_append)

lemma parse_value_false: "parse_value (js ''false'' @ rest) = Some (JBool False, rest)"
  unfolding js_lits
  by (subst parse_value.simps) (simp add: skip_ws_start is_ws_def strip_prefix_append)

lemma parse_value_null: "parse_value (js ''null'' @ rest) = Some (JNull, rest)"
  unfolding js_lits
  by (subst parse_value.simps) (simp add: skip_ws_start is_ws_def strip_prefix_append)

lemma parse_value_string:
  "\<forall>c \<in> set s. c < 65536 \<Longrightarrow> parse_value (quoteJSON s @ rest) = Some (JStr s, rest)"
  unfolding quoteJSON_def
  by (subst parse_value.simps) (simp add: skip_ws_start is_ws_def parse_quote_chars del: parse_chars.simps)

lemma decimal_start: "\<exists>d ds. decimal n = d # ds \<and> is_digit d"
  using decimal_nonempty [of n] decimal_digits [of n] by (cases "decimal n") auto

lemma parse_value_number_start:
  assumes "is_digit d \<or> d = 45"
  shows "parse_value (d # t) = parse_number (d # t)"
proof -
  have "\<not> is_ws d" "d \<noteq> 123" "d \<noteq> 91" "d \<noteq> 34" "d \<noteq> 116" "d \<noteq> 102" "d \<noteq> 110"
    using assms by (auto simp: is_digit_def is_ws_def)
  then show ?thesis by (subst parse_value.simps) (simp add: skip_ws_start)
qed

lemma int_text_start: "\<exists>d t. int_text i = d # t \<and> (is_digit d \<or> d = 45)"
  using decimal_start [of "nat i"] decimal_start [of "nat (- i)"]
  by (cases "i < 0") (auto simp: int_text_def)

lemma parse_value_int:
  assumes "delimited rest" "\<bar>i\<bar> < 2 ^ 53"
  shows "parse_value (int_text i @ rest) = Some (JNum (of_int i), rest)"
proof -
  obtain d t where dt: "int_text i = d # t" and d: "is_digit d \<or> d = 45"
    using int_text_start by blast
  have "parse_value ((d # t) @ rest) = Some (JNum (of_int i), rest)"
    using parse_value_number_start [OF d, of "t @ rest"] parse_number_int [OF assms(1), of i]
      to_double_int [OF assms(2)]
    by (simp add: dt)
  then show ?thesis by (simp add: dt)
qed

lemma value_start_stringify: "plain v \<Longrightarrow> value_start (stringify ts v)"
proof (cases v)
  case (JNum r)
  assume "plain v"
  then have "stringify ts v = int_text \<lfloor>r\<rfloor>" using JNum by simp
  then show ?thesis using int_text_start [of "\<lfloor>r\<rfloor>"]
    by (auto simp: value_start_def is_ws_def is_digit_def)
qed (auto simp: value_start_def is_ws_def quoteJSON_def js_def)

lemma skip_ws_length: "length (skip_ws s) \<le> length s"
  by (simp add: skip_ws_def length_dropWhile_le)

lemma skip_ws_Cons: "skip_ws s = c # cs \<Longrightarrow> length cs < length s"
  using skip_ws_length [of s] by simp

lemma parse_chars_shorter: "parse_chars s = Some (k, r) \<Longrightarrow> length r \<le> length s"
proof (induction s arbitrary: k r rule: parse_chars.induct)
  case 1
  then show ?case by simp
next
  case (2 c cs)
  then show ?case
    by (fastforce split: if_splits list.splits option.splits)
qed

lemma parse_fraction_shorter: "parse_fraction s = Some (f, r) \<Longrightarrow> length r \<le> length s"
  using length_dropWhile_le [of is_digit "tl s"]
  by (auto simp: parse_fraction_def Let_def split: list.splits if_splits)

lemma parse_exponent_shorter: "parse_exponent s = Some (e, r) \<Longrightarrow> length r \<le> length s"
proof -
  assume a: "parse_exponent s = Some (e, r)"
  have d: "length (dropWhile is_digit t) \<le> length t" for t :: jstring
    by (rule length_dropWhile_le)
  show ?thesis
    using a d [of "tl s"] d [of "tl (tl s)"]
    by (auto simp: parse_exponent_def Let_def split: list.splits if_splits)
qed

lemma parse_number_shorter: "parse_number s = Some (x, r) \<Longrightarrow> length r \<le> length s"
proof -
  assume a: "parse_number s = Some (x, r)"
  obtain neg s1 where s1: "(case s of [] \<Rightarrow> (False, s) | c # cs \<Rightarrow> if c = 45 then (True, cs) else (False, s)) = (neg, s1)"
    by (cases "case s of [] \<Rightarrow> (False, s) | c # cs \<Rightarrow> if c = 45 then (True, cs) else (False, s)") auto
  then have l1: "length s1 \<le> length s" by (auto split: list.splits if_splits)
  obtain f s2 e where pf: "parse_fraction (dropWhile is_digit s1) = Some (f, s2)"
    and pe: "parse_exponent s2 = Some (e, r)"
    using a unfolding parse_number_def s1
    by (auto simp: Let_def split: if_splits option.splits)
  have "length r \<le> length s2" using pe by (rule parse_exponent_shorter)
  also have "\<dots> \<le> length (dropWhile is_digit s1)" using pf by (rule parse_fraction_shorter)
  also have "\<dots> \<le> length s1" by (rule length_dropWhile_le)
  finally show ?thesis using l1 by simp
qed

lemma strip_prefix_shorter: "strip_prefix p s = Some r \<Longrightarrow> length r \<le> length s"
  by (auto simp: strip_prefix_def split: if_splits)

lemma parse_shorter:
  "parse_value s = Some (v, r) \<Longrightarrow> length r \<le> length s"
  "parse_elements s = Some (vs, r) \<Longrightarrow> length r \<le> length s"
  "parse_members s = Some (ms, r) \<Longrightarrow> length r \<le> length s"
proof (induction s and s and s arbitrary: v r and vs r and ms r
       rule: parse_value_parse_elements_parse_members.induct)
  case (1 s)
  note IH = "1.IH" and p = "1.prems"
  obtain c cs where sk: "skip_ws s = c # cs"
    using p by (subst (asm) parse_value.simps) (auto split: list.splits)
  have cs: "length cs < length s" using sk by (rule skip_ws_Cons)
  show ?case
  proof (cases "c = 123")
    case True
    then obtain d ds where sk2: "skip_ws cs = d # ds"
      using p sk by (subst (asm) parse_value.simps) (auto split: list.splits)
    have ds: "length ds < length cs" using sk2 by (rule skip_ws_Cons)
    show ?thesis
    proof (cases "d = 125")
      case d: True
      then have "r = ds" using p sk sk2 True by (subst (asm) parse_value.simps) simp
      then show ?thesis using ds cs by simp
    next
      case d: False
      then obtain ms where "parse_members (d # ds) = Some (ms, r)"
        using p sk sk2 True by (subst (asm) parse_value.simps) auto
      then have "length r \<le> length (d # ds)" using IH(1) [OF sk True sk2 d] by simp
      then show ?thesis using ds cs by simp
    qed
  next
    case n123: False
    show ?thesis
    proof (cases "c = 91")
      case True
      then obtain d ds where sk2: "skip_ws cs = d # ds"
        using p sk n123 by (subst (asm) parse_value.simps) (auto split: list.splits)
      have ds: "length ds < length cs" using sk2 by (rule skip_ws_Cons)
      show ?thesis
      proof (cases "d = 93")
        case d: True
        then have "r = ds" using p sk sk2 True n123 by (subst (asm) parse_value.simps) simp
        then show ?thesis using ds cs by simp
      next
        case d: False
        then obtain vs where "parse_elements (d # ds) = Some (vs, r)"
          using p sk sk2 True n123 by (subst (asm) parse_value.simps) auto
        then have "length r \<le> length (d # ds)" using IH(2) [OF sk n123 True sk2 d] by simp
        then show ?thesis using ds cs by simp
      qed
    next
      case n91: False
      have "length r \<le> length (c # cs)"
        using p sk n123 n91
        by (subst (asm) parse_value.simps)
           (auto split: if_splits dest!: parse_chars_shorter strip_prefix_shorter parse_number_shorter)
      then show ?thesis using skip_ws_length [of s] sk by simp
    qed
  qed
next
  case (2 s)
  note IH = "2.IH" and p = "2.prems"
  obtain v r1 where pv: "parse_value s = Some (v, r1)"
    using p by (subst (asm) parse_elements.simps) (auto split: option.splits)
  have r1: "length r1 \<le> length s" using IH(1) [OF pv] .
  then have ng: "\<not> length s < length r1" by simp
  obtain c cs where sk: "skip_ws r1 = c # cs"
    using p pv ng by (subst (asm) parse_elements.simps) (auto split: list.splits)
  have cs: "length cs < length r1" using sk by (rule skip_ws_Cons)
  show ?case
  proof (cases "c = 93")
    case True
    then have "r = cs" using p pv ng sk by (subst (asm) parse_elements.simps) auto
    then show ?thesis using cs r1 by simp
  next
    case False
    then have c44: "c = 44" and "\<exists>ws. parse_elements cs = Some (ws, r)"
      using p pv ng sk by (subst (asm) parse_elements.simps, auto split: if_splits)+
    then obtain ws where "parse_elements cs = Some (ws, r)" by blast
    then have "length r \<le> length cs"
      using IH(2) [OF pv refl ng sk False c44] by simp
    then show ?thesis using cs r1 by simp
  qed
next
  case (3 s)
  note IH = "3.IH" and p = "3.prems"
  obtain q qs where sk: "skip_ws s = q # qs" and q: "q = 34"
    using p by (subst (asm) parse_members.simps) (auto split: list.splits if_splits)
  have qs: "length qs < length s" using sk by (rule skip_ws_Cons)
  obtain k r0 where pc: "parse_chars qs = Some (k, r0)"
    using p sk q by (subst (asm) parse_members.simps) (auto split: option.splits)
  have r0: "length r0 \<le> length qs" using pc by (rule parse_chars_shorter)
  obtain c cs where sk2: "skip_ws r0 = c # cs" and c: "c = 58"
    using p sk q pc by (subst (asm) parse_members.simps) (auto split: list.splits if_splits)
  have cs: "length cs < length r0" using sk2 by (rule skip_ws_Cons)
  obtain v r2 where pv: "parse_value cs = Some (v, r2)"
    using p sk q pc sk2 c by (subst (asm) parse_members.simps) (auto split: option.splits)
  have r2: "length r2 \<le> length cs" using IH(1) [OF sk q pc refl sk2 c pv] .
  then have ng: "\<not> length cs < length r2" by simp
  obtain e es where sk3: "skip_ws r2 = e # es"
    using p sk q pc sk2 c pv ng by (subst (asm) parse_members.simps) (auto split: list.splits)
  have es: "length es < length r2" using sk3 by (rule skip_ws_Cons)
  show ?case
  proof (cases "e = 125")
    case True
    then have "r = es" using p sk q pc sk2 c pv ng sk3 by (subst (asm) parse_members.simps) auto
    then show ?thesis using es r2 cs r0 qs by simp
  next
    case False
    then have e44: "e = 44" and "\<exists>ns. parse_members es = Some (ns, r)"
      using p sk q pc sk2 c pv ng sk3 by (subst (asm) parse_members.simps, auto split: if_splits)+
    then obtain ns where "parse_members es = Some (ns, r)" by blast
    then have "length r \<le> length es"
      using IH(2) [OF sk q pc refl sk2 c pv refl ng sk3 False e44] by simp
    then show ?thesis using es r2 cs r0 qs by simp
  qed
qed

lemma parse_value_array_empty: "parse_value (91 # 93 # rest) = Some (JArr [], rest)"
  by (subst parse_value.simps) (simp add: skip_ws_start is_ws_def)

lemma parse_value_object_empty: "parse_value (123 # 125 # rest) = Some (JObj [], rest)"
  by (subst parse_value.simps) (simp add: skip_ws_start is_ws_def)

lemma parse_value_array:
  assumes "value_start t"
  shows "parse_value (91 # t) = map_option (\<lambda>(vs, r). (JArr vs, r)) (parse_elements t)"
proof -
  obtain d ds where t: "t = d # ds" and d: "\<not> is_ws d" "d \<noteq> 93"
    using assms by (auto simp: value_start_def split: list.splits)
  show ?thesis unfolding t using d
    by (subst parse_value.simps) (simp add: skip_ws_start is_ws_def)
qed

lemma parse_value_object:
  assumes "value_start t"
  shows "parse_value (123 # t) = map_option (\<lambda>(ms, r). (make_object ms, r)) (parse_members t)"
proof -
  obtain d ds where t: "t = d # ds" and d: "\<not> is_ws d" "d \<noteq> 125"
    using assms by (auto simp: value_start_def split: list.splits)
  show ?thesis unfolding t using d
    by (subst parse_value.simps) (simp add: skip_ws_start is_ws_def)
qed

lemma parse_elements_last:
  assumes "parse_value (t @ 93 # rest) = Some (v, 93 # rest)"
  shows "parse_elements (t @ 93 # rest) = Some ([v], rest)"
  by (subst parse_elements.simps) (simp add: assms skip_ws_start is_ws_def)

lemma parse_elements_more:
  assumes "parse_value (t @ 44 # u) = Some (v, 44 # u)"
  shows "parse_elements (t @ 44 # u) = map_option (\<lambda>(vs, r'). (v # vs, r')) (parse_elements u)"
  by (subst parse_elements.simps) (simp add: assms skip_ws_start is_ws_def)

lemma delimited_simps: "delimited (44 # u)" "delimited (93 # u)" "delimited (125 # u)" "delimited []"
  by (simp_all add: delimited_def)

lemma parse_elements_join:
  assumes "vs \<noteq> []" "\<forall>v \<in> set vs. roundtrips ts v"
  shows "parse_elements (join_with 44 (map (stringify ts) vs) @ 93 # rest) = Some (vs, rest)"
  using assms
proof (induction vs rule: induct_list012)
  case 1
  then show ?case by simp
next
  case (2 v)
  then have "parse_value (stringify ts v @ 93 # rest) = Some (v, 93 # rest)"
    by (simp add: roundtrips_def delimited_simps)
  then show ?case using parse_elements_last by simp
next
  case (3 v w ws)
  let ?u = "join_with 44 (map (stringify ts) (w # ws)) @ 93 # rest"
  have "parse_value (stringify ts v @ 44 # ?u) = Some (v, 44 # ?u)"
    using "3.prems" by (simp add: roundtrips_def delimited_simps)
  then have "parse_elements (stringify ts v @ 44 # ?u) = map_option (\<lambda>(vs, r'). (v # vs, r')) (parse_elements ?u)"
    by (rule parse_elements_more)
  moreover have "parse_elements ?u = Some (w # ws, rest)" using "3.IH"(2) "3.prems" by simp
  ultimately show ?case by simp
qed

lemma parse_members_last:
  assumes "\<forall>c \<in> set k. c < 65536" "parse_value (t @ 125 # rest) = Some (v, 125 # rest)"
  shows "parse_members (quoteJSON k @ 58 # t @ 125 # rest) = Some ([(k, v)], rest)"
  unfolding quoteJSON_def
  by (subst parse_members.simps)
     (simp add: assms skip_ws_start is_ws_def parse_quote_chars del: parse_chars.simps)

lemma parse_members_more:
  assumes "\<forall>c \<in> set k. c < 65536" "parse_value (t @ 44 # u) = Some (v, 44 # u)"
  shows "parse_members (quoteJSON k @ 58 # t @ 44 # u) =
         map_option (\<lambda>(ms, r'). ((k, v) # ms, r')) (parse_members u)"
  unfolding quoteJSON_def
  by (subst parse_members.simps)
     (simp add: assms skip_ws_start is_ws_def parse_quote_chars del: parse_chars.simps)

lemma parse_members_join:
  assumes "ms \<noteq> []" "\<forall>(k, v) \<in> set ms. (\<forall>c \<in> set k. c < 65536) \<and> roundtrips ts v"
  shows "parse_members (join_with 44 (map (\<lambda>(k, v). quoteJSON k @ 58 # stringify ts v) ms) @ 125 # rest)
         = Some (ms, rest)"
  using assms
proof (induction ms rule: induct_list012)
  case 1
  then show ?case by simp
next
  case (2 m)
  obtain k v where m: "m = (k, v)" by (cases m)
  have "parse_value (stringify ts v @ 125 # rest) = Some (v, 125 # rest)"
    using 2 m by (simp add: roundtrips_def delimited_simps)
  then show ?case using parse_members_last [of k "stringify ts v" rest v] 2 m by simp
next
  case (3 m n ns)
  obtain k v where m: "m = (k, v)" by (cases m)
  let ?u = "join_with 44 (map (\<lambda>(k, v). quoteJSON k @ 58 # stringify ts v) (n # ns)) @ 125 # rest"
  have "parse_value (stringify ts v @ 44 # ?u) = Some (v, 44 # ?u)"
    using "3.prems" m by (simp add: roundtrips_def delimited_simps)
  then have "parse_members (quoteJSON k @ 58 # stringify ts v @ 44 # ?u)
             = map_option (\<lambda>(ms, r'). ((k, v) # ms, r')) (parse_members ?u)"
    using parse_members_more [of k "stringify ts v" ?u v] "3.prems" m by simp
  moreover have "parse_members ?u = Some (n # ns, rest)" using "3.IH"(2) "3.prems" by simp
  ultimately show ?case using m by simp
qed

lemma set_member_fresh: "k \<notin> fst ` set acc \<Longrightarrow> set_member k v acc = acc @ [(k, v)]"
  by (induction acc) auto

lemma foldl_set_member:
  "distinct (map fst (acc @ ms)) \<Longrightarrow> foldl (\<lambda>acc (k, v). set_member k v acc) acc ms = acc @ ms"
proof (induction ms arbitrary: acc)
  case Nil
  then show ?case by simp
next
  case (Cons m ms)
  obtain k v where m: "m = (k, v)" by (cases m)
  have "k \<notin> fst ` set acc" using Cons(2) m by auto
  then have "set_member k v acc = acc @ [(k, v)]" by (rule set_member_fresh)
  moreover have "distinct (map fst ((acc @ [(k, v)]) @ ms))" using Cons(2) m by simp
  ultimately show ?case using Cons(1) [of "acc @ [(k, v)]"] m by simp
qed

lemma make_object_distinct: "distinct (map fst ms) \<Longrightarrow> make_object ms = JObj ms"
  using foldl_set_member [of "[]" ms] by (simp add: make_object_def)

lemma value_start_append: "value_start s \<Longrightarrow> value_start (s @ t)"
  by (auto simp: value_start_def split: list.splits)

lemma value_start_join:
  "xs \<noteq> [] \<Longrightarrow> value_start (hd xs) \<Longrightarrow> value_start (join_with 44 xs @ t)"
proof (induction xs rule: induct_list012)
  case (3 x y zs)
  then show ?case by (simp add: value_start_append)
qed (simp_all add: value_start_append)

lemma value_start_quoteJSON: "value_start (quoteJSON k @ t)"
  by (simp add: quoteJSON_def value_start_def is_ws_def)

lemma plain_not_omitted: "plain v \<Longrightarrow> \<not> omitted v"
  by (cases v) auto

lemma own_members_plain:
  assumes "\<forall>(k, v) \<in> set ms. \<not> array_index k"
  shows "own_members ms = ms"
proof -
  have "filter (\<lambda>(k, v). array_index k) ms = []" using assms by (auto simp: filter_empty_conv)
  moreover have "filter (\<lambda>(k, v). \<not> array_index k) ms = ms" using assms by (auto intro: filter_True)
  ultimately show ?thesis by (simp add: own_members_def)
qed

lemma stringify_object:
  assumes "plain (JObj ms)"
  shows "stringify ts (JObj ms) =
           123 # join_with 44 (map (\<lambda>(k, v). quoteJSON k @ 58 # stringify ts v) ms) @ [125]"
proof -
  have each: "utf16 k \<and> \<not> array_index k \<and> plain v" if "(k, v) \<in> set ms" for k v
    using assms that by (auto simp: list_all_iff)
  have keep: "filter (\<lambda>(k, v). \<not> omitted v) ms = ms"
  proof (rule filter_True, clarify)
    fix k v
    assume kv: "(k, v) \<in> set ms" and "omitted v"
    then show False using each [OF kv] plain_not_omitted by blast
  qed
  have om: "own_members (map (\<lambda>(k, v). (k, stringify ts v)) ms) = map (\<lambda>(k, v). (k, stringify ts v)) ms"
    using each by (intro own_members_plain) auto
  have mm: "map (\<lambda>(k, text). quoteJSON k @ 58 # text) (map (\<lambda>(k, v). (k, stringify ts v)) ms)
            = map (\<lambda>(k, v). quoteJSON k @ 58 # stringify ts v) ms"
    by (simp add: split_def)
  show ?thesis by (simp only: stringify.simps keep om mm)
qed

lemma plain_roundtrips: "plain v \<Longrightarrow> roundtrips ts v"
proof (induction v)
  case JUndefined
  then show ?case by simp
next
  case JNull
  show ?case using parse_value_null by (simp add: roundtrips_def)
next
  case (JBool b)
  show ?case using parse_value_true parse_value_false by (simp add: roundtrips_def)
next
  case (JNum r)
  then have "of_int \<lfloor>r\<rfloor> = r" "\<bar>\<lfloor>r\<rfloor>\<bar> < 2 ^ 53"
    by (auto simp: safe_integer_def)
  then show ?case using JNum parse_value_int [of _ "\<lfloor>r\<rfloor>"] by (simp add: roundtrips_def)
next
  case (JStr s)
  then have "\<forall>c \<in> set s. c < 65536" by (simp add: utf16_def list_all_iff)
  then show ?case using parse_value_string by (simp add: roundtrips_def)
next
  case (JArr vs)
  then have all: "\<forall>v \<in> set vs. roundtrips ts v" and pl: "\<forall>v \<in> set vs. plain v"
    by (simp_all add: list_all_iff)
  show ?case
  proof (cases vs)
    case Nil
    then show ?thesis using parse_value_array_empty by (simp add: roundtrips_def)
  next
    case (Cons w ws)
    then have ne: "vs \<noteq> []" by simp
    have "plain w" using pl Cons by simp
    then have vs: "value_start (join_with 44 (map (stringify ts) vs) @ 93 # rest)" for rest
      using value_start_join [of "map (stringify ts) vs"] value_start_stringify [of w ts] Cons by simp
    show ?thesis unfolding roundtrips_def
    proof (intro allI impI)
      fix rest
      have "parse_value (91 # (join_with 44 (map (stringify ts) vs) @ 93 # rest)) = Some (JArr vs, rest)"
        by (simp only: parse_value_array [OF vs] parse_elements_join [OF ne all] option.map prod.case)
      then show "parse_value (stringify ts (JArr vs) @ rest) = Some (JArr vs, rest)" by simp
    qed
  qed
next
  case (JObj ms)
  note IH = JObj.IH and pl = JObj.prems
  have dist: "distinct (map fst ms)" using pl by simp
  have each: "utf16 k \<and> plain v" if "(k, v) \<in> set ms" for k v
    using pl that by (auto simp: list_all_iff)
  have all: "\<forall>(k, v) \<in> set ms. (\<forall>c \<in> set k. c < 65536) \<and> roundtrips ts v"
  proof (intro ballI, clarify, intro conjI ballI)
    fix k v c
    assume kv: "(k, v) \<in> set ms"
    show "roundtrips ts v" using IH [OF kv, of v] each [OF kv] by simp
    assume "c \<in> set k"
    then show "c < 65536" using each [OF kv] by (simp add: utf16_def list_all_iff)
  qed
  show ?case
  proof (cases ms)
    case Nil
    then show ?thesis using parse_value_object_empty stringify_object [OF pl, of ts]
      by (simp add: roundtrips_def)
  next
    case (Cons m ns)
    then have ne: "ms \<noteq> []" by simp
    let ?f = "\<lambda>(k, v). quoteJSON k @ 58 # stringify ts v"
    have "value_start (?f m)" using value_start_quoteJSON by (cases m) simp
    then have vs: "value_start (join_with 44 (map ?f ms) @ 125 # rest)" for rest
      using value_start_join [of "map ?f ms"] Cons by simp
    show ?thesis unfolding roundtrips_def
    proof (intro allI impI)
      fix rest
      have "parse_value (123 # (join_with 44 (map ?f ms) @ 125 # rest)) = Some (JObj ms, rest)"
        by (simp only: parse_value_object [OF vs] parse_members_join [OF ne all]
              make_object_distinct [OF dist] option.map prod.case)
      then show "parse_value (stringify ts (JObj ms) @ rest) = Some (JObj ms, rest)"
        by (simp only: stringify_object [OF pl] append_Cons append_assoc append_Nil)
    qed
  qed
next
  case (JNative k)
  then show ?case by simp
next
  case (JInf neg)
  then show ?case by simp
qed

lemma JSON_roundtrip: "plain v \<Longrightarrow> JSON_parse (stringify ts v) = Some v"
  using plain_roundtrips [of v ts] delimited_simps(4)
  by (auto simp: roundtrips_def JSON_parse_def skip_ws_def)

lemma ascii_simps:
  "ascii []" "ascii (c # cs) = (c < 128 \<and> ascii cs)" "ascii (s @ t) = (ascii s \<and> ascii t)"
  by (auto simp: ascii_def)

lemma hex_digit_ascii: "d < 16 \<Longrightarrow> hex_digit d < 128"
  by (simp add: hex_digit_def)

lemma unicode_escape_ascii: "c < 65536 \<Longrightarrow> ascii (unicode_escape c)"
proof -
  assume "c < 65536"
  then have "c div 4096 < 16" by simp
  then show ?thesis by (simp add: unicode_escape_def ascii_simps hex_digit_ascii)
qed

lemma wellformed16_literal:
  "32 \<le> c \<Longrightarrow> c < 65536 \<Longrightarrow> \<not> (0xD800 \<le> c \<and> c < 0xE000) \<Longrightarrow> wellformed16 t
   \<Longrightarrow> wellformed16 (c # t)"
  by auto

lemma wellformed16_pair:
  "0xD800 \<le> c \<Longrightarrow> c < 0xDC00 \<Longrightarrow> 0xDC00 \<le> d \<Longrightarrow> d < 0xE000 \<Longrightarrow> wellformed16 t
   \<Longrightarrow> wellformed16 (c # d # t)"
  by simp

lemma wellformed16_escape: "wellformed16 t \<Longrightarrow> wellformed16 (92 # e # t)" if "e < 128"
  using that by simp

lemma quote_chars_wellformed16: "utf16 s \<Longrightarrow> wellformed16 (quote_chars s)"
proof (induction s rule: length_induct)
  case (1 s)
  note IH = 1(1) and bound = 1(2)
  show ?case
  proof (cases s)
    case Nil
    then show ?thesis by simp
  next
    case (Cons c cs)
    have c: "c < 65536" and cs: "utf16 cs" using bound Cons by (simp_all add: utf16_def)
    have tl: "wellformed16 (quote_chars cs)" using IH cs Cons by simp
    have ue: "wellformed16 (unicode_escape c @ t)" if "wellformed16 t" for t
      by (rule wellformed16_append [OF ascii_wellformed16 [OF unicode_escape_ascii [OF c]] that])
    consider (esc) "c \<in> {34, 92, 8, 12, 10, 13, 9}"
      | (ctl) "c < 32" "c \<notin> {8, 12, 10, 13, 9}"
      | (hi) "0xD800 \<le> c" "c < 0xDC00"
      | (lo) "0xDC00 \<le> c" "c < 0xE000"
      | (lit) "32 \<le> c" "c \<noteq> 34" "c \<noteq> 92" "\<not> (0xD800 \<le> c \<and> c < 0xE000)"
      by fastforce
    then show ?thesis
    proof cases
      case esc
      then show ?thesis
        using tl unfolding Cons
        by (auto simp add: quote_chars_esc wellformed16_escape
                 simp del: quote_chars.simps wellformed16.simps)
    next
      case ctl
      then show ?thesis
        using ue [OF tl] unfolding Cons
        by (simp add: quote_chars_ctl del: quote_chars.simps wellformed16.simps)
    next
      case hi
      show ?thesis
      proof (cases cs)
        case Nil
        have "wellformed16 (unicode_escape c)"
          by (rule ascii_wellformed16 [OF unicode_escape_ascii [OF c]])
        then show ?thesis
          using hi Nil unfolding Cons
          by (simp add: quote_chars_hi_end del: quote_chars.simps wellformed16.simps)
      next
        case (Cons d ds)
        note cs_eq = Cons
        show ?thesis
        proof (cases "0xDC00 \<le> d \<and> d < 0xE000")
          case True
          have "utf16 ds" using cs cs_eq by (simp add: utf16_def)
          then have "wellformed16 (quote_chars ds)" using IH \<open>s = c # cs\<close> cs_eq by simp
          then show ?thesis
            using hi True unfolding \<open>s = c # cs\<close> cs_eq
            by (simp add: quote_chars_hi_pair wellformed16_pair
                     del: quote_chars.simps wellformed16.simps)
        next
          case False
          then show ?thesis
            using hi ue [OF tl] unfolding \<open>s = c # cs\<close> cs_eq
            by (simp add: quote_chars_hi_lone del: quote_chars.simps wellformed16.simps)
        qed
      qed
    next
      case lo
      then show ?thesis
        using ue [OF tl] unfolding Cons
        by (simp add: quote_chars_lo del: quote_chars.simps wellformed16.simps)
    next
      case lit
      then show ?thesis
        using tl c unfolding Cons
        by (simp add: quote_chars_lit wellformed16_literal del: quote_chars.simps wellformed16.simps)
    qed
  qed
qed

lemma quoteJSON_wellformed16: "utf16 s \<Longrightarrow> wellformed16 (quoteJSON s)"
  unfolding quoteJSON_def
  using wellformed16_append [OF quote_chars_wellformed16, of s "[34]"] by simp

lemma decimal_ascii: "ascii (decimal n)"
proof -
  have "\<forall>c \<in> set (decimal n). is_digit c" using decimal_digits [of n] by (simp add: list_all_iff)
  then have "\<forall>c \<in> set (decimal n). c < 128" by (auto simp: is_digit_def)
  then show ?thesis by (simp add: ascii_def list_all_iff)
qed

lemma int_text_ascii: "ascii (int_text i)"
  by (simp add: int_text_def ascii_simps decimal_ascii)

lemma join_with_wellformed16:
  "\<forall>x \<in> set xs. wellformed16 x \<Longrightarrow> wellformed16 (join_with 44 xs)"
proof (induction xs rule: induct_list012)
  case (3 x y zs)
  then have "wellformed16 x" "wellformed16 (44 # join_with 44 (y # zs))" by simp_all
  then show ?case using wellformed16_append [of x "44 # join_with 44 (y # zs)"] by simp
qed simp_all

lemma js_ascii_lits: "ascii (js ''true'')" "ascii (js ''false'')" "ascii (js ''null'')"
  by (simp_all add: js_def ascii_simps)

lemma wellformed16_bracket:
  assumes "wellformed16 t" "a < 128" "b < 128"
  shows "wellformed16 (a # t @ [b])"
proof -
  have "wellformed16 (t @ [b])" using assms by (intro wellformed16_append) simp_all
  then show ?thesis using assms by simp
qed

lemma stringify_wellformed16: "plain v \<Longrightarrow> wellformed16 (stringify ts v)"
proof (induction v)
  case (JArr vs)
  then have "\<forall>x \<in> set (map (stringify ts) vs). wellformed16 x" by (auto simp: list_all_iff)
  then have "wellformed16 (join_with 44 (map (stringify ts) vs))" by (rule join_with_wellformed16)
  then show ?case using wellformed16_bracket [of _ 91 93] by simp
next
  case (JObj ms)
  note IH = JObj.IH and pl = JObj.prems
  have each: "utf16 k \<and> plain v" if "(k, v) \<in> set ms" for k v
    using pl that by (auto simp: list_all_iff)
  have "wellformed16 (quoteJSON k @ 58 # stringify ts v)" if "(k, v) \<in> set ms" for k v
  proof -
    have "wellformed16 (58 # stringify ts v)" using each [OF that] IH [OF that, of v] by simp
    then show ?thesis using each [OF that] by (intro wellformed16_append quoteJSON_wellformed16) simp_all
  qed
  then have "\<forall>x \<in> set (map (\<lambda>(k, v). quoteJSON k @ 58 # stringify ts v) ms). wellformed16 x"
    by auto
  then have "wellformed16 (join_with 44 (map (\<lambda>(k, v). quoteJSON k @ 58 # stringify ts v) ms))"
    by (rule join_with_wellformed16)
  then have "wellformed16
      (123 # join_with 44 (map (\<lambda>(k, v). quoteJSON k @ 58 # stringify ts v) ms) @ [125])"
    by (rule wellformed16_bracket) simp_all
  then show ?case by (simp only: stringify_object [OF pl])
qed (simp_all add: quoteJSON_wellformed16 int_text_ascii js_ascii_lits ascii_wellformed16)

lemma header_roundtrip:
  assumes "plain v"
  shows "decodePaymentHeader (encodePaymentHeader ts v) = Inr v"
proof -
  have w: "wellformed16 (stringify ts v)" using assms by (rule stringify_wellformed16)
  have "base64_decode (base64_encode (utf8_encode (stringify ts v))) = utf8_encode (stringify ts v)"
    using base64_roundtrip [OF utf8_bytes [OF w]] .
  then show ?thesis
    using JSON_roundtrip [OF assms, of ts]
    by (simp add: decodePaymentHeader_def encodePaymentHeader_def utf8_roundtrip [OF w])
qed

lemma verifyPayment_checks:
  assumes dec: "decodePaymentHeader (paymentHeader request) = Inr pp"
    and ver: "getProp pp (js ''x402Version'') = Some ver"
    and sch: "getProp pp (js ''scheme'') = Some sch"
    and pl: "getProp pp (js ''payload'') = Some pl"
    and auth: "getProp pl (js ''authorization'') = Some auth"
    and max: "getProp (VerificationRequest.paymentRequirements request) (js ''maxAmountRequired'') = Some m"
    and req: "BigInt env m = Some required"
    and val: "getProp auth (js ''value'') = Some val"
    and prov: "BigInt env val = Some provided"
    and asset: "getProp (VerificationRequest.paymentRequirements request) (js ''asset'') = Some a"
    and sup: "a \<noteq> JStr nativeToken \<Longrightarrow> isSupportedToken env a = Some supported"
    and va: "getProp auth (js ''validAfter'') = Some va"
    and vb: "getProp auth (js ''validBefore'') = Some vb"
    and after: "parseInt env va = Number validAfter"
    and before: "parseInt env vb = Number validBefore"
  shows "verifyPayment env request =
         Inr (case first_failure
                [(ver = JNum (x402Version request), Version_mismatch),
                 (sch = JStr (js ''exact''), Unsupported_payment_scheme),
                 (verifySignature env pp (VerificationRequest.paymentRequirements request), Invalid_signature),
                 (required \<le> provided, Insufficient_amount required provided),
                 (a = JStr nativeToken \<or> supported, Unsupported_token),
                 (validAfter \<le> now env, Payment_not_yet_valid),
                 (now env \<le> validBefore, Payment_expired)] of
                Some r \<Rightarrow> invalid r
              | None \<Rightarrow> accepted (Number validBefore))"
proof -
  have atc: "verifyPayment_amount_token_timing env pp (VerificationRequest.paymentRequirements request) =
      (if provided < required then Inr (invalid (Insufficient_amount required provided))
       else if \<not> (a = JStr nativeToken \<or> supported) then Inr (invalid Unsupported_token)
       else if now env < validAfter then Inr (invalid Payment_not_yet_valid)
       else if validBefore < now env then Inr (invalid Payment_expired)
       else Inr (accepted (Number validBefore)))"
    using pl auth max req val prov asset sup va vb after before
    by (cases "a = JStr nativeToken")
       (simp_all add: verifyPayment_amount_token_timing_def accepted_def)
  show ?thesis
    using dec ver sch
    by (simp add: verifyPayment_def verifyPayment_try_def atc first_failure_def not_less not_le)
qed


lemma createPayment_plain:
  assumes "list_all utf16 [n, sg, f, t, val, va, vb, nc]"
  shows "plain (paymentPayload (JStr n) (JStr sg)
           (generatedAuthorization (JStr f) (JStr t) (JStr val) (JStr va) (JStr vb) (JStr nc)))"
  using assms
  by (simp add: paymentPayload_def generatedAuthorization_def js_def utf16_def array_index_def
      safe_integer_def is_digit_def)

lemma decode_no_base64:
  assumes "list_all (\<lambda>c. unbase64 c = None) header"
  shows "decodePaymentHeader header
         = Inl (appError INVALID_REQUEST Invalid_payment_header_encoding)"
proof -
  have "List.map_filter unbase64 xs = []" if "list_all (\<lambda>c. unbase64 c = None) xs" for xs
    using that by (induction xs) (simp_all add: List.map_filter_simps)
  moreover have "list_all (\<lambda>c. unbase64 c = None) (takeWhile (\<lambda>c. c mod 256 \<noteq> 61) header)"
    using assms by (induction header) simp_all
  ultimately have "base64_decode header = []" by (simp add: base64_decode_def)
  moreover have "parse_value [] = None" by (subst parse_value.simps) (simp add: skip_ws_def)
  ultimately show ?thesis by (simp add: decodePaymentHeader_def JSON_parse_def)
qed

subsection \<open>The examples\<close>

lemma example_decode:
  "plain p \<Longrightarrow> decodePaymentHeader (paymentHeader (example_request p)) = Inr p"
  by (simp add: example_request_def header_roundtrip)

lemmas example_simps =
  example_request_def example_requirements_def example_authorization_def example_env_def
  paymentPayload_def agentPaymentPayload_def nativeToken_def js_def
  decimal_BigInt_def decimal_parseInt_def is_digit_def digits_val_def ascii_lower_def
  signed_by_from_def ascii_def array_index_def utf16_def safe_integer_def

lemma example_verifyPayment_facts:
  assumes p: "plain (example_payload recipient val validBefore)"
  shows "decodePaymentHeader (paymentHeader (example_request (example_payload recipient val validBefore)))
           = Inr (example_payload recipient val validBefore)"
    and "getProp (example_payload recipient val validBefore) (js ''x402Version'') = Some (JNum 1)"
    and "getProp (example_payload recipient val validBefore) (js ''scheme'') = Some (JStr (js ''exact''))"
    and "getProp (example_payload recipient val validBefore) (js ''payload'')
           = Some (JObj [(js ''signature'', JStr (js ''0x5167'')),
                         (js ''authorization'', example_authorization recipient val validBefore)])"
    and "getProp (JObj [(js ''signature'', JStr (js ''0x5167'')),
                        (js ''authorization'', example_authorization recipient val validBefore)])
           (js ''authorization'') = Some (example_authorization recipient val validBefore)"
    and "getProp (VerificationRequest.paymentRequirements
                    (example_request (example_payload recipient val validBefore)))
           (js ''maxAmountRequired'') = Some (JStr (js ''1000000''))"
    and "BigInt example_env (JStr (js ''1000000'')) = Some 1000000"
    and "getProp (example_authorization recipient val validBefore) (js ''value'') = Some (JStr (js val))"
    and "getProp (VerificationRequest.paymentRequirements
                    (example_request (example_payload recipient val validBefore)))
           (js ''asset'') = Some (JStr nativeToken)"
    and "JStr nativeToken \<noteq> JStr nativeToken \<Longrightarrow>
           isSupportedToken example_env (JStr nativeToken) = Some False"
    and "getProp (example_authorization recipient val validBefore) (js ''validAfter'')
           = Some (JStr (js ''1699999990''))"
    and "getProp (example_authorization recipient val validBefore) (js ''validBefore'')
           = Some (JStr (js validBefore))"
    and "parseInt example_env (JStr (js ''1699999990'')) = Number 1699999990"
    and "verifySignature example_env (example_payload recipient val validBefore)
           (VerificationRequest.paymentRequirements
              (example_request (example_payload recipient val validBefore)))"
  using example_decode [OF p]
  by (simp_all add: example_payload_def example_simps verifySignature_def verifySignature_try_def
      signature_domain_def extra_domain_def propertyKey_def lowerCase_def)

lemma example_payload_plain:
  "plain (example_payload ''0x00000000000000000000000000000000000000aa'' ''1000000'' ''1700000000'')"
  "plain (example_payload ''0x00000000000000000000000000000000000000aa'' ''1000000'' ''1699999999'')"
  "plain (example_payload ''0x00000000000000000000000000000000000000aa'' ''999999'' ''1700003600'')"
  "plain (example_payload ''0x00000000000000000000000000000000000000cc'' ''1000000'' ''1700003600'')"
  by (simp_all add: example_payload_def example_simps)

lemma example_version:
  "getProp (example_payload recipient val validBefore) (js ''x402Version'')
     = Some (JNum (x402Version (example_request (example_payload recipient val validBefore))))"
  by (simp add: example_payload_def example_simps)

lemma example_recipient_facts:
  "getProp (example_authorization recipient val validBefore) (js ''to'') = Some (JStr (js recipient))"
  "getProp (VerificationRequest.paymentRequirements (example_request p)) (js ''payTo'')
     = Some (JStr (js ''0x00000000000000000000000000000000000000aa''))"
  "JStr (js ''0x00000000000000000000000000000000000000cc'')
     \<noteq> JStr (js ''0x00000000000000000000000000000000000000aa'')"
  by (simp_all add: example_simps)

lemma example_numbers:
  "BigInt example_env (JStr (js ''1000000'')) = Some 1000000"
  "BigInt example_env (JStr (js ''999999'')) = Some 999999"
  "parseInt example_env (JStr (js ''1700000000'')) = Number 1700000000"
  "parseInt example_env (JStr (js ''1699999999'')) = Number 1699999999"
  "parseInt example_env (JStr (js ''1700003600'')) = Number 1700003600"
  "now example_env = 1700000000"
  by (simp_all add: example_simps)

lemma verifySignature_iff:
  "verifySignature env pp reqs \<longleftrightarrow>
     (\<exists>pl sig auth dom rec f.
        getProp pp (js ''payload'') = Some pl
        \<and> getProp pl (js ''signature'') = Some sig
        \<and> getProp pl (js ''authorization'') = Some auth
        \<and> signature_domain env pp reqs = Some dom
        \<and> verifyTypedData env dom auth sig = Some rec
        \<and> getProp auth (js ''from'') = Some (JStr f)
        \<and> toLowerCase env rec = toLowerCase env f)"
  by (auto simp: verifySignature_def verifySignature_try_def lowerCase_def
           split: option.splits jsval.splits)




subsection \<open>The registry\<close>

lemma be_nat_snoc: "be_nat (bs @ [c]) = be_nat bs * 256 + of_char c"
  by (simp add: be_nat_def)

lemma length_be_bytes: "length (be_bytes n v) = n"
  by (induction n arbitrary: v) simp_all

lemma be_nat_be_bytes: "be_nat (be_bytes n v) = v mod 256 ^ n"
proof (induction n arbitrary: v)
  case 0
  then show ?case by (simp add: be_nat_def)
next
  case (Suc n)
  have "be_nat (be_bytes (Suc n) v) = (v div 256 mod 256 ^ n) * 256 + v mod 256"
    using Suc [of "v div 256"] by (simp add: be_nat_snoc)
  also have "\<dots> = v mod (256 * 256 ^ n)"
    by (simp add: mod_mult2_eq)
  finally show ?case by simp
qed

lemma address_of_address_bytes: "address_of_bytes20 (bytes20 (address_bytes a)) = a"
proof -
  have "bytes20 (address_bytes a) = address_bytes a"
    by (simp add: bytes20_def address_bytes_def length_be_bytes)
  moreover have "unat a < 256 ^ 20"
    using unsigned_less [of a, where ?'a = nat] by simp
  ultimately show ?thesis
    by (simp add: address_of_bytes20_def address_bytes_def be_nat_be_bytes)
qed

lemma example_registry_eq:
  "example_registry =
     \<lparr>roles = (\<lambda>r a. (r = DEFAULT_ADMIN_ROLE \<and> a = 1) \<or> (r = FACILITATOR_ROLE \<and> (a = 1 \<or> a = 3))
                       \<or> (r = MERCHANT_ROLE \<and> a = 0xAA)),
      paymentRequirements =
        (\<lambda>m r. if m = 0xAA \<and> r = ''/api/premium'' then
            \<lparr>scheme = ''exact'', network = ''push-chain'', maxAmountRequired = 1000000,
             resource = ''/api/premium'', description = ''Premium API Access'',
             mimeType = ''application/json'', payTo = 0xAA, maxTimeoutSeconds = 3600, asset = 0,
             isActive = True, createdAt = 1699990000, updatedAt = 1699990000\<rparr>
          else zero_requirement),
      paymentRecords = (\<lambda>i. zero_record),
      merchantPayments = (\<lambda>m. [])\<rparr>"
  by (auto simp: example_registry_def state_after_def createPaymentRequirement_def grantRole_def
      registerMerchant_def deploy_def example_chain_def fun_eq_iff)

lemma example_registry_facts:
  "roles example_registry FACILITATOR_ROLE 3"
  "isActive (paymentRequirements example_registry 0xAA ''/api/premium'')"
  "maxAmountRequired (paymentRequirements example_registry 0xAA ''/api/premium'') = 1000000"
  "merchantPayments example_registry m = []"
  "paymentRecords example_registry i = zero_record"
  by (simp_all add: example_registry_eq)

lemma recordPayment_example:
  "recordPayment (example_chain 3 t native_origin) s 0xAA ''/api/premium'' 0xBB 1000000 h =
     (if \<not> roles s FACILITATOR_ROLE 3 then Inl (AccessControlUnauthorizedAccount 3 FACILITATOR_ROLE)
      else if \<not> isActive (paymentRequirements s 0xAA ''/api/premium'') then
        Inl (Error ''Payment requirement not active'')
      else if \<not> maxAmountRequired (paymentRequirements s 0xAA ''/api/premium'') \<le> 1000000 then
        Inl (Error ''Insufficient payment amount'')
      else
        (let pid = ideal_hash (paymentId_preimage 0xAA ''/api/premium'' 0xBB 1000000 t h)
         in Inr (s\<lparr>paymentRecords := (paymentRecords s)(pid :=
                     \<lparr>requirementId = ideal_hash (address_bytes 0xAA @ ''/api/premium''),
                      payer = 0xBB, originChain = ''push-chain'', originAddress = 0xBB,
                      isUEA = False, amount = 1000000, timestamp = t, txHash = h,
                      settled = False\<rparr>),
                   merchantPayments := (merchantPayments s)(0xAA := merchantPayments s 0xAA @ [pid])\<rparr>,
                 [PaymentRecorded pid 0xAA 0xBB 1000000 ''push-chain'' 0xBB False], pid)))"
  by (simp add: recordPayment_def example_chain_def native_origin_def origin_of_def Let_def)

lemma markPaymentSettled_example:
  "markPaymentSettled (example_chain 3 t native_origin) s pid h =
     (if \<not> roles s FACILITATOR_ROLE 3 then Inl (AccessControlUnauthorizedAccount 3 FACILITATOR_ROLE)
      else if \<not> 0 < timestamp (paymentRecords s pid) then Inl (Error ''Payment not found'')
      else if settled (paymentRecords s pid) then Inl (Error ''Payment already settled'')
      else Inr (s\<lparr>paymentRecords :=
                   (paymentRecords s)(pid := (paymentRecords s pid)\<lparr>settled := True\<rparr>)\<rparr>,
                [PaymentSettled pid h]))"
  by (simp add: markPaymentSettled_def example_chain_def)




lemma be_nat_less: "be_nat bs < 256 ^ length bs"
proof (induction bs rule: rev_induct)
  case Nil
  then show ?case by (simp add: be_nat_def)
next
  case (snoc c bs)
  have "of_char c < (256::nat)" by (simp add: of_char_def) 
  then have "be_nat bs * 256 + of_char c < (be_nat bs + 1) * 256" by simp
  also have "\<dots> \<le> 256 ^ length bs * 256" using snoc by (simp add: Suc_leI)
  finally show ?case by (simp add: be_nat_snoc)
qed




lemma be_bytes_be_nat: "be_bytes (length bs) (be_nat bs) = bs"
proof (induction bs rule: rev_induct)
  case Nil
  then show ?case by simp
next
  case (snoc c bs)
  have c: "(of_char c :: nat) < 256" by (simp add: of_char_def)
  then have "(be_nat bs * 256 + of_char c) div 256 = be_nat bs"
    "(be_nat bs * 256 + of_char c) mod 256 = of_char c"
    by simp_all
  then show ?case using snoc by (simp add: be_nat_snoc)
qed

lemma length_bytes20: "length (bytes20 b) = 20"
  by (simp add: bytes20_def)

lemma address_bytes_of_bytes20:
  assumes "length b = 20"
  shows "address_bytes (address_of_bytes20 b) = b"
proof -
  have "be_nat b < 256 ^ 20" using be_nat_less [of b] assms by simp
  then have "unat (word_of_nat (be_nat b) :: address) = be_nat b"
    by (simp add: unsigned_of_nat take_bit_nat_eq_self)
  then show ?thesis
    using be_bytes_be_nat [of b] assms by (simp add: address_bytes_def address_of_bytes20_def)
qed

lemma bytes20_exact: "length b = 20 \<Longrightarrow> bytes20 b = b"
  by (simp add: bytes20_def)

lemma bytes20_long: "20 \<le> length b \<Longrightarrow> bytes20 b = take 20 b"
  by (simp add: bytes20_def)

lemma length_address_bytes: "length (address_bytes a) = 20"
  by (simp add: address_bytes_def length_be_bytes)

lemma bytes20_address_bytes: "bytes20 (address_bytes a) = address_bytes a"
  by (simp add: bytes20_exact length_address_bytes)

lemma address_of_bytes20_address_bytes: "address_of_bytes20 (address_bytes a) = a"
  using address_of_address_bytes [of a] by (simp add: bytes20_address_bytes)

lemma recordPayment_accepted:
  "recordPayment (example_chain 3 t origin) example_registry 0xAA ''/api/premium'' 0xBB 1000000 h =
     (case origin 0xBB of
        None \<Rightarrow> Inl CallReverted
      | Some answer \<Rightarrow>
          (let pid = ideal_hash (paymentId_preimage 0xAA ''/api/premium'' 0xBB 1000000 t h)
           in Inr (example_registry\<lparr>paymentRecords := (paymentRecords example_registry)(pid :=
                     \<lparr>requirementId = ideal_hash (address_bytes 0xAA @ ''/api/premium''),
                      payer = 0xBB, originChain = fst (origin_of answer 0xBB),
                      originAddress = snd (origin_of answer 0xBB),
                      isUEA = snd answer, amount = 1000000, timestamp = t, txHash = h,
                      settled = False\<rparr>),
                   merchantPayments := (merchantPayments example_registry)
                     (0xAA := merchantPayments example_registry 0xAA @ [pid])\<rparr>,
                 [PaymentRecorded pid 0xAA 0xBB 1000000 (fst (origin_of answer 0xBB))
                    (snd (origin_of answer 0xBB)) (snd answer)], pid)))"
  by (simp add: recordPayment_def example_chain_def example_registry_facts Let_def split_def
           split: option.splits)

lemma recorded_once_eq:
  "recorded_once =
     example_registry\<lparr>paymentRecords :=
         (paymentRecords example_registry)
           (example_paymentId 1700000000 0xABCD := example_record 1700000000 0xABCD False),
       merchantPayments :=
         (merchantPayments example_registry)(0xAA := [example_paymentId 1700000000 0xABCD])\<rparr>"
  by (simp add: recorded_once_def state_after_def recordPayment_example example_registry_facts
      Let_def example_paymentId_def example_record_def)

lemma settled_once_eq:
  "settled_once =
     example_registry\<lparr>paymentRecords :=
         (paymentRecords example_registry)
           (example_paymentId 1700000000 0xABCD := example_record 1700000000 0xABCD True),
       merchantPayments :=
         (merchantPayments example_registry)(0xAA := [example_paymentId 1700000000 0xABCD])\<rparr>"
  by (simp add: settled_once_def state_after_def markPaymentSettled_example recorded_once_eq
      example_registry_facts example_record_def)

lemma recorded_again_eq:
  "recorded_again =
     example_registry\<lparr>paymentRecords :=
         (paymentRecords example_registry)
           (example_paymentId 1700000000 0xABCD := example_record 1700000000 0xABCD False),
       merchantPayments :=
         (merchantPayments example_registry)
           (0xAA := [example_paymentId 1700000000 0xABCD, example_paymentId 1700000000 0xABCD])\<rparr>"
  by (simp add: recorded_again_def state_after_def recordPayment_example settled_once_eq
      example_registry_facts Let_def example_paymentId_def example_record_def)

subsection \<open>Settlement\<close>

lemma getProp_defined: "getProp x k = Some y \<Longrightarrow> \<exists>z. getProp x k' = Some z"
  by (cases x) (auto split: option.splits)

lemma decode_JSON_parse:
  "decodePaymentHeader h = Inr pp \<longleftrightarrow> JSON_parse (utf8_decode (base64_decode h)) = Some pp"
  by (simp add: decodePaymentHeader_def split: option.splits)

lemma verifyPayment_Inr:
  "verifyPayment env vr = Inr v \<longleftrightarrow> verifyPayment_try env vr = Inr v"
  by (simp add: verifyPayment_def split: sum.splits)

lemma amount_token_timing_valid:
  assumes "verifyPayment_amount_token_timing env pp reqs = Inr v" "isValid v"
  shows "\<exists>pl auth val amt.
           getProp pp (js ''payload'') = Some pl
           \<and> getProp pl (js ''authorization'') = Some auth
           \<and> getProp auth (js ''value'') = Some val
           \<and> BigInt env val = Some amt
           \<and> (\<exists>m. getProp reqs (js ''maxAmountRequired'') = Some m)"
  using assms
  by (auto simp: verifyPayment_amount_token_timing_def invalid_def Let_def
           split: option.splits if_splits)

lemma verifyPayment_try_valid:
  assumes "verifyPayment_try env vr = Inr v" "isValid v"
  shows "\<exists>pp. decodePaymentHeader (paymentHeader vr) = Inr pp
           \<and> verifySignature env pp (VerificationRequest.paymentRequirements vr)
           \<and> verifyPayment_amount_token_timing env pp (VerificationRequest.paymentRequirements vr) = Inr v"
  using assms
  by (auto simp: verifyPayment_try_def invalid_def split: sum.splits option.splits if_splits)

lemma verified_reads:
  assumes "verifyPayment env vr = Inr v" "isValid v"
  shows "\<exists>pp pl auth val amt f.
           JSON_parse (utf8_decode (base64_decode (paymentHeader vr))) = Some pp
           \<and> getProp pp (js ''payload'') = Some pl
           \<and> getProp pl (js ''authorization'') = Some auth
           \<and> getProp auth (js ''value'') = Some val
           \<and> BigInt env val = Some amt
           \<and> getProp auth (js ''from'') = Some (JStr f)
           \<and> (\<forall>k. \<exists>z. getProp pp k = Some z)
           \<and> (\<forall>k. \<exists>z. getProp pl k = Some z)
           \<and> (\<forall>k. \<exists>z. getProp (VerificationRequest.paymentRequirements vr) k = Some z)"
proof -
  obtain pp where dec: "decodePaymentHeader (paymentHeader vr) = Inr pp"
    and sig: "verifySignature env pp (VerificationRequest.paymentRequirements vr)"
    and atc: "verifyPayment_amount_token_timing env pp (VerificationRequest.paymentRequirements vr) = Inr v"
    using verifyPayment_try_valid assms verifyPayment_Inr by blast
  obtain pl auth val amt m where pl: "getProp pp (js ''payload'') = Some pl"
    and auth: "getProp pl (js ''authorization'') = Some auth"
    and val: "getProp auth (js ''value'') = Some val"
    and amt: "BigInt env val = Some amt"
    and m: "getProp (VerificationRequest.paymentRequirements vr) (js ''maxAmountRequired'') = Some m"
    using amount_token_timing_valid [OF atc assms(2)] by blast
  obtain f where f: "getProp auth (js ''from'') = Some (JStr f)"
    using sig pl auth unfolding verifySignature_iff by auto
  show ?thesis
    using dec pl auth val amt f m getProp_defined [OF pl] getProp_defined [OF auth] getProp_defined [OF m]
    unfolding decode_JSON_parse by blast
qed

lemma settlePayment_unfold:
  "settlePayment env s request =
     (case verifyPayment env (verification_of request) of
        Inl e \<Rightarrow> (Inl e, s)
      | Inr v \<Rightarrow>
          if \<not> isValid v then
            (Inl (appError INVALID_SIGNATURE (Payment_verification_failed (invalidReason v))), s)
          else
            (case settle_reads env request of
               Inl (App e) \<Rightarrow> (Inl e, s)
             | Inl OtherError \<Rightarrow>
                 (Inl \<lparr>code = SETTLEMENT_FAILED, message = Settlement_failed, statusCode = 500\<rparr>, s)
             | Inr args \<Rightarrow>
                 (case settle_writes env s args of
                    (Inl (App e), s') \<Rightarrow> (Inl e, s')
                  | (Inl OtherError, s') \<Rightarrow>
                      (Inl \<lparr>code = SETTLEMENT_FAILED, message = Settlement_failed, statusCode = 500\<rparr>, s')
                  | (Inr response, s') \<Rightarrow> (Inr response, s'))))"
  by (simp add: settlePayment_def settlePayment_catch_def settlePayment_try_def settle_verified_def
           verification_of_def
           split: sum.splits thrown.splits)

lemma settle_reads_no_proof:
  assumes "\<not> truthy (transfer_proof (paymentHeader request))"
  shows "\<exists>e. settle_reads env request = Inl e"
proof (cases "JSON_parse (utf8_decode (base64_decode (paymentHeader request)))")
  case None
  then show ?thesis by (simp add: settle_reads_def)
next
  case (Some pp)
  show ?thesis
  proof (cases "getProp pp (js ''payload'')")
    case None
    then show ?thesis using Some by (simp add: settle_reads_def)
  next
    case pl: (Some pl)
    show ?thesis
    proof (cases "getProp pl (js ''txHash'')")
      case None
      then show ?thesis using Some pl by (simp add: settle_reads_def split: option.splits)
    next
      case h: (Some h)
      have "\<not> truthy h"
        using assms Some pl h by (simp add: transfer_proof_def decodePaymentHeader_def)
      then show ?thesis
        using Some pl h by (simp add: settle_reads_def split: option.splits)
    qed
  qed
qed

lemma settle_reads_no_proof_verified:
  assumes "\<not> truthy (transfer_proof (paymentHeader request))"
    and "verifyPayment env (verification_of request) = Inr v" "isValid v"
  shows "settle_reads env request
         = Inl (App (appError SETTLEMENT_FAILED Transaction_hash_not_provided_by_agent))"
proof -
  obtain pp pl auth val amt f where
    pp: "JSON_parse (utf8_decode (base64_decode (paymentHeader request))) = Some pp"
    and pl: "getProp pp (js ''payload'') = Some pl"
    and auth: "getProp pl (js ''authorization'') = Some auth"
    and val: "getProp auth (js ''value'') = Some val"
    and amt: "BigInt env val = Some amt"
    and f: "getProp auth (js ''from'') = Some (JStr f)"
    and dpp: "\<forall>k. \<exists>z. getProp pp k = Some z"
    and dpl: "\<forall>k. \<exists>z. getProp pl k = Some z"
    and dreq: "\<forall>k. \<exists>z. getProp (VerificationRequest.paymentRequirements request) k = Some z"
    using verified_reads [OF assms(2,3)] by (auto simp: verification_of_def)
  obtain h where h: "getProp pl (js ''txHash'') = Some h" using dpl by blast
  obtain m r n where m: "getProp (VerificationRequest.paymentRequirements request) (js ''payTo'') = Some m"
    and r: "getProp (VerificationRequest.paymentRequirements request) (js ''resource'') = Some r"
    and n: "getProp pp (js ''network'') = Some n"
    using dreq dpp by blast
  have "\<not> truthy h"
    using assms(1) pp pl h by (simp add: transfer_proof_def decodePaymentHeader_def)
  then show ?thesis
    using pp pl auth val amt f h m r n by (simp add: settle_reads_def)
qed

lemma settle_reads_eq:
  assumes "JSON_parse (utf8_decode (base64_decode (paymentHeader request))) = Some pp"
    and "getProp pp (js ''payload'') = Some pl"
    and "getProp pl (js ''authorization'') = Some auth"
    and "getProp pl (js ''txHash'') = Some h"
    and "getProp (VerificationRequest.paymentRequirements request) (js ''payTo'') = Some m"
    and "getProp (VerificationRequest.paymentRequirements request) (js ''resource'') = Some r"
    and "getProp auth (js ''from'') = Some p"
    and "getProp auth (js ''value'') = Some val"
    and "BigInt env val = Some amt"
    and "getProp pp (js ''network'') = Some n"
    and "truthy h"
  shows "settle_reads env request =
           (case verifyTransaction env h n p m amt of
              Some e \<Rightarrow> Inl e
            | None \<Rightarrow> Inr (m, r, p, amt, h, n))"
  using assms by (simp add: settle_reads_def)

lemma verifyTransaction_retrieved:
  assumes "propertyKey env n = Some key"
    and "literalLookup (rpcUrls env) key = JStr url" "url \<noteq> []"
    and "getTransactionReceipt env url h = Resolved (Some rc)"
    and "getTransaction env url h = Resolved (Some tx)"
  shows "verifyTransaction env h n p m amt = check_transaction env rc tx p m amt"
  using assms by (simp add: verifyTransaction_def)

lemma check_transaction_eq:
  "check_transaction env rc tx (JStr p) (JStr m) amt =
     map_option (\<lambda>msg. App (appError SETTLEMENT_FAILED msg))
       (first_failure (transfer_checks (toLowerCase env) rc tx p m amt))"
  by (cases "tx_to tx")
     (auto simp: check_transaction_def lowerCase_def transfer_checks_def first_failure_def not_less)

lemma verifyTransaction_unconfirmed:
  assumes "propertyKey env n = Some key"
    and "literalLookup (rpcUrls env) key = JStr url" "url \<noteq> []"
    and "unconfirmed (getTransactionReceipt env url h) (getTransaction env url h)"
  shows "verifyTransaction env h n p m amt = None"
  using assms
  by (auto simp: verifyTransaction_def unconfirmed_def split: race.splits option.splits)

lemma example_settle_env_js:
  "BigInt (example_settle_env rs ts t) = BigInt example_env"
  "parseInt (example_settle_env rs ts t) = parseInt example_env"
  "toLowerCase (example_settle_env rs ts t) = toLowerCase example_env"
  "ToPropertyKey (example_settle_env rs ts t) = ToPropertyKey example_env"
  "verifyTypedData (example_settle_env rs ts t) = verifyTypedData example_env"
  "isSupportedToken (example_settle_env rs ts t) = isSupportedToken example_env"
  "now (example_settle_env rs ts t) = now example_env"
  by (simp_all add: example_settle_env_def example_env_def)

lemma verifyPayment_example_settle_env:
  "verifyPayment (example_settle_env rs ts t) vr = verifyPayment example_env vr"
  unfolding verifyPayment_def verifyPayment_try_def verifySignature_def verifySignature_try_def
    signature_domain_def propertyKey_def lowerCase_def verifyPayment_amount_token_timing_def
    example_settle_env_js
  by (rule refl)

lemma example_settle_payload_plain:
  "plain (example_payload ''0x00000000000000000000000000000000000000aa'' ''1000000'' ''1700003600'')"
  "plain (example_agent_payload example_txHash)"
  by (simp_all add: example_payload_def example_agent_payload_def example_txHash_def example_simps)

lemma example_settle_decode:
  "plain p \<Longrightarrow> decodePaymentHeader (paymentHeader (example_settle_request p)) = Inr p"
  by (simp add: example_settle_request_def header_roundtrip)

lemma example_settle_verification:
  assumes "p = example_payload ''0x00000000000000000000000000000000000000aa'' ''1000000'' ''1700003600''
           \<or> p = example_agent_payload example_txHash"
  shows "verifyPayment (example_settle_env rs ts t) (verification_of (example_settle_request p))
         = Inr (accepted (Number 1700003600))"
proof -
  let ?auth = "example_authorization ''0x00000000000000000000000000000000000000aa'' ''1000000'' ''1700003600''"
  let ?r = "verification_of (example_settle_request p)"
  have pl: "plain p" using assms example_settle_payload_plain by auto
  have dec: "decodePaymentHeader (paymentHeader ?r) = Inr p"
    using example_settle_decode [OF pl] by (simp add: verification_of_def)
  obtain pl where f: "getProp p (js ''payload'') = Some pl"
      "getProp pl (js ''authorization'') = Some ?auth"
      "getProp p (js ''x402Version'') = Some (JNum 1)"
      "getProp p (js ''scheme'') = Some (JStr (js ''exact''))"
      "verifySignature example_env p example_requirements"
    using assms
    by (auto simp: example_payload_def example_agent_payload_def example_txHash_def example_simps
        verifySignature_def verifySignature_try_def
        signature_domain_def extra_domain_def propertyKey_def lowerCase_def)
  have g: "getProp (VerificationRequest.paymentRequirements ?r) (js ''maxAmountRequired'')
             = Some (JStr (js ''1000000''))"
      "getProp ?auth (js ''value'') = Some (JStr (js ''1000000''))"
      "getProp (VerificationRequest.paymentRequirements ?r) (js ''asset'') = Some (JStr nativeToken)"
      "getProp ?auth (js ''validAfter'') = Some (JStr (js ''1699999990''))"
      "getProp ?auth (js ''validBefore'') = Some (JStr (js ''1700003600''))"
      "parseInt example_env (JStr (js ''1699999990'')) = Number 1699999990"
      "x402Version ?r = 1" "VerificationRequest.paymentRequirements ?r = example_requirements"
    by (simp_all add: verification_of_def example_settle_request_def example_simps)
  have "verifyPayment example_env ?r = Inr (accepted (Number 1700003600))"
    using verifyPayment_checks [OF dec f(3) f(4) f(1) f(2) g(1) example_numbers(1) g(2)
        example_numbers(1) g(3) _ g(4) g(5) g(6) example_numbers(5), of False] f(5)
    by (simp add: example_numbers first_failure_def g(7) g(8))
  then show ?thesis by (simp add: verifyPayment_example_settle_env)
qed

lemma example_transfer_proof:
  "transfer_proof (paymentHeader (example_settle_request
      (example_payload ''0x00000000000000000000000000000000000000aa'' ''1000000'' ''1700003600'')))
   = JUndefined"
  "transfer_proof (paymentHeader (example_settle_request (example_agent_payload example_txHash)))
   = example_txHash"
  by (simp_all add: transfer_proof_def example_settle_decode example_settle_payload_plain)
     (simp_all add: example_payload_def example_agent_payload_def paymentPayload_def
        agentPaymentPayload_def js_def)

lemma example_agent_payload_reads:
  "getProp (example_agent_payload h) (js ''network'') = Some (JStr (js ''push-chain''))"
  "getProp (example_agent_payload h) (js ''payload'')
     = Some (JObj [(js ''signature'', JStr (js ''0x5167'')),
                   (js ''authorization'',
                    example_authorization ''0x00000000000000000000000000000000000000aa'' ''1000000'' ''1700003600''),
                   (js ''txHash'', h)])"
  "getProp (JObj [(js ''signature'', JStr (js ''0x5167'')),
                   (js ''authorization'',
                    example_authorization ''0x00000000000000000000000000000000000000aa'' ''1000000'' ''1700003600''),
                   (js ''txHash'', h)]) (js ''authorization'')
     = Some (example_authorization ''0x00000000000000000000000000000000000000aa'' ''1000000'' ''1700003600'')"
  "getProp (example_authorization r v b) (js ''from'')
     = Some (JStr (js ''0x00000000000000000000000000000000000000bb''))"
  "getProp (example_authorization r v b) (js ''value'') = Some (JStr (js v))"
  "getProp (VerificationRequest.paymentRequirements (example_settle_request p)) (js ''payTo'')
     = Some (JStr (js ''0x00000000000000000000000000000000000000aa''))"
  "getProp (VerificationRequest.paymentRequirements (example_settle_request p)) (js ''resource'')
     = Some (JStr (js ''/api/premium''))"
  by (simp_all add: example_agent_payload_def example_settle_request_def example_simps)

lemma example_settle_env_rpc:
  "propertyKey (example_settle_env rs ts t) (JStr k) = Some k"
  "literalLookup (rpcUrls (example_settle_env rs ts t)) (js ''push-chain'')
     = JStr (js ''https://evm.rpc-testnet-donut-node1.push.org/'')"
  "js ''https://evm.rpc-testnet-donut-node1.push.org/'' \<noteq> []"
  "getTransactionReceipt (example_settle_env rs ts t) = rs"
  "getTransaction (example_settle_env rs ts t) = ts"
  "BigInt (example_settle_env rs ts t) (JStr (js ''1000000'')) = Some 1000000"
  "toLowerCase (example_settle_env rs ts t) = ascii_lower"
  by (simp_all add: propertyKey_def rpcUrls_def literalLookup_def example_settle_env_def js_def
      decimal_BigInt_def is_digit_def digits_val_def)

lemma settle_writes_eq:
  assumes "toAddress env mv = Some m" "toUtf8Bytes env rv = Some rs" "toAddress env pv = Some p"
    and "uint256_of a = Some a'" "toBytes32 env hv = Some h"
    and "roles s FACILITATOR_ROLE (msg_sender (registryTx env))"
    and "isActive (paymentRequirements s m rs)"
    and "maxAmountRequired (paymentRequirements s m rs) \<le> a'"
    and "getOriginForUEA (registryTx env) p = Some ans"
    and "block_timestamp (registryTx env) \<noteq> 0"
    and "pid = keccak256 (registryTx env)
                 (paymentId_preimage m rs p a' (block_timestamp (registryTx env)) h)"
  shows "settle_writes env s (mv, rv, pv, a, hv, n) =
           (Inr \<lparr>success = True, error = None, settlementTxHash = Some (receiptHash env),
                 networkId = n, responseTimestamp = DateNow env, registryTxHash = Some pid\<rparr>,
            s\<lparr>paymentRecords := (paymentRecords s)(pid :=
                  \<lparr>requirementId = keccak256 (registryTx env) (address_bytes m @ rs),
                   payer = p, originChain = fst (origin_of ans p),
                   originAddress = snd (origin_of ans p), isUEA = snd ans, amount = a',
                   timestamp = block_timestamp (registryTx env), txHash = h, settled = True\<rparr>),
               merchantPayments := (merchantPayments s)(m := merchantPayments s m @ [pid])\<rparr>)"
  using assms
  by (simp add: settle_writes_def ContractService_recordPayment_def
      ContractService_markPaymentSettled_def recordPayment_def markPaymentSettled_def
      is_PaymentRecorded_def Let_def split_def word_greater_zero_iff)






lemma settlePayment_verified:
  assumes v: "verifyPayment env (verification_of request) = Inr v" "isValid v"
    and dec: "decodePaymentHeader (paymentHeader request) = Inr pp"
    and n: "getProp pp (js ''network'') = Some n"
    and pl: "getProp pp (js ''payload'') = Some pl"
    and auth: "getProp pl (js ''authorization'') = Some auth"
    and p: "getProp auth (js ''from'') = Some p"
    and val: "getProp auth (js ''value'') = Some val"
    and amt: "BigInt env val = Some amt"
    and m: "getProp (VerificationRequest.paymentRequirements request) (js ''payTo'') = Some m"
    and r: "getProp (VerificationRequest.paymentRequirements request) (js ''resource'') = Some r"
    and h: "truthy (transfer_proof (paymentHeader request))"
  shows "settlePayment env s request =
           (case verifyTransaction env (transfer_proof (paymentHeader request)) n p m amt of
              Some e \<Rightarrow> settlePayment_catch (Inl e, s)
            | None \<Rightarrow>
                settlePayment_catch
                  (settle_writes env s (m, r, p, amt, transfer_proof (paymentHeader request), n)))"
proof -
  let ?h = "transfer_proof (paymentHeader request)"
  have pp: "JSON_parse (utf8_decode (base64_decode (paymentHeader request))) = Some pp"
    using dec by (simp add: decode_JSON_parse)
  obtain h' where h': "getProp pl (js ''txHash'') = Some h'"
    using getProp_defined [OF auth] by blast
  have hh: "?h = h'" using dec pl h' by (simp add: transfer_proof_def)
  have reads: "settle_reads env request =
           (case verifyTransaction env ?h n p m amt of
              Some e \<Rightarrow> Inl e
            | None \<Rightarrow> Inr (m, r, p, amt, ?h, n))"
    unfolding hh using h unfolding hh
    by (intro settle_reads_eq [OF pp pl auth h' m r p val amt n])
  show ?thesis
    using v reads
    by (simp add: settlePayment_unfold settlePayment_catch_def
             split: option.splits thrown.splits sum.splits prod.splits)
qed

lemma ascii_bytes_js: "ascii (js s) \<Longrightarrow> ascii_bytes (JStr (js s)) = Some s"
  by (simp add: ascii_bytes_def js_def comp_def)

lemma example_encodings:
  "toAddress (example_settle_env rs ts t) (JStr (js ''0x00000000000000000000000000000000000000aa''))
     = Some 0xAA"
  "toAddress (example_settle_env rs ts t) (JStr (js ''0x00000000000000000000000000000000000000bb''))
     = Some 0xBB"
  "toUtf8Bytes (example_settle_env rs ts t) (JStr (js ''/api/premium'')) = Some ''/api/premium''"
  "uint256_of 1000000 = Some 1000000"
  "toBytes32 (example_settle_env rs ts t) example_txHash = Some 0xABCD"
proof -
  have "ascii (js ''/api/premium'')" by (simp add: ascii_def js_def)
  then show "toUtf8Bytes (example_settle_env rs ts t) (JStr (js ''/api/premium'')) = Some ''/api/premium''"
    by (simp add: example_settle_env_def ascii_bytes_js)
qed (simp_all add: example_settle_env_def uint256_of_def example_txHash_def
       js_def hex_word_def hex_nat_def hex_val_def)

lemma example_settle_env_chain:
  "registryTx (example_settle_env rs ts t) = example_chain 3 t native_origin"
  "receiptHash (example_settle_env rs ts t) = js ''0x99''"
  "DateNow (example_settle_env rs ts t) = 1700000000000"
  "msg_sender (example_chain a t f) = a" "block_timestamp (example_chain a t f) = t"
  "keccak256 (example_chain a t f) = ideal_hash" "getOriginForUEA (example_chain a t f) = f"
  by (simp_all add: example_settle_env_def example_chain_def)

lemma example_settle_writes:
  assumes "roles s FACILITATOR_ROLE 3" "isActive (paymentRequirements s 0xAA ''/api/premium'')"
    and "maxAmountRequired (paymentRequirements s 0xAA ''/api/premium'') \<le> 1000000"
    and "t \<noteq> 0"
  shows "settle_writes (example_settle_env rs ts t) s
           (JStr (js ''0x00000000000000000000000000000000000000aa''), JStr (js ''/api/premium''),
            JStr (js ''0x00000000000000000000000000000000000000bb''), 1000000, example_txHash,
            JStr (js ''push-chain''))
         = (Inr (example_response t), example_settled s t)"
proof -
  have o: "getOriginForUEA (registryTx (example_settle_env rs ts t)) 0xBB
           = Some (\<lparr>chainNamespace = [], chainId = [], owner = []\<rparr>, False)"
    by (simp add: example_settle_env_chain native_origin_def)
  have pid: "example_paymentId t 0xABCD = keccak256 (registryTx (example_settle_env rs ts t))
       (paymentId_preimage 0xAA ''/api/premium'' 0xBB 1000000
          (block_timestamp (registryTx (example_settle_env rs ts t))) 0xABCD)"
    by (simp add: example_settle_env_chain example_paymentId_def)
  show ?thesis
    using settle_writes_eq [where env = "example_settle_env rs ts t" and s = s
          and n = "JStr (js ''push-chain'')", OF example_encodings(1,3,2,4,5) _ _ _ o _ pid] assms
    by (simp add: example_settle_env_chain example_response_def example_settled_def
        example_record_def origin_of_def)
qed

lemma agent_request_facts:
  "verifyPayment (example_settle_env rs ts t) (verification_of agent_request)
     = Inr (accepted (Number 1700003600))"
  "isValid (accepted (Number 1700003600))"
  "decodePaymentHeader (paymentHeader agent_request) = Inr (example_agent_payload example_txHash)"
  "transfer_proof (paymentHeader agent_request) = example_txHash"
  "truthy example_txHash"
  "VerificationRequest.paymentRequirements agent_request = example_requirements"
  unfolding agent_request_def
  by (simp_all add: example_settle_verification accepted_def example_settle_decode
      example_settle_payload_plain example_transfer_proof)
     (simp_all add: example_txHash_def js_def example_settle_request_def)

lemma client_request_facts:
  "verifyPayment (example_settle_env rs ts t) (verification_of client_request)
     = Inr (accepted (Number 1700003600))"
  "decodePaymentHeader (paymentHeader client_request)
     = Inr (example_payload ''0x00000000000000000000000000000000000000aa'' ''1000000'' ''1700003600'')"
  "transfer_proof (paymentHeader client_request) = JUndefined"
  unfolding client_request_def
  by (simp_all add: example_settle_verification example_settle_decode
      example_settle_payload_plain example_transfer_proof)

lemma agent_settlePayment:
  "settlePayment (example_settle_env rs ts t) s agent_request =
     (case verifyTransaction (example_settle_env rs ts t) example_txHash (JStr (js ''push-chain''))
             (JStr (js ''0x00000000000000000000000000000000000000bb''))
             (JStr (js ''0x00000000000000000000000000000000000000aa'')) 1000000 of
        Some e \<Rightarrow> settlePayment_catch (Inl e, s)
      | None \<Rightarrow>
          settlePayment_catch
            (settle_writes (example_settle_env rs ts t) s
               (JStr (js ''0x00000000000000000000000000000000000000aa''), JStr (js ''/api/premium''),
                JStr (js ''0x00000000000000000000000000000000000000bb''), 1000000, example_txHash,
                JStr (js ''push-chain''))))"
proof -
  have t: "truthy (transfer_proof (paymentHeader agent_request))"
    by (simp add: agent_request_facts)
  have m: "getProp (VerificationRequest.paymentRequirements agent_request) (js ''payTo'')
      = Some (JStr (js ''0x00000000000000000000000000000000000000aa''))"
    "getProp (VerificationRequest.paymentRequirements agent_request) (js ''resource'')
      = Some (JStr (js ''/api/premium''))"
    unfolding agent_request_def by (rule example_agent_payload_reads)+
  show ?thesis
    using settlePayment_verified [where env = "example_settle_env rs ts t" and s = s,
        OF agent_request_facts(1,2,3) example_agent_payload_reads(1,2,3,4,5)
        example_settle_env_rpc(6) m t]
    unfolding agent_request_facts(4) .
qed

lemma example_verifyTransaction:
  "verifyTransaction (example_settle_env rs ts t) h (JStr (js ''push-chain'')) p m amt =
     (case rs (js ''https://evm.rpc-testnet-donut-node1.push.org/'') h of
        TimedOut \<Rightarrow> None
      | Rejected \<Rightarrow> Some OtherError
      | Resolved None \<Rightarrow> None
      | Resolved (Some receipt) \<Rightarrow>
          (case ts (js ''https://evm.rpc-testnet-donut-node1.push.org/'') h of
             TimedOut \<Rightarrow> None
           | Rejected \<Rightarrow> Some OtherError
           | Resolved None \<Rightarrow> None
           | Resolved (Some tx) \<Rightarrow> check_transaction (example_settle_env rs ts t) receipt tx p m amt))"
  unfolding verifyTransaction_def example_settle_env_rpc Let_def
  by (simp add: example_settle_env_rpc split: race.splits option.splits)

lemma agent_settlePayment_unconfirmed:
  assumes "unconfirmed (rs (js ''https://evm.rpc-testnet-donut-node1.push.org/'') example_txHash)
             (ts (js ''https://evm.rpc-testnet-donut-node1.push.org/'') example_txHash)"
    and "t \<noteq> 0"
  shows "settlePayment (example_settle_env rs ts t) example_registry agent_request
         = (Inr (example_response t), example_settled example_registry t)"
proof -
  have "verifyTransaction (example_settle_env rs ts t) example_txHash (JStr (js ''push-chain''))
             (JStr (js ''0x00000000000000000000000000000000000000bb''))
             (JStr (js ''0x00000000000000000000000000000000000000aa'')) 1000000 = None"
    using assms(1)
    by (auto simp: example_verifyTransaction unconfirmed_def split: race.splits option.splits)
  then show ?thesis
    using example_settle_writes [OF example_registry_facts(1,2) _ assms(2), of rs ts]
    by (simp add: agent_settlePayment example_registry_facts settlePayment_catch_def)
qed

lemma agent_request_reads:
  "getProp (VerificationRequest.paymentRequirements agent_request) (js ''payTo'')
     = Some (JStr (js ''0x00000000000000000000000000000000000000aa''))"
  "getProp (VerificationRequest.paymentRequirements agent_request) (js ''resource'')
     = Some (JStr (js ''/api/premium''))"
  "getProp (VerificationRequest.paymentRequirements client_request) (js ''payTo'')
     = Some (JStr (js ''0x00000000000000000000000000000000000000aa''))"
  "getProp (VerificationRequest.paymentRequirements client_request) (js ''resource'')
     = Some (JStr (js ''/api/premium''))"
  unfolding agent_request_def client_request_def by (rule example_agent_payload_reads)+

lemma example_payload_reads:
  "getProp (example_payload r v b) (js ''network'') = Some (JStr (js ''push-chain''))"
  "getProp (example_payload r v b) (js ''payload'')
     = Some (JObj [(js ''signature'', JStr (js ''0x5167'')),
                   (js ''authorization'', example_authorization r v b)])"
  "getProp (JObj [(js ''signature'', JStr (js ''0x5167'')),
                   (js ''authorization'', example_authorization r v b)]) (js ''authorization'')
     = Some (example_authorization r v b)"
  by (simp_all add: example_payload_def example_simps)

lemma example_transfer_checks:
  "first_failure (transfer_checks ascii_lower example_receipt
      (example_transfer ''0x00000000000000000000000000000000000000cc'')
      (js ''0x00000000000000000000000000000000000000bb'')
      (js ''0x00000000000000000000000000000000000000aa'') 1000000)
   = Some (Transaction_to_address_mismatch (JStr (js ''0x00000000000000000000000000000000000000aa''))
             (Some (js ''0x00000000000000000000000000000000000000cc'')))"
  "first_failure (transfer_checks ascii_lower example_receipt
      (example_transfer ''0x00000000000000000000000000000000000000aa'')
      (js ''0x00000000000000000000000000000000000000bb'')
      (js ''0x00000000000000000000000000000000000000aa'') 1000000) = None"
  "first_failure (transfer_checks ascii_lower failed_receipt
      (example_transfer ''0x00000000000000000000000000000000000000aa'')
      (js ''0x00000000000000000000000000000000000000bb'')
      (js ''0x00000000000000000000000000000000000000aa'') 1000000)
   = Some Transaction_failed_on_source_chain"
  by (simp_all add: first_failure_def transfer_checks_def example_receipt_def failed_receipt_def
      example_transfer_def ascii_lower_def js_def)

lemma timed_out_unconfirmed: "timed_out receipt details \<Longrightarrow> unconfirmed receipt details"
  by (auto simp: timed_out_def unconfirmed_def split: race.splits option.splits)

lemma timeouts_as_not_found_reads:
  "BigInt (timeouts_as_not_found env) = BigInt env"
  "parseInt (timeouts_as_not_found env) = parseInt env"
  "toLowerCase (timeouts_as_not_found env) = toLowerCase env"
  "ToPropertyKey (timeouts_as_not_found env) = ToPropertyKey env"
  "verifyTypedData (timeouts_as_not_found env) = verifyTypedData env"
  "isSupportedToken (timeouts_as_not_found env) = isSupportedToken env"
  "now (timeouts_as_not_found env) = now env"
  "pushChainRpc (timeouts_as_not_found env) = pushChainRpc env"
  "toAddress (timeouts_as_not_found env) = toAddress env"
  "toUtf8Bytes (timeouts_as_not_found env) = toUtf8Bytes env"
  "toBytes32 (timeouts_as_not_found env) = toBytes32 env"
  "registryTx (timeouts_as_not_found env) = registryTx env"
  "receiptHash (timeouts_as_not_found env) = receiptHash env"
  "DateNow (timeouts_as_not_found env) = DateNow env"
  by (simp_all add: timeouts_as_not_found_def)

lemma verifyPayment_timeouts_as_not_found:
  "verifyPayment (timeouts_as_not_found env) vr = verifyPayment env vr"
  unfolding verifyPayment_def verifyPayment_try_def verifySignature_def verifySignature_try_def
    signature_domain_def propertyKey_def lowerCase_def verifyPayment_amount_token_timing_def
    timeouts_as_not_found_reads
  by (rule refl)

lemma check_transaction_timeouts_as_not_found:
  "check_transaction (timeouts_as_not_found env) = check_transaction env"
  unfolding check_transaction_def lowerCase_def timeouts_as_not_found_reads fun_eq_iff
  by (intro allI) (rule refl)

lemma verifyTransaction_timeouts_as_not_found:
  "verifyTransaction (timeouts_as_not_found env) h n p m amt = verifyTransaction env h n p m amt"
proof -
  have k: "propertyKey (timeouts_as_not_found env) = propertyKey env"
    unfolding propertyKey_def timeouts_as_not_found_reads fun_eq_iff by (intro allI) (rule refl)
  have u: "rpcUrls (timeouts_as_not_found env) = rpcUrls env"
    by (simp add: rpcUrls_def timeouts_as_not_found_reads)
  have r: "getTransactionReceipt (timeouts_as_not_found env) url h
             = as_not_found (getTransactionReceipt env url h)"
    "getTransaction (timeouts_as_not_found env) url h = as_not_found (getTransaction env url h)"
    for url
    by (simp_all add: timeouts_as_not_found_def)
  show ?thesis
    unfolding verifyTransaction_def k u check_transaction_timeouts_as_not_found r
    by (auto simp: as_not_found_def Let_def split: option.splits jsval.splits race.splits)
qed

lemma settle_reads_timeouts_as_not_found:
  "settle_reads (timeouts_as_not_found env) request = settle_reads env request"
  unfolding settle_reads_def verifyTransaction_timeouts_as_not_found timeouts_as_not_found_reads
  by (rule refl)

lemma settle_writes_timeouts_as_not_found:
  "settle_writes (timeouts_as_not_found env) s args = settle_writes env s args"
  unfolding settle_writes_def ContractService_recordPayment_def
    ContractService_markPaymentSettled_def timeouts_as_not_found_reads
  by (rule refl)

lemma settlePayment_timeouts_as_not_found:
  "settlePayment (timeouts_as_not_found env) s request = settlePayment env s request"
  unfolding settlePayment_def settlePayment_try_def settle_verified_def
    verifyPayment_timeouts_as_not_found settle_reads_timeouts_as_not_found
    settle_writes_timeouts_as_not_found
  by (rule refl)





section \<open>Settling the same proof of transfer twice\<close>




section \<open>Settlement and the proof of transfer\<close>

text \<open>
  Claim C2, as amended. \<^verbatim>\<open>settlePayment\<close> writes to the registry only when the payload
  carries a transaction hash: when \<^verbatim>\<open>txHash\<close> is missing or falsy the call fails and the
  registry is unchanged, and when the payment verifies the failure is
  \<^verbatim>\<open>SETTLEMENT_FAILED\<close> with \<^verbatim>\<open>Transaction hash not provided by agent\<close>. With a hash, a
  payment that verifies and a network that has an RPC endpoint, the outcome depends on
  what the node returns. When the receipt and the transaction are both retrieved, the
  sender is compared with \<^verbatim>\<open>authorization.from\<close>, the recipient with \<^verbatim>\<open>payTo\<close> (in
  lower case), the value with \<^verbatim>\<open>authorization.value\<close> and the receipt's status with 1,
  in this order; the first condition that fails makes the call fail with
  \<^verbatim>\<open>SETTLEMENT_FAILED\<close> and the message of that condition, the registry unchanged, and
  when none fails the call goes on to the registry writes. When the receipt or the
  transaction is not retrieved, because the node answers \<^verbatim>\<open>null\<close> or the ten-second
  timer fires first, nothing is compared and the call goes on to the registry writes.
\<close>

theorem settlePayment_needs_transfer_proof:
  "(\<not> truthy (transfer_proof (paymentHeader request)) \<longrightarrow>
      (\<exists>e. settlePayment env s request = (Inl e, s)))
   \<and> (verifyPayment env (verification_of request) = Inr v \<and> isValid v
        \<and> decodePaymentHeader (paymentHeader request) = Inr pp
        \<and> getProp pp (js ''network'') = Some n
        \<and> getProp pp (js ''payload'') = Some pl
        \<and> getProp pl (js ''authorization'') = Some auth
        \<and> getProp auth (js ''from'') = Some (JStr p)
        \<and> getProp auth (js ''value'') = Some val
        \<and> BigInt env val = Some amt
        \<and> getProp (VerificationRequest.paymentRequirements request) (js ''payTo'') = Some (JStr m)
        \<and> getProp (VerificationRequest.paymentRequirements request) (js ''resource'') = Some r
        \<and> h = transfer_proof (paymentHeader request) \<longrightarrow>
      (\<not> truthy h \<longrightarrow>
         settlePayment env s request
           = (Inl (appError SETTLEMENT_FAILED Transaction_hash_not_provided_by_agent), s))
      \<and> (truthy h \<and> propertyKey env n = Some key
           \<and> literalLookup (rpcUrls env) key = JStr url \<and> url \<noteq> [] \<longrightarrow>
           (getTransactionReceipt env url h = Resolved (Some rc)
            \<and> getTransaction env url h = Resolved (Some tx) \<longrightarrow>
              settlePayment env s request =
                (case first_failure (transfer_checks (toLowerCase env) rc tx p m amt) of
                   Some msg \<Rightarrow> (Inl (appError SETTLEMENT_FAILED msg), s)
                 | None \<Rightarrow>
                     settlePayment_catch (settle_writes env s (JStr m, r, JStr p, amt, h, n))))
           \<and> (unconfirmed (getTransactionReceipt env url h) (getTransaction env url h) \<longrightarrow>
              settlePayment env s request =
                settlePayment_catch (settle_writes env s (JStr m, r, JStr p, amt, h, n)))))"
proof (intro conjI impI)
  assume np: "\<not> truthy (transfer_proof (paymentHeader request))"
  obtain e where "settle_reads env request = Inl e"
    using settle_reads_no_proof [OF np] by blast
  then show "\<exists>e. settlePayment env s request = (Inl e, s)"
    by (cases e) (auto simp: settlePayment_unfold split: sum.splits)
next
  assume a: "verifyPayment env (verification_of request) = Inr v \<and> isValid v
        \<and> decodePaymentHeader (paymentHeader request) = Inr pp
        \<and> getProp pp (js ''network'') = Some n
        \<and> getProp pp (js ''payload'') = Some pl
        \<and> getProp pl (js ''authorization'') = Some auth
        \<and> getProp auth (js ''from'') = Some (JStr p)
        \<and> getProp auth (js ''value'') = Some val
        \<and> BigInt env val = Some amt
        \<and> getProp (VerificationRequest.paymentRequirements request) (js ''payTo'') = Some (JStr m)
        \<and> getProp (VerificationRequest.paymentRequirements request) (js ''resource'') = Some r
        \<and> h = transfer_proof (paymentHeader request)"
    and np: "\<not> truthy h"
  show "settlePayment env s request
        = (Inl (appError SETTLEMENT_FAILED Transaction_hash_not_provided_by_agent), s)"
    using settle_reads_no_proof_verified [of request env v] a np
    by (simp add: settlePayment_unfold)
next
  assume a: "verifyPayment env (verification_of request) = Inr v \<and> isValid v
        \<and> decodePaymentHeader (paymentHeader request) = Inr pp
        \<and> getProp pp (js ''network'') = Some n
        \<and> getProp pp (js ''payload'') = Some pl
        \<and> getProp pl (js ''authorization'') = Some auth
        \<and> getProp auth (js ''from'') = Some (JStr p)
        \<and> getProp auth (js ''value'') = Some val
        \<and> BigInt env val = Some amt
        \<and> getProp (VerificationRequest.paymentRequirements request) (js ''payTo'') = Some (JStr m)
        \<and> getProp (VerificationRequest.paymentRequirements request) (js ''resource'') = Some r
        \<and> h = transfer_proof (paymentHeader request)"
    and b: "truthy h \<and> propertyKey env n = Some key
           \<and> literalLookup (rpcUrls env) key = JStr url \<and> url \<noteq> []"
    and c: "getTransactionReceipt env url h = Resolved (Some rc)
            \<and> getTransaction env url h = Resolved (Some tx)"
  have f: "verifyPayment env (verification_of request) = Inr v" "isValid v"
    "decodePaymentHeader (paymentHeader request) = Inr pp"
    "getProp pp (js ''network'') = Some n" "getProp pp (js ''payload'') = Some pl"
    "getProp pl (js ''authorization'') = Some auth" "getProp auth (js ''from'') = Some (JStr p)"
    "getProp auth (js ''value'') = Some val" "BigInt env val = Some amt"
    "getProp (VerificationRequest.paymentRequirements request) (js ''payTo'') = Some (JStr m)"
    "getProp (VerificationRequest.paymentRequirements request) (js ''resource'') = Some r"
    "truthy (transfer_proof (paymentHeader request))"
    using a b by simp_all
  have g: "propertyKey env n = Some key" "literalLookup (rpcUrls env) key = JStr url" "url \<noteq> []"
    "getTransactionReceipt env url h = Resolved (Some rc)"
    "getTransaction env url h = Resolved (Some tx)" "h = transfer_proof (paymentHeader request)"
    using a b c by simp_all
  have vt: "verifyTransaction env h n (JStr p) (JStr m) amt
            = check_transaction env rc tx (JStr p) (JStr m) amt"
    by (rule verifyTransaction_retrieved [OF g(1-5)])
  show "settlePayment env s request =
                (case first_failure (transfer_checks (toLowerCase env) rc tx p m amt) of
                   Some msg \<Rightarrow> (Inl (appError SETTLEMENT_FAILED msg), s)
                 | None \<Rightarrow>
                     settlePayment_catch (settle_writes env s (JStr m, r, JStr p, amt, h, n)))"
    unfolding settlePayment_verified [OF f] g(6) [symmetric] vt check_transaction_eq
    by (simp add: settlePayment_catch_def split: option.splits)
next
  assume a: "verifyPayment env (verification_of request) = Inr v \<and> isValid v
        \<and> decodePaymentHeader (paymentHeader request) = Inr pp
        \<and> getProp pp (js ''network'') = Some n
        \<and> getProp pp (js ''payload'') = Some pl
        \<and> getProp pl (js ''authorization'') = Some auth
        \<and> getProp auth (js ''from'') = Some (JStr p)
        \<and> getProp auth (js ''value'') = Some val
        \<and> BigInt env val = Some amt
        \<and> getProp (VerificationRequest.paymentRequirements request) (js ''payTo'') = Some (JStr m)
        \<and> getProp (VerificationRequest.paymentRequirements request) (js ''resource'') = Some r
        \<and> h = transfer_proof (paymentHeader request)"
    and b: "truthy h \<and> propertyKey env n = Some key
           \<and> literalLookup (rpcUrls env) key = JStr url \<and> url \<noteq> []"
    and c: "unconfirmed (getTransactionReceipt env url h) (getTransaction env url h)"
  have f: "verifyPayment env (verification_of request) = Inr v" "isValid v"
    "decodePaymentHeader (paymentHeader request) = Inr pp"
    "getProp pp (js ''network'') = Some n" "getProp pp (js ''payload'') = Some pl"
    "getProp pl (js ''authorization'') = Some auth" "getProp auth (js ''from'') = Some (JStr p)"
    "getProp auth (js ''value'') = Some val" "BigInt env val = Some amt"
    "getProp (VerificationRequest.paymentRequirements request) (js ''payTo'') = Some (JStr m)"
    "getProp (VerificationRequest.paymentRequirements request) (js ''resource'') = Some r"
    "truthy (transfer_proof (paymentHeader request))"
    using a b by simp_all
  have g: "propertyKey env n = Some key" "literalLookup (rpcUrls env) key = JStr url" "url \<noteq> []"
    "h = transfer_proof (paymentHeader request)"
    using a b by simp_all
  have vt: "verifyTransaction env h n (JStr p) (JStr m) amt = None"
    by (rule verifyTransaction_unconfirmed [OF g(1-3) c])
  show "settlePayment env s request =
          settlePayment_catch (settle_writes env s (JStr m, r, JStr p, amt, h, n))"
    unfolding settlePayment_verified [OF f] g(4) [symmetric] vt by simp
qed

text \<open>The theorem on the example payment: the SDK client's header, which has no hash; a
  transfer to \<^verbatim>\<open>0x...cc\<close> instead of the merchant \<^verbatim>\<open>0x...aa\<close>; a reverted transfer; a
  consistent transfer; and a node that returns the receipt and then falls silent.\<close>

theorem settlePayment_needs_transfer_proof_witness:
  "settlePayment (example_settle_env null_node null_node 1700000100) example_registry client_request
     = (Inl (appError SETTLEMENT_FAILED Transaction_hash_not_provided_by_agent), example_registry)
   \<and> settlePayment
        (example_settle_env (example_node example_receipt)
           (example_node (example_transfer ''0x00000000000000000000000000000000000000cc''))
           1700000100)
        example_registry agent_request
     = (Inl (appError SETTLEMENT_FAILED
               (Transaction_to_address_mismatch
                  (JStr (js ''0x00000000000000000000000000000000000000aa''))
                  (Some (js ''0x00000000000000000000000000000000000000cc'')))),
        example_registry)
   \<and> settlePayment
        (example_settle_env (example_node failed_receipt)
           (example_node (example_transfer ''0x00000000000000000000000000000000000000aa''))
           1700000100)
        example_registry agent_request
     = (Inl (appError SETTLEMENT_FAILED Transaction_failed_on_source_chain), example_registry)
   \<and> settlePayment
        (example_settle_env (example_node example_receipt)
           (example_node (example_transfer ''0x00000000000000000000000000000000000000aa''))
           1700000100)
        example_registry agent_request
     = (Inr (example_response 1700000100), example_settled example_registry 1700000100)
   \<and> settlePayment (example_settle_env (example_node example_receipt) silent_node 1700000100)
        example_registry agent_request
     = (Inr (example_response 1700000100), example_settled example_registry 1700000100)"
proof -
  let ?aa = "''0x00000000000000000000000000000000000000aa''"
  let ?bb = "''0x00000000000000000000000000000000000000bb''"
  let ?cc = "''0x00000000000000000000000000000000000000cc''"
  let ?url = "js ''https://evm.rpc-testnet-donut-node1.push.org/''"
  let ?auth = "example_authorization ?aa ''1000000'' ''1700003600''"
  let ?pl = "JObj [(js ''signature'', JStr (js ''0x5167'')), (js ''authorization'', ?auth),
                   (js ''txHash'', example_txHash)]"
  let ?client = "JObj [(js ''signature'', JStr (js ''0x5167'')), (js ''authorization'', ?auth)]"
  have w: "settlePayment_catch
             (settle_writes (example_settle_env rs ts 1700000100) example_registry
                (JStr (js ?aa), JStr (js ''/api/premium''), JStr (js ?bb), 1000000, example_txHash,
                 JStr (js ''push-chain'')))
           = (Inr (example_response 1700000100), example_settled example_registry 1700000100)"
    for rs ts
    using example_settle_writes [OF example_registry_facts(1,2), of 1700000100 rs ts]
    by (simp add: example_registry_facts settlePayment_catch_def)
  have 1: "settlePayment (example_settle_env null_node null_node 1700000100) example_registry
             client_request
           = (Inl (appError SETTLEMENT_FAILED Transaction_hash_not_provided_by_agent),
              example_registry)"
    by (rule settlePayment_needs_transfer_proof
      [where env = "example_settle_env null_node null_node 1700000100" and s = example_registry
         and request = client_request and v = "accepted (Number 1700003600)"
         and pp = "example_payload ?aa ''1000000'' ''1700003600''"
         and n = "JStr (js ''push-chain'')" and pl = ?client and auth = ?auth and p = "js ?bb"
         and val = "JStr (js ''1000000'')" and amt = 1000000 and m = "js ?aa"
         and r = "JStr (js ''/api/premium'')" and h = JUndefined,
         THEN conjunct2, THEN mp, THEN conjunct1, THEN mp];
        (intro conjI)?;
        (rule client_request_facts agent_request_facts(2) example_payload_reads
           example_agent_payload_reads(4,5) example_settle_env_rpc(6) agent_request_reads
           client_request_facts(3) [symmetric]
         | simp))
  have agent: "settlePayment (example_settle_env rs ts 1700000100) example_registry agent_request =
        (case first_failure (transfer_checks ascii_lower rc tx (js ?bb) (js ?aa) 1000000) of
           Some msg \<Rightarrow> (Inl (appError SETTLEMENT_FAILED msg), example_registry)
         | None \<Rightarrow> (Inr (example_response 1700000100), example_settled example_registry 1700000100))"
    if "rs ?url example_txHash = Resolved (Some rc)" "ts ?url example_txHash = Resolved (Some tx)"
    for rs ts rc tx
  proof -
    have got: "getTransactionReceipt (example_settle_env rs ts 1700000100) ?url example_txHash
               = Resolved (Some rc)"
      "getTransaction (example_settle_env rs ts 1700000100) ?url example_txHash
               = Resolved (Some tx)"
      using that by (simp_all add: example_settle_env_rpc)
    have "settlePayment (example_settle_env rs ts 1700000100) example_registry agent_request =
        (case first_failure
                (transfer_checks (toLowerCase (example_settle_env rs ts 1700000100)) rc tx
                   (js ?bb) (js ?aa) 1000000) of
           Some msg \<Rightarrow> (Inl (appError SETTLEMENT_FAILED msg), example_registry)
         | None \<Rightarrow>
             settlePayment_catch
               (settle_writes (example_settle_env rs ts 1700000100) example_registry
                  (JStr (js ?aa), JStr (js ''/api/premium''), JStr (js ?bb), 1000000,
                   example_txHash, JStr (js ''push-chain''))))"
      by (rule settlePayment_needs_transfer_proof
        [where env = "example_settle_env rs ts 1700000100" and s = example_registry
           and request = agent_request and v = "accepted (Number 1700003600)"
           and pp = "example_agent_payload example_txHash"
           and n = "JStr (js ''push-chain'')" and pl = ?pl and auth = ?auth and p = "js ?bb"
           and val = "JStr (js ''1000000'')" and amt = 1000000 and m = "js ?aa"
           and r = "JStr (js ''/api/premium'')" and h = example_txHash
           and key = "js ''push-chain''" and url = ?url and rc = rc and tx = tx,
           THEN conjunct2, THEN mp, THEN conjunct2, THEN mp, THEN conjunct1, THEN mp];
          (intro conjI)?;
          (rule agent_request_facts(1,2,3,5) example_agent_payload_reads(1,2,3,4,5)
             example_settle_env_rpc(1,2,3,6) agent_request_reads got
             agent_request_facts(4) [symmetric]))
    then show ?thesis unfolding w example_settle_env_rpc(7) .
  qed
  have 5: "settlePayment (example_settle_env (example_node example_receipt) silent_node 1700000100)
        example_registry agent_request
     = (Inr (example_response 1700000100), example_settled example_registry 1700000100)"
  proof -
    let ?env = "example_settle_env (example_node example_receipt) silent_node 1700000100"
    have un: "unconfirmed (getTransactionReceipt ?env ?url example_txHash)
                (getTransaction ?env ?url example_txHash)"
      by (simp add: example_settle_env_rpc unconfirmed_def example_node_def silent_node_def)
    have "settlePayment ?env example_registry agent_request =
             settlePayment_catch
               (settle_writes ?env example_registry
                  (JStr (js ?aa), JStr (js ''/api/premium''), JStr (js ?bb), 1000000,
                   example_txHash, JStr (js ''push-chain'')))"
      by (rule settlePayment_needs_transfer_proof
        [where env = ?env and s = example_registry
           and request = agent_request and v = "accepted (Number 1700003600)"
           and pp = "example_agent_payload example_txHash"
           and n = "JStr (js ''push-chain'')" and pl = ?pl and auth = ?auth and p = "js ?bb"
           and val = "JStr (js ''1000000'')" and amt = 1000000 and m = "js ?aa"
           and r = "JStr (js ''/api/premium'')" and h = example_txHash
           and key = "js ''push-chain''" and url = ?url,
           THEN conjunct2, THEN mp, THEN conjunct2, THEN mp, THEN conjunct2, THEN mp];
          (intro conjI)?;
          (rule agent_request_facts(1,2,3,5) example_agent_payload_reads(1,2,3,4,5)
             example_settle_env_rpc(1,2,3,6) agent_request_reads un
             agent_request_facts(4) [symmetric]))
    then show ?thesis unfolding w .
  qed
  show ?thesis
    using 1 5 agent [of "example_node example_receipt" example_receipt
                        "example_node (example_transfer ?cc)" "example_transfer ?cc"]
      agent [of "example_node failed_receipt" failed_receipt
                        "example_node (example_transfer ?aa)" "example_transfer ?aa"]
      agent [of "example_node example_receipt" example_receipt
                        "example_node (example_transfer ?aa)" "example_transfer ?aa"]
    by (simp add: example_node_def example_transfer_checks)
qed

text \<open>
  Claim C2 as the specification states it does not hold: a record is created for a proof
  that is not consistent. The node returns a receipt of status 0 for the hash and no
  transaction; the payment is recorded and marked settled.
\<close>

theorem settlePayment_unconfirmed_transfer_counterexample:
  "settlePayment (example_settle_env (example_node failed_receipt) null_node 1700000100)
     example_registry agent_request
   = (Inr (example_response 1700000100), example_settled example_registry 1700000100)
   \<and> settled (paymentRecords (example_settled example_registry 1700000100)
        (example_paymentId 1700000100 0xABCD))
   \<and> \<not> settled (paymentRecords example_registry (example_paymentId 1700000100 0xABCD))"
proof (intro conjI)
  show "settlePayment (example_settle_env (example_node failed_receipt) null_node 1700000100)
     example_registry agent_request
   = (Inr (example_response 1700000100), example_settled example_registry 1700000100)"
    by (rule agent_settlePayment_unconfirmed)
       (simp_all add: unconfirmed_def example_node_def null_node_def)
qed (simp_all add: example_settled_def example_registry_eq example_record_def zero_record_def)

section \<open>The recipient of an authorization\<close>

text \<open>
  Claim C3, as amended. \<^verbatim>\<open>verifyPayment\<close> makes no recipient check: when the
  version, scheme, signature, amount, token and time-window checks pass, it answers
  \<open>isValid = true\<close> also for an authorization whose \<^verbatim>\<open>to\<close> differs from the
  requirement's \<^verbatim>\<open>payTo\<close>.
\<close>

theorem verifyPayment_ignores_recipient:
  assumes "decodePaymentHeader (paymentHeader request) = Inr pp"
    and "getProp pp (js ''x402Version'') = Some (JNum (x402Version request))"
    and "getProp pp (js ''scheme'') = Some (JStr (js ''exact''))"
    and "getProp pp (js ''payload'') = Some pl"
    and "getProp pl (js ''authorization'') = Some auth"
    and "getProp (VerificationRequest.paymentRequirements request) (js ''maxAmountRequired'') = Some m"
    and "BigInt env m = Some required"
    and "getProp auth (js ''value'') = Some val"
    and "BigInt env val = Some provided"
    and "getProp (VerificationRequest.paymentRequirements request) (js ''asset'') = Some a"
    and "a \<noteq> JStr nativeToken \<Longrightarrow> isSupportedToken env a = Some True"
    and "getProp auth (js ''validAfter'') = Some va"
    and "getProp auth (js ''validBefore'') = Some vb"
    and "parseInt env va = Number validAfter"
    and "parseInt env vb = Number validBefore"
    and "verifySignature env pp (VerificationRequest.paymentRequirements request)"
    and "required \<le> provided"
    and "validAfter \<le> now env"
    and "now env \<le> validBefore"
    and "getProp auth (js ''to'') = Some recipient"
    and "getProp (VerificationRequest.paymentRequirements request) (js ''payTo'') = Some payee"
    and "recipient \<noteq> payee"
  shows "verifyPayment env request = Inr (accepted (Number validBefore))"
  using verifyPayment_checks [OF assms(1-15)] assms(16-19)
  by (simp add: first_failure_def)

text \<open>The theorem on an authorization made out to \<^verbatim>\<open>0x...cc\<close> for a requirement payable
  to \<^verbatim>\<open>0x...aa\<close>.\<close>

theorem verifyPayment_ignores_recipient_witness:
  "getProp (example_authorization ''0x00000000000000000000000000000000000000cc'' ''1000000'' ''1700003600'')
     (js ''to'') = Some (JStr (js ''0x00000000000000000000000000000000000000cc''))
   \<and> getProp example_requirements (js ''payTo'')
       = Some (JStr (js ''0x00000000000000000000000000000000000000aa''))
   \<and> verifySignature example_env
       (example_payload ''0x00000000000000000000000000000000000000cc'' ''1000000'' ''1700003600'')
       example_requirements
   \<and> verifyPayment example_env
       (example_request
          (example_payload ''0x00000000000000000000000000000000000000cc'' ''1000000'' ''1700003600''))
       = Inr (accepted (Number 1700003600))"
proof -
  note f = example_verifyPayment_facts [OF example_payload_plain(4)]
  have "verifyPayment example_env
       (example_request
          (example_payload ''0x00000000000000000000000000000000000000cc'' ''1000000'' ''1700003600''))
       = Inr (accepted (Number 1700003600))"
    using verifyPayment_ignores_recipient [OF f(1) example_version f(3-6) example_numbers(1) f(8)
        example_numbers(1) f(9) _ f(11-13) example_numbers(5) f(14) _ _ _ example_recipient_facts]
    by (simp add: example_numbers)
  then show ?thesis using f(14) example_recipient_facts(1,2) by (simp add: example_request_def)
qed

text \<open>
  Claim C3 as the specification states it fails: the authorization's \<^verbatim>\<open>to\<close> differs
  from the requirement's \<^verbatim>\<open>payTo\<close>, every other check passes, and the payment is
  accepted.
\<close>

theorem verifyPayment_recipient_mismatch_counterexample:
  "getProp (example_authorization ''0x00000000000000000000000000000000000000cc'' ''1000000'' ''1700003600'')
     (js ''to'')
   \<noteq> getProp example_requirements (js ''payTo'')
   \<and> isValid (projr (verifyPayment example_env
       (example_request
          (example_payload ''0x00000000000000000000000000000000000000cc'' ''1000000'' ''1700003600''))))
   \<and> verifyPayment example_env
       (example_request
          (example_payload ''0x00000000000000000000000000000000000000cc'' ''1000000'' ''1700003600''))
       = Inr (accepted (Number 1700003600))"
proof -
  note f = example_verifyPayment_facts [OF example_payload_plain(4)]
  have "verifyPayment example_env
       (example_request
          (example_payload ''0x00000000000000000000000000000000000000cc'' ''1000000'' ''1700003600''))
       = Inr (accepted (Number 1700003600))"
    using verifyPayment_checks [OF f(1-6) example_numbers(1) f(8) example_numbers(1)
        f(9-13) example_numbers(5)] f(14)
    by (simp add: example_numbers example_request_def first_failure_def)
  then show ?thesis by (simp add: accepted_def example_simps)
qed

section \<open>The life of a payment record\<close>

text \<open>
  Claim C4. \<^verbatim>\<open>recordPayment\<close> does not look whether its payment id is in use. On the
  example registry the facilitator records a payment and marks it settled; marking it
  again fails with \<^verbatim>\<open>Payment already settled\<close>. Recording the same payment again in a
  block with the same timestamp yields the same id, stores the record anew with
  \<open>settled = false\<close>, lists the id a second time among the merchant's payments, and
  \<^verbatim>\<open>markPaymentSettled\<close> succeeds on it once more: the record has left the settled
  state and its flag goes from false to true a second time.
\<close>

theorem recordPayment_resets_settled:
  "recordPayment (example_chain 3 1700000000 native_origin) example_registry
       0xAA ''/api/premium'' 0xBB 1000000 0xABCD
     = Inr (recorded_once,
            [PaymentRecorded (example_paymentId 1700000000 0xABCD) 0xAA 0xBB 1000000
               ''push-chain'' 0xBB False],
            example_paymentId 1700000000 0xABCD)
   \<and> markPaymentSettled (example_chain 3 1700000000 native_origin) recorded_once
         (example_paymentId 1700000000 0xABCD) 0x99
       = Inr (settled_once, [PaymentSettled (example_paymentId 1700000000 0xABCD) 0x99])
   \<and> paymentRecords settled_once (example_paymentId 1700000000 0xABCD)
       = example_record 1700000000 0xABCD True
   \<and> markPaymentSettled (example_chain 3 1700000000 native_origin) settled_once
         (example_paymentId 1700000000 0xABCD) 0x99
       = Inl (Error ''Payment already settled'')
   \<and> recordPayment (example_chain 3 1700000000 native_origin) settled_once
         0xAA ''/api/premium'' 0xBB 1000000 0xABCD
       = Inr (recorded_again,
              [PaymentRecorded (example_paymentId 1700000000 0xABCD) 0xAA 0xBB 1000000
                 ''push-chain'' 0xBB False],
              example_paymentId 1700000000 0xABCD)
   \<and> paymentRecords recorded_again (example_paymentId 1700000000 0xABCD)
       = example_record 1700000000 0xABCD False
   \<and> merchantPayments recorded_again 0xAA
       = [example_paymentId 1700000000 0xABCD, example_paymentId 1700000000 0xABCD]
   \<and> markPaymentSettled (example_chain 3 1700000000 native_origin) recorded_again
         (example_paymentId 1700000000 0xABCD) 0x99
       = Inr (settled_again, [PaymentSettled (example_paymentId 1700000000 0xABCD) 0x99])
   \<and> paymentRecords settled_again (example_paymentId 1700000000 0xABCD)
       = example_record 1700000000 0xABCD True"
proof (intro conjI)
  show "recordPayment (example_chain 3 1700000000 native_origin) example_registry
       0xAA ''/api/premium'' 0xBB 1000000 0xABCD
     = Inr (recorded_once,
            [PaymentRecorded (example_paymentId 1700000000 0xABCD) 0xAA 0xBB 1000000
               ''push-chain'' 0xBB False],
            example_paymentId 1700000000 0xABCD)"
    unfolding recorded_once_def state_after_def
    by (simp add: recordPayment_example example_registry_facts Let_def example_paymentId_def)
  show "markPaymentSettled (example_chain 3 1700000000 native_origin) recorded_once
         (example_paymentId 1700000000 0xABCD) 0x99
       = Inr (settled_once, [PaymentSettled (example_paymentId 1700000000 0xABCD) 0x99])"
    unfolding settled_once_def state_after_def
    by (simp add: markPaymentSettled_example recorded_once_eq example_registry_facts
        example_record_def)
  show "recordPayment (example_chain 3 1700000000 native_origin) settled_once
         0xAA ''/api/premium'' 0xBB 1000000 0xABCD
       = Inr (recorded_again,
              [PaymentRecorded (example_paymentId 1700000000 0xABCD) 0xAA 0xBB 1000000
                 ''push-chain'' 0xBB False],
              example_paymentId 1700000000 0xABCD)"
    unfolding recorded_again_def state_after_def
    by (simp add: recordPayment_example settled_once_eq example_registry_facts Let_def
        example_paymentId_def)
  show "markPaymentSettled (example_chain 3 1700000000 native_origin) recorded_again
         (example_paymentId 1700000000 0xABCD) 0x99
       = Inr (settled_again, [PaymentSettled (example_paymentId 1700000000 0xABCD) 0x99])"
    unfolding settled_again_def state_after_def
    by (simp add: markPaymentSettled_example recorded_again_eq example_registry_facts
        example_record_def)
  show "paymentRecords settled_again (example_paymentId 1700000000 0xABCD)
       = example_record 1700000000 0xABCD True"
    by (simp add: settled_again_def state_after_def markPaymentSettled_example recorded_again_eq
        example_registry_facts example_record_def)
qed (simp_all add: markPaymentSettled_example settled_once_eq recorded_again_eq
      example_registry_facts example_record_def)

section \<open>The verification pipeline\<close>




section \<open>Chain-id resolution\<close>

text \<open>
  Claim C6, as amended. \<^verbatim>\<open>getChainId\<close> is a function of the network string alone. Its
  table has one entry for each of the eight supported networks, and a supported network
  resolves to its entry. A network string outside the supported set does not fail: it
  resolves to the default 42101, the chain id of Push Chain. (Nothing is said of a
  string that names a member every object inherits, such as \<^verbatim>\<open>constructor\<close>.)
\<close>

theorem getChainId_table_or_default:
  "map fst chainIds
     = map js [''push-chain'', ''ethereum-sepolia'', ''ethereum'', ''base-sepolia'', ''base'',
               ''arbitrum'', ''optimism'', ''polygon'']
   \<and> distinct (map fst chainIds)
   \<and> getChainId (js ''push-chain'') = JNum 42101
   \<and> getChainId (js ''ethereum-sepolia'') = JNum 11155111
   \<and> getChainId (js ''ethereum'') = JNum 1
   \<and> getChainId (js ''base-sepolia'') = JNum 84532
   \<and> getChainId (js ''base'') = JNum 8453
   \<and> getChainId (js ''arbitrum'') = JNum 42161
   \<and> getChainId (js ''optimism'') = JNum 10
   \<and> getChainId (js ''polygon'') = JNum 137
   \<and> (net \<notin> set (map fst chainIds) \<and> net \<notin> set objectPrototypeNames \<longrightarrow>
        getChainId net = JNum 42101)"
proof -
  have keys: "map fst chainIds
     = map js [''push-chain'', ''ethereum-sepolia'', ''ethereum'', ''base-sepolia'', ''base'',
               ''arbitrum'', ''optimism'', ''polygon'']"
    by (simp add: chainIds_def)
  have dist: "distinct (map fst chainIds)"
    by (simp add: chainIds_def js_def)
  have entries: "getChainId (js ''push-chain'') = JNum 42101"
    "getChainId (js ''ethereum-sepolia'') = JNum 11155111"
    "getChainId (js ''ethereum'') = JNum 1"
    "getChainId (js ''base-sepolia'') = JNum 84532"
    "getChainId (js ''base'') = JNum 8453"
    "getChainId (js ''arbitrum'') = JNum 42161"
    "getChainId (js ''optimism'') = JNum 10"
    "getChainId (js ''polygon'') = JNum 137"
    by (simp_all add: getChainId_def literalLookup_def chainIds_def js_def)
  have other: "getChainId net = JNum 42101"
    if "net \<notin> set (map fst chainIds)" "net \<notin> set objectPrototypeNames"
  proof -
    have "map_of chainIds net = None" using that(1) by (simp add: map_of_eq_None_iff)
    then show ?thesis using that(2) by (simp add: getChainId_def literalLookup_def)
  qed
  show ?thesis using keys dist entries other by blast
qed

text \<open>The theorem at the unlisted network \<^verbatim>\<open>solana\<close>.\<close>

theorem getChainId_table_or_default_witness:
  "js ''solana'' \<notin> set (map fst chainIds) \<and> js ''solana'' \<notin> set objectPrototypeNames
   \<and> getChainId (js ''solana'') = JNum 42101"
proof -
  have a: "js ''solana'' \<notin> set (map fst chainIds)"
    by (simp add: chainIds_def js_def)
  have b: "js ''solana'' \<notin> set objectPrototypeNames"
    by (simp add: objectPrototypeNames_def js_def)
  show ?thesis
    using getChainId_table_or_default [of "js ''solana''"] a b by blast
qed

text \<open>
  Claim C6 as the specification states it fails: the network \<^verbatim>\<open>solana\<close> is not in the
  table, and resolving it returns a chain id instead of an error.
\<close>

theorem getChainId_unknown_network_counterexample:
  "js ''solana'' \<notin> set (map fst chainIds) \<and> getChainId (js ''solana'') = JNum 42101"
  by (simp add: getChainId_def literalLookup_def chainIds_def objectPrototypeNames_def js_def)

section \<open>The payment header codec\<close>

text \<open>
  Claim C7, as amended. Decoding inverts encoding: \<^verbatim>\<open>decodePaymentHeader\<close> returns the
  payload that \<^verbatim>\<open>createPayment\<close> has encoded (JSON, then base64), for every plain value
  and so for every payload \<^verbatim>\<open>createPayment\<close> builds from strings. On any input
  \<^verbatim>\<open>decodePaymentHeader\<close> fails in one way only, with \<^verbatim>\<open>INVALID_REQUEST\<close> and
  \<^verbatim>\<open>Invalid payment header encoding\<close>, and it does so exactly when the text obtained
  from the input, by lenient base64 decoding and UTF-8 decoding, is not a JSON text; an
  input with no character of the base64 alphabet is such an input. Whenever that text
  is a JSON text the input is decoded to its value, a payload or not.
\<close>

theorem header_codec:
  "(plain v \<longrightarrow> decodePaymentHeader (encodePaymentHeader toString v) = Inr v)
   \<and> (list_all utf16 [n, sg, f, t, val, va, vb, nc] \<longrightarrow>
        decodePaymentHeader
          (encodePaymentHeader toString
             (paymentPayload (JStr n) (JStr sg)
                (generatedAuthorization (JStr f) (JStr t) (JStr val) (JStr va) (JStr vb) (JStr nc))))
        = Inr (paymentPayload (JStr n) (JStr sg)
                (generatedAuthorization (JStr f) (JStr t) (JStr val) (JStr va) (JStr vb) (JStr nc))))
   \<and> (decodePaymentHeader header = Inr w
        \<longleftrightarrow> JSON_parse (utf8_decode (base64_decode header)) = Some w)
   \<and> (decodePaymentHeader header = Inl e \<longrightarrow>
        e = appError INVALID_REQUEST Invalid_payment_header_encoding
        \<and> JSON_parse (utf8_decode (base64_decode header)) = None)
   \<and> (list_all (\<lambda>c. unbase64 c = None) header \<longrightarrow>
        decodePaymentHeader header = Inl (appError INVALID_REQUEST Invalid_payment_header_encoding))"
proof (intro conjI impI)
  assume "plain v"
  then show "decodePaymentHeader (encodePaymentHeader toString v) = Inr v"
    by (rule header_roundtrip)
next
  assume "list_all utf16 [n, sg, f, t, val, va, vb, nc]"
  then show "decodePaymentHeader
          (encodePaymentHeader toString
             (paymentPayload (JStr n) (JStr sg)
                (generatedAuthorization (JStr f) (JStr t) (JStr val) (JStr va) (JStr vb) (JStr nc))))
        = Inr (paymentPayload (JStr n) (JStr sg)
                (generatedAuthorization (JStr f) (JStr t) (JStr val) (JStr va) (JStr vb) (JStr nc)))"
    by (intro header_roundtrip createPayment_plain)
next
  show "decodePaymentHeader header = Inr w
        \<longleftrightarrow> JSON_parse (utf8_decode (base64_decode header)) = Some w"
    by (simp add: decodePaymentHeader_def split: option.splits)
next
  assume "decodePaymentHeader header = Inl e"
  then show "e = appError INVALID_REQUEST Invalid_payment_header_encoding"
    "JSON_parse (utf8_decode (base64_decode header)) = None"
    by (auto simp: decodePaymentHeader_def split: option.splits)
next
  assume "list_all (\<lambda>c. unbase64 c = None) header"
  then show "decodePaymentHeader header
             = Inl (appError INVALID_REQUEST Invalid_payment_header_encoding)"
    by (rule decode_no_base64)
qed

text \<open>The theorem on the header of the example payment, on the header of an array, and
  on the input \<^verbatim>\<open>%%%\<close>.\<close>

theorem header_codec_witness:
  "decodePaymentHeader
     (encodePaymentHeader example_toString
        (paymentPayload (JStr (js ''push-chain'')) (JStr (js ''0x5167''))
           (generatedAuthorization (JStr (js ''0x00000000000000000000000000000000000000bb''))
              (JStr (js ''0x00000000000000000000000000000000000000aa'')) (JStr (js ''1000000''))
              (JStr (js ''1699999990'')) (JStr (js ''1700003600'')) (JStr (js ''0x01'')))))
   = Inr (paymentPayload (JStr (js ''push-chain'')) (JStr (js ''0x5167''))
           (generatedAuthorization (JStr (js ''0x00000000000000000000000000000000000000bb''))
              (JStr (js ''0x00000000000000000000000000000000000000aa'')) (JStr (js ''1000000''))
              (JStr (js ''1699999990'')) (JStr (js ''1700003600'')) (JStr (js ''0x01''))))
   \<and> decodePaymentHeader (encodePaymentHeader example_toString (JArr [JNum 1, JNull]))
       = Inr (JArr [JNum 1, JNull])
   \<and> decodePaymentHeader (js ''%%%'')
       = Inl (appError INVALID_REQUEST Invalid_payment_header_encoding)"
proof -
  have u: "list_all utf16 [js ''push-chain'', js ''0x5167'',
      js ''0x00000000000000000000000000000000000000bb'',
      js ''0x00000000000000000000000000000000000000aa'', js ''1000000'', js ''1699999990'',
      js ''1700003600'', js ''0x01'']"
    by (simp add: utf16_def js_def)
  have p: "plain (JArr [JNum 1, JNull])" by (simp add: safe_integer_def)
  have g: "list_all (\<lambda>c. unbase64 c = None) (js ''%%%'')" by (simp add: js_def unbase64_def)
  note T = header_codec
    [where v = "JArr [JNum 1, JNull]" and toString = example_toString
       and n = "js ''push-chain''" and sg = "js ''0x5167''"
       and f = "js ''0x00000000000000000000000000000000000000bb''"
       and t = "js ''0x00000000000000000000000000000000000000aa''"
       and val = "js ''1000000''" and va = "js ''1699999990''" and vb = "js ''1700003600''"
       and nc = "js ''0x01''" and header = "js ''%%%''"]
  show ?thesis
    using T [THEN conjunct1, THEN mp, OF p] T [THEN conjunct2, THEN conjunct1, THEN mp, OF u]
      T [THEN conjunct2, THEN conjunct2, THEN conjunct2, THEN conjunct2, THEN mp, OF g]
    by (intro conjI)
qed

text \<open>
  Claim C7 as the specification states it does not hold: the input \<^verbatim>\<open>!bnVs bA\<close> is not
  base64 and encodes no payload, yet it is decoded without error, to \<^verbatim>\<open>null\<close>.
\<close>

theorem decodePaymentHeader_garbage_counterexample:
  "decodePaymentHeader (js ''!bnVs bA'') = Inr JNull"
proof -
  have b: "base64_decode (js ''!bnVs bA'') = [110, 117, 108, 108]"
    by (simp add: base64_decode_def js_def unbase64_def List.map_filter_simps)
  have u: "utf8_decode [110, 117, 108, 108] = js ''null'' @ []"
    by (simp add: js_def)
  have "JSON_parse (js ''null'' @ []) = Some JNull"
    unfolding JSON_parse_def parse_value_null by (simp add: skip_ws_def)
  then show ?thesis
    unfolding decodePaymentHeader_def b u by simp
qed

section \<open>Origin attribution\<close>

text \<open>
  Claim C8, as amended. The record that \<^verbatim>\<open>recordPayment\<close> stores for an accepted payment
  takes its origin from the UEA factory's answer for the payer. For a cross-chain account
  the origin chain is the chain namespace, a colon and the chain id, and the flag is set;
  the origin address is the address made of the first 20 bytes of the owner, padded with
  zero bytes when the owner is shorter. It is the owner itself when the owner has 20 bytes,
  as an EVM address has, and the first 20 bytes of a longer owner. Otherwise the origin
  chain is \<^verbatim>\<open>push-chain\<close>, the origin address is the payer, and the flag is clear.
\<close>

theorem recordPayment_origin_attribution:
  assumes "recordPayment ctx s merchant resource' payer' amount' txHash' = Inr (s', logs, pid)"
    and "getOriginForUEA ctx payer' = Some (account, uea)"
  shows "(uea \<longrightarrow>
            originChain (paymentRecords s' pid) = chainNamespace account @ '':'' @ chainId account
            \<and> address_bytes (originAddress (paymentRecords s' pid)) = bytes20 (owner account)
            \<and> (20 \<le> length (owner account) \<longrightarrow>
                  address_bytes (originAddress (paymentRecords s' pid)) = take 20 (owner account))
            \<and> (length (owner account) = 20 \<longrightarrow>
                  address_bytes (originAddress (paymentRecords s' pid)) = owner account)
            \<and> isUEA (paymentRecords s' pid))
         \<and> (\<not> uea \<longrightarrow>
            originChain (paymentRecords s' pid) = ''push-chain''
            \<and> originAddress (paymentRecords s' pid) = payer'
            \<and> \<not> isUEA (paymentRecords s' pid))
         \<and> payer (paymentRecords s' pid) = payer'"
proof -
  have rec: "originChain (paymentRecords s' pid) = fst (origin_of (account, uea) payer')"
    "originAddress (paymentRecords s' pid) = snd (origin_of (account, uea) payer')"
    "isUEA (paymentRecords s' pid) = uea" "payer (paymentRecords s' pid) = payer'"
    using assms by (auto simp: recordPayment_def Let_def split_def split: if_splits)
  have b: "address_bytes (address_of_bytes20 (bytes20 (owner account))) = bytes20 (owner account)"
    by (rule address_bytes_of_bytes20 [OF length_bytes20])
  show ?thesis
  proof (cases uea)
    case True
    have ab: "address_bytes (originAddress (paymentRecords s' pid)) = bytes20 (owner account)"
      using rec(2) True b by (simp add: origin_of_def)
    have "originChain (paymentRecords s' pid) = chainNamespace account @ '':'' @ chainId account"
      using rec(1) True by (simp add: origin_of_def)
    moreover have "20 \<le> length (owner account) \<longrightarrow>
        address_bytes (originAddress (paymentRecords s' pid)) = take 20 (owner account)"
      using ab bytes20_long [of "owner account"] by simp
    moreover have "length (owner account) = 20 \<longrightarrow>
        address_bytes (originAddress (paymentRecords s' pid)) = owner account"
      using ab bytes20_exact [of "owner account"] by simp
    ultimately show ?thesis using True ab rec(3,4) by blast
  next
    case False
    then show ?thesis using rec by (simp add: origin_of_def)
  qed
qed

text \<open>The theorem on the specification's scenario 5, a payer whose owner is \<^verbatim>\<open>0xDDD\<close> on
  \<^verbatim>\<open>eip155:11155111\<close>, and on a native payer.\<close>

theorem recordPayment_origin_attribution_witness:
  "(case recordPayment (example_chain 3 1700000000 sepolia_origin) example_registry
           0xAA ''/api/premium'' 0xBB 1000000 0x1234 of
      Inl e \<Rightarrow> False
    | Inr (s', logs, pid) \<Rightarrow>
        originChain (paymentRecords s' pid) = ''eip155:11155111''
        \<and> address_bytes (originAddress (paymentRecords s' pid)) = address_bytes 0xDDD
        \<and> isUEA (paymentRecords s' pid))
   \<and> (case recordPayment (example_chain 3 1700000000 native_origin) example_registry
           0xAA ''/api/premium'' 0xBB 1000000 0x1234 of
      Inl e \<Rightarrow> False
    | Inr (s', logs, pid) \<Rightarrow>
        originChain (paymentRecords s' pid) = ''push-chain''
        \<and> originAddress (paymentRecords s' pid) = 0xBB
        \<and> \<not> isUEA (paymentRecords s' pid))"
proof -
  obtain s1 l1 p1 where r1: "recordPayment (example_chain 3 1700000000 sepolia_origin) example_registry
           0xAA ''/api/premium'' 0xBB 1000000 0x1234 = Inr (s1, l1, p1)"
    by (simp add: recordPayment_accepted sepolia_origin_def Let_def)
  obtain s2 l2 p2 where r2: "recordPayment (example_chain 3 1700000000 native_origin) example_registry
           0xAA ''/api/premium'' 0xBB 1000000 0x1234 = Inr (s2, l2, p2)"
    by (simp add: recordPayment_accepted native_origin_def Let_def)
  have o1: "getOriginForUEA (example_chain 3 1700000000 sepolia_origin) 0xBB
      = Some (\<lparr>chainNamespace = ''eip155'', chainId = ''11155111'', owner = address_bytes 0xDDD\<rparr>, True)"
    by (simp add: example_chain_def sepolia_origin_def)
  have o2: "getOriginForUEA (example_chain 3 1700000000 native_origin) 0xBB
      = Some (\<lparr>chainNamespace = [], chainId = [], owner = []\<rparr>, False)"
    by (simp add: example_chain_def native_origin_def)
  show ?thesis
    using recordPayment_origin_attribution [OF r1 o1] recordPayment_origin_attribution [OF r2 o2]
    unfolding r1 r2 by (simp add: length_address_bytes bytes20_address_bytes)
qed

text \<open>
  Claim C8 as the specification states it fails: for a payer whose owner is a key of 32
  bytes on Solana, the stored origin address is \<^verbatim>\<open>0xDDD\<close>, whose 20 bytes are not the
  owner.
\<close>

theorem recordPayment_origin_owner_counterexample:
  "length solana_owner = 32
   \<and> \<not> isl (recordPayment (example_chain 3 1700000000 solana_origin) example_registry
              0xAA ''/api/premium'' 0xBB 1000000 0x1234)
   \<and> paymentRecords
        (state_after
           (recordPayment (example_chain 3 1700000000 solana_origin) example_registry
              0xAA ''/api/premium'' 0xBB 1000000 0x1234))
        (example_paymentId 1700000000 0x1234)
      = (example_record 1700000000 0x1234 False)
          \<lparr>originChain := ''solana:devnet'', originAddress := 0xDDD, isUEA := True\<rparr>
   \<and> address_bytes 0xDDD \<noteq> solana_owner"
proof -
  have l: "length solana_owner = 32" by (simp add: solana_owner_def length_address_bytes)
  have b: "bytes20 solana_owner = address_bytes 0xDDD"
    by (simp add: bytes20_def solana_owner_def length_address_bytes)
  have ne: "address_bytes a \<noteq> solana_owner" for a
    using l length_address_bytes [of a] by auto
  show ?thesis
    using l ne
    by (simp add: recordPayment_accepted solana_origin_def origin_of_def Let_def b
        address_of_bytes20_address_bytes state_after_def example_paymentId_def example_record_def)
qed

section \<open>A confirmation that times out\<close>

text \<open>
  Claim C9, as amended. In the confirmation of a transfer a timeout of the RPC read is
  not told apart from a transaction the node does not know: answering every timed-out
  read with \<^verbatim>\<open>null\<close> instead changes neither what \<^verbatim>\<open>verifyTransaction\<close> returns nor
  the result of \<^verbatim>\<open>settlePayment\<close> and the registry after it. No configuration is
  consulted: on a network that has an RPC endpoint, whenever the read of the receipt, or
  after it the read of the transaction, times out, \<^verbatim>\<open>verifyTransaction\<close> returns
  normally, and \<^verbatim>\<open>settlePayment\<close> of a payment that verifies and carries a transaction
  hash goes on to the registry writes.
\<close>

theorem verifyTransaction_timeout_proceeds:
  "verifyTransaction (timeouts_as_not_found env) h n p m amt = verifyTransaction env h n p m amt
   \<and> settlePayment (timeouts_as_not_found env) s request = settlePayment env s request
   \<and> (propertyKey env n = Some key \<and> literalLookup (rpcUrls env) key = JStr url \<and> url \<noteq> []
        \<and> timed_out (getTransactionReceipt env url h) (getTransaction env url h) \<longrightarrow>
      verifyTransaction env h n p m amt = None
      \<and> (verifyPayment env (verification_of request) = Inr v \<and> isValid v
           \<and> decodePaymentHeader (paymentHeader request) = Inr pp
           \<and> getProp pp (js ''network'') = Some n
           \<and> getProp pp (js ''payload'') = Some pl
           \<and> getProp pl (js ''authorization'') = Some auth
           \<and> getProp auth (js ''from'') = Some p
           \<and> getProp auth (js ''value'') = Some val
           \<and> BigInt env val = Some amt
           \<and> getProp (VerificationRequest.paymentRequirements request) (js ''payTo'') = Some m
           \<and> getProp (VerificationRequest.paymentRequirements request) (js ''resource'') = Some r
           \<and> h = transfer_proof (paymentHeader request) \<and> truthy h \<longrightarrow>
         settlePayment env s request
           = settlePayment_catch (settle_writes env s (m, r, p, amt, h, n))))"
proof (intro conjI impI)
  show "verifyTransaction (timeouts_as_not_found env) h n p m amt
        = verifyTransaction env h n p m amt"
    by (rule verifyTransaction_timeouts_as_not_found)
  show "settlePayment (timeouts_as_not_found env) s request = settlePayment env s request"
    by (rule settlePayment_timeouts_as_not_found)
next
  assume a: "propertyKey env n = Some key \<and> literalLookup (rpcUrls env) key = JStr url \<and> url \<noteq> []
        \<and> timed_out (getTransactionReceipt env url h) (getTransaction env url h)"
  then show "verifyTransaction env h n p m amt = None"
    by (intro verifyTransaction_unconfirmed [of env n key url] timed_out_unconfirmed) simp_all
next
  assume a: "propertyKey env n = Some key \<and> literalLookup (rpcUrls env) key = JStr url \<and> url \<noteq> []
        \<and> timed_out (getTransactionReceipt env url h) (getTransaction env url h)"
    and b: "verifyPayment env (verification_of request) = Inr v \<and> isValid v
           \<and> decodePaymentHeader (paymentHeader request) = Inr pp
           \<and> getProp pp (js ''network'') = Some n
           \<and> getProp pp (js ''payload'') = Some pl
           \<and> getProp pl (js ''authorization'') = Some auth
           \<and> getProp auth (js ''from'') = Some p
           \<and> getProp auth (js ''value'') = Some val
           \<and> BigInt env val = Some amt
           \<and> getProp (VerificationRequest.paymentRequirements request) (js ''payTo'') = Some m
           \<and> getProp (VerificationRequest.paymentRequirements request) (js ''resource'') = Some r
           \<and> h = transfer_proof (paymentHeader request) \<and> truthy h"
  have f: "verifyPayment env (verification_of request) = Inr v" "isValid v"
    "decodePaymentHeader (paymentHeader request) = Inr pp"
    "getProp pp (js ''network'') = Some n" "getProp pp (js ''payload'') = Some pl"
    "getProp pl (js ''authorization'') = Some auth" "getProp auth (js ''from'') = Some p"
    "getProp auth (js ''value'') = Some val" "BigInt env val = Some amt"
    "getProp (VerificationRequest.paymentRequirements request) (js ''payTo'') = Some m"
    "getProp (VerificationRequest.paymentRequirements request) (js ''resource'') = Some r"
    "truthy (transfer_proof (paymentHeader request))"
    using b by auto
  have g: "h = transfer_proof (paymentHeader request)" using b by simp
  have vt: "verifyTransaction env h n p m amt = None"
    using a by (intro verifyTransaction_unconfirmed [of env n key url] timed_out_unconfirmed) simp_all
  show "settlePayment env s request = settlePayment_catch (settle_writes env s (m, r, p, amt, h, n))"
    unfolding settlePayment_verified [OF f] g [symmetric] vt by simp
qed

text \<open>The theorem on the example payment and a node that returns the receipt and then
  falls silent.\<close>

theorem verifyTransaction_timeout_proceeds_witness:
  "verifyTransaction (example_settle_env (example_node example_receipt) silent_node 1700000100)
     example_txHash (JStr (js ''push-chain''))
     (JStr (js ''0x00000000000000000000000000000000000000bb''))
     (JStr (js ''0x00000000000000000000000000000000000000aa'')) 1000000 = None
   \<and> settlePayment (example_settle_env (example_node example_receipt) silent_node 1700000100)
        example_registry agent_request
     = (Inr (example_response 1700000100), example_settled example_registry 1700000100)"
proof -
  let ?aa = "''0x00000000000000000000000000000000000000aa''"
  let ?bb = "''0x00000000000000000000000000000000000000bb''"
  let ?url = "js ''https://evm.rpc-testnet-donut-node1.push.org/''"
  let ?auth = "example_authorization ?aa ''1000000'' ''1700003600''"
  let ?pl = "JObj [(js ''signature'', JStr (js ''0x5167'')), (js ''authorization'', ?auth),
                   (js ''txHash'', example_txHash)]"
  let ?env = "example_settle_env (example_node example_receipt) silent_node 1700000100"
  have w: "settlePayment_catch
             (settle_writes ?env example_registry
                (JStr (js ?aa), JStr (js ''/api/premium''), JStr (js ?bb), 1000000, example_txHash,
                 JStr (js ''push-chain'')))
           = (Inr (example_response 1700000100), example_settled example_registry 1700000100)"
    using example_settle_writes [OF example_registry_facts(1,2),
        of 1700000100 "example_node example_receipt" silent_node]
    by (simp add: example_registry_facts settlePayment_catch_def)
  have late: "propertyKey ?env (JStr (js ''push-chain'')) = Some (js ''push-chain'')
        \<and> literalLookup (rpcUrls ?env) (js ''push-chain'') = JStr ?url \<and> ?url \<noteq> []
        \<and> timed_out (getTransactionReceipt ?env ?url example_txHash)
             (getTransaction ?env ?url example_txHash)"
    by (simp add: example_settle_env_rpc timed_out_def example_node_def silent_node_def)
  note T = verifyTransaction_timeout_proceeds
      [where env = ?env and s = example_registry and request = agent_request
         and v = "accepted (Number 1700003600)" and pp = "example_agent_payload example_txHash"
         and n = "JStr (js ''push-chain'')" and pl = ?pl and auth = ?auth
         and p = "JStr (js ?bb)" and val = "JStr (js ''1000000'')" and amt = 1000000
         and m = "JStr (js ?aa)" and r = "JStr (js ''/api/premium'')" and h = example_txHash
         and key = "js ''push-chain''" and url = ?url,
         THEN conjunct2, THEN conjunct2, THEN mp, OF late]
  have "settlePayment ?env example_registry agent_request =
          settlePayment_catch
            (settle_writes ?env example_registry
               (JStr (js ?aa), JStr (js ''/api/premium''), JStr (js ?bb), 1000000, example_txHash,
                JStr (js ''push-chain'')))"
    by (rule T [THEN conjunct2, THEN mp]; (intro conjI)?;
        (rule agent_request_facts(1,2,3,5) example_agent_payload_reads(1,2,3,4,5)
           example_settle_env_rpc(6) agent_request_reads agent_request_facts(4) [symmetric]))
  then show ?thesis
    using T [THEN conjunct1] unfolding w by simp
qed

text \<open>
  Claim C9 as the specification states it does not hold: with a node that answers no
  read in time the example payment is recorded and marked settled, exactly as with a
  node that does not know the transaction.
\<close>

theorem settlePayment_timeout_counterexample:
  "settlePayment (example_settle_env silent_node silent_node 1700000100) example_registry
     agent_request
   = (Inr (example_response 1700000100), example_settled example_registry 1700000100)
   \<and> settlePayment (example_settle_env null_node null_node 1700000100) example_registry
       agent_request
     = (Inr (example_response 1700000100), example_settled example_registry 1700000100)
   \<and> settled (paymentRecords (example_settled example_registry 1700000100)
        (example_paymentId 1700000100 0xABCD))"
proof (intro conjI)
  show "settlePayment (example_settle_env silent_node silent_node 1700000100) example_registry
     agent_request
   = (Inr (example_response 1700000100), example_settled example_registry 1700000100)"
    by (rule agent_settlePayment_unconfirmed) (simp_all add: unconfirmed_def silent_node_def)
  show "settlePayment (example_settle_env null_node null_node 1700000100) example_registry
       agent_request
     = (Inr (example_response 1700000100), example_settled example_registry 1700000100)"
    by (rule agent_settlePayment_unconfirmed) (simp_all add: unconfirmed_def null_node_def)
qed (simp add: example_settled_def example_record_def)

section \<open>The signature check\<close>



end
